theory Spec2Isabelle
  imports Main
begin

section \<open>Tokens\<close>

text \<open>
  The token alphabet shared by the tokenizer, the pre handler and the serializer.
  The constructors live in mediawiki.parser.defines.js, which is not part of the
  sources at hand; the datatype lists the constructors and the fields that the
  code under study reads. A JavaScript string token is \<open>StringTk\<close>; a string is the
  list of its code units, and the model has the code units below 256.

  \<open>dataAttribs\<close> holds the round-trip data of a token: \<open>tsr\<close> is the source range,
  \<open>stx\<close> and \<open>stx_v\<close> the syntax markers, \<open>src\<close> the original source, \<open>tail\<close> a link
  tail, \<open>gc\<close> the generated-content flag and \<open>sHref\<close> the link target as written.
  A field that is absent (undefined) is \<open>None\<close>; \<open>gc\<close> is read for truthiness only.
\<close>

record dataAttribs =
  tsr :: "(int \<times> int) option"
  stx :: "string option"
  stx_v :: "string option"
  src :: "string option"
  tail :: "string option"
  gc :: bool
  sHref :: "string option"

type_synonym attribs = "(string \<times> string) list"

datatype token =
    TagTk string attribs dataAttribs
  | EndTagTk string attribs dataAttribs
  | SelfclosingTagTk string attribs dataAttribs
  | StringTk string
  | CommentTk string dataAttribs
  | NlTk dataAttribs
  | EOFTk

definition noData :: dataAttribs where
  "noData = \<lparr> tsr = None, stx = None, stx_v = None, src = None, tail = None,
              gc = False, sHref = None \<rparr>"

section \<open>Attribute serialization\<close>

text \<open>\<open>Array.prototype.join\<close> with a separator.\<close>

fun join :: "string \<Rightarrow> string list \<Rightarrow> string" where
  "join sep [] = []"
| "join sep [x] = x"
| "join sep (x # y # ys) = x @ sep @ join sep (y # ys)"

text \<open>
  \<open>v.replace('"', '&quot;')\<close>: with a string pattern, \<open>String.prototype.replace\<close>
  replaces the first occurrence only.
\<close>

fun replaceQuote :: "string \<Rightarrow> string" where
  "replaceQuote [] = []"
| "replaceQuote (c # cs) =
     (if c = CHR 0x22 then ''&quot;'' @ cs else c # replaceQuote cs)"

text \<open>The loop of \<open>WSP._serializeAttributes\<close>, with the array \<open>out\<close> as accumulator.\<close>

fun serializeAttributes_loop :: "attribs \<Rightarrow> string list \<Rightarrow> string list" where
  "serializeAttributes_loop [] out = out"
| "serializeAttributes_loop ((k, v) # kvs) out =
     (if k \<noteq> [] then
        (if v \<noteq> [] then
           serializeAttributes_loop kvs
             (out @ [k @ ''='' @ [CHR 0x22] @ replaceQuote v @ [CHR 0x22]])
         else serializeAttributes_loop kvs (out @ [k]))
      else if v \<noteq> [] then serializeAttributes_loop kvs (out @ [v])
      else serializeAttributes_loop kvs out)"

definition serializeAttributes :: "attribs \<Rightarrow> string" where
  "serializeAttributes attribs = join '' '' (serializeAttributes_loop attribs [])"

subsection \<open>The rendering of one attribute, as the specification words it\<close>

text \<open>
  The value with its first double quote, if any, replaced by \<open>&quot;\<close> and everything
  after that quote kept verbatim.
\<close>

definition firstQuoteEscaped :: "string \<Rightarrow> string" where
  "firstQuoteEscaped v =
     (case dropWhile (\<lambda>c. c \<noteq> CHR 0x22) v of
        [] \<Rightarrow> v
      | q # after \<Rightarrow> takeWhile (\<lambda>c. c \<noteq> CHR 0x22) v @ ''&quot;'' @ after)"

fun renderedAttribute :: "string \<times> string \<Rightarrow> string option" where
  "renderedAttribute (k, v) =
     (if k \<noteq> [] \<and> v \<noteq> [] then Some (k @ ''='' @ [CHR 0x22] @ firstQuoteEscaped v @ [CHR 0x22])
      else if k \<noteq> [] \<and> v = [] then Some k
      else if k = [] \<and> v \<noteq> [] then Some v
      else None)"

section \<open>The pre handler\<close>

text \<open>
  The five-state machine of the pre handler (the range-tracking variant with
  \<open>preTSR\<close>). \<open>anyHandler\<close> records whether the \<open>onAny\<close> transform is registered
  with the transform manager: \<open>init\<close> with \<open>addAnyHandler\<close> registers it and
  \<open>moveToIgnoreState\<close> removes it. The console output of the handler (trace,
  debug and error lines) is not part of the model.
\<close>

datatype fsm = STATE_SOL | STATE_PRE | STATE_PRE_COLLECT | STATE_MULTILINE_PRE | STATE_IGNORE

record preHandler =
  state :: fsm
  lastNlTk :: "token option"
  preTSR :: int
  tokens :: "token list"
  preWSToken :: "token option"
  multiLinePreWSToken :: "token option"
  solTransparentTokens :: "token list"
  inPre :: bool
  anyHandler :: bool

text \<open>
  \<open>Util.isTableTag\<close> and \<open>Util.isBlockTag\<close> live in mediawiki.Util.js, which is not
  part of the sources at hand; the model takes them as parameters.
\<close>

record util =
  isTableTag :: "token \<Rightarrow> bool"
  isBlockTag :: "string \<Rightarrow> bool"

text \<open>
  \<open>token.isHTMLTag()\<close> is declared with the token constructors. It is modelled
  by the test that the serializer itself applies to a tag, \<open>dataAttribs.stx === 'html'\<close>;
  a token that is not a tag answers false.
\<close>

fun isHTMLTag :: "token \<Rightarrow> bool" where
  "isHTMLTag (TagTk n a d) = (stx d = Some ''html'')"
| "isHTMLTag (EndTagTk n a d) = (stx d = Some ''html'')"
| "isHTMLTag (SelfclosingTagTk n a d) = (stx d = Some ''html'')"
| "isHTMLTag t = False"

text \<open>\<open>String.prototype.toUpperCase\<close> on the letters a to z.\<close>

definition toUpperChar :: "char \<Rightarrow> char" where
  "toUpperChar c =
     (let n = (of_char c :: nat) in if 97 \<le> n \<and> n \<le> 122 then char_of (n - 32) else c)"

definition toUpperCase :: "string \<Rightarrow> string" where
  "toUpperCase s = map toUpperChar s"

text \<open>\<open>isPre(token, TagTk)\<close> and \<open>isPre(token, EndTagTk)\<close>.\<close>

fun isPreTagTk :: "token \<Rightarrow> bool" where
  "isPreTagTk (TagTk n a d) = (isHTMLTag (TagTk n a d) \<and> toUpperCase n = ''PRE'')"
| "isPreTagTk t = False"

fun isPreEndTagTk :: "token \<Rightarrow> bool" where
  "isPreEndTagTk (EndTagTk n a d) = (isHTMLTag (EndTagTk n a d) \<and> toUpperCase n = ''PRE'')"
| "isPreEndTagTk t = False"

text \<open>
  Modelled from the spec: \<open>Util.isSolTransparent\<close> (mediawiki.Util.js is not part of
  the sources at hand). Sol-transparent tokens are whitespace, comments and meta
  tags: a string without a non-whitespace character, a comment, or a self-closing
  \<open>meta\<close> tag. The earlier variant of the handler defines its own \<open>isSolTransparent\<close>
  in exactly this way, with the test \<open>/^\s*$/\<close> for the string. \<open>isSpace\<close> is the
  class \<open>\s\<close> on the characters of the model, the code units below 256: the
  whitespace of ASCII and the no-break space U+00A0.
\<close>

definition isSpace :: "char \<Rightarrow> bool" where
  "isSpace c = (c = CHR '' '' \<or> c = CHR 0x09 \<or> c = CHR ''\<newline>'' \<or> c = CHR 0x0B
                \<or> c = CHR 0x0C \<or> c = CHR 0x0D \<or> c = CHR 0xA0)"

fun isSolTransparent :: "token \<Rightarrow> bool" where
  "isSolTransparent (StringTk s) = list_all isSpace s"
| "isSolTransparent (CommentTk v d) = True"
| "isSolTransparent (SelfclosingTagTk n a d) = (n = ''meta'')"
| "isSolTransparent t = False"

text \<open>\<open>token.isHTMLTag() && Util.isBlockTag(token.name)\<close>\<close>

fun isHTMLBlockTag :: "util \<Rightarrow> token \<Rightarrow> bool" where
  "isHTMLBlockTag u (TagTk n a d) = (isHTMLTag (TagTk n a d) \<and> isBlockTag u n)"
| "isHTMLBlockTag u (EndTagTk n a d) = (isHTMLTag (EndTagTk n a d) \<and> isBlockTag u n)"
| "isHTMLBlockTag u (SelfclosingTagTk n a d) =
     (isHTMLTag (SelfclosingTagTk n a d) \<and> isBlockTag u n)"
| "isHTMLBlockTag u t = False"

text \<open>The state that the constructor leaves: \<open>init(this, true)\<close>, with \<open>inPre\<close> unset.\<close>

definition init :: "preHandler \<Rightarrow> bool \<Rightarrow> preHandler" where
  "init handler addAnyHandler =
     handler\<lparr> state := STATE_SOL, lastNlTk := None, preTSR := 0, tokens := [],
              preWSToken := None, multiLinePreWSToken := None,
              solTransparentTokens := [],
              anyHandler := (if addAnyHandler then True else anyHandler handler) \<rparr>"

definition newPreHandler :: preHandler where
  "newPreHandler =
     init \<lparr> state = STATE_SOL, lastNlTk = None, preTSR = 0, tokens = [],
            preWSToken = None, multiLinePreWSToken = None, solTransparentTokens = [],
            inPre = False, anyHandler = False \<rparr> True"

definition moveToIgnoreState :: "preHandler \<Rightarrow> preHandler" where
  "moveToIgnoreState h = h\<lparr> state := STATE_IGNORE, anyHandler := False \<rparr>"

text \<open>\<open>popLastNL(ret)\<close> returns the array \<open>ret\<close> after the push, and the handler.\<close>

definition popLastNL :: "preHandler \<Rightarrow> token list \<Rightarrow> token list \<times> preHandler" where
  "popLastNL h ret =
     (case lastNlTk h of
        Some nl \<Rightarrow> (ret @ [nl], h\<lparr> lastNlTk := None \<rparr>)
      | None \<Rightarrow> (ret, h))"

definition getResultAndReset :: "preHandler \<Rightarrow> token \<Rightarrow> token list \<times> preHandler" where
  "getResultAndReset h token =
     (let (ret, h1) = popLastNL h (tokens h);
          (ret, h2) = (case preWSToken h1 of
                         Some ws \<Rightarrow> (ret @ [ws], h1\<lparr> preWSToken := None \<rparr>)
                       | None \<Rightarrow> (ret, h1));
          (ret, h3) = (if solTransparentTokens h2 \<noteq> []
                       then (ret @ solTransparentTokens h2, h2\<lparr> solTransparentTokens := [] \<rparr>)
                       else (ret, h2));
          ret = ret @ [token]
      in (ret, h3\<lparr> tokens := [], multiLinePreWSToken := None \<rparr>))"

text \<open>
  \<open>new TagTk('pre', [], da)\<close>: with \<open>da\<close> null the tag has empty data attributes,
  otherwise the source range \<open>[preTSR, preTSR + 1]\<close>.
\<close>

definition processPre :: "preHandler \<Rightarrow> token \<Rightarrow> token list \<times> preHandler" where
  "processPre h token =
     (let ret = (if tokens h \<noteq> [] then
                   (let da = (if preTSR h \<noteq> - 1
                              then noData\<lparr> tsr := Some (preTSR h, preTSR h + 1) \<rparr>
                              else noData)
                    in [TagTk ''pre'' [] da] @ [] @ tokens h @ [EndTagTk ''pre'' [] noData])
                 else []);
          (ret, h1) = (case multiLinePreWSToken h of
                         Some ws \<Rightarrow> (ret @ [ws], h\<lparr> multiLinePreWSToken := None \<rparr>)
                       | None \<Rightarrow> (ret, h));
          (ret, h2) = popLastNL h1 ret;
          ret = ret @ solTransparentTokens h2;
          ret = ret @ [token]
      in (ret, h2\<lparr> solTransparentTokens := [], tokens := [] \<rparr>))"

text \<open>The data attributes of a token, where it has any.\<close>

fun dataAttribsOf :: "token \<Rightarrow> dataAttribs option" where
  "dataAttribsOf (TagTk n a d) = Some d"
| "dataAttribsOf (EndTagTk n a d) = Some d"
| "dataAttribsOf (SelfclosingTagTk n a d) = Some d"
| "dataAttribsOf (CommentTk v d) = Some d"
| "dataAttribsOf (NlTk d) = Some d"
| "dataAttribsOf t = None"

text \<open>\<open>(da && da.tsr && da.tsr[1]) ? da.tsr[1] : -1\<close>: an end offset of zero is falsy.\<close>

definition initPreTSR :: "token \<Rightarrow> int" where
  "initPreTSR nltk =
     (case dataAttribsOf nltk of
        None \<Rightarrow> - 1
      | Some da \<Rightarrow> (case tsr da of
                     None \<Rightarrow> - 1
                   | Some (s, e) \<Rightarrow> if e \<noteq> 0 then e else - 1))"

definition onNewline :: "preHandler \<Rightarrow> token \<Rightarrow> token list option \<times> preHandler" where
  "onNewline h token =
     (case state h of
        STATE_SOL \<Rightarrow>
          (let (ret, h1) = getResultAndReset h token
           in (Some ret, h1\<lparr> preTSR := initPreTSR token \<rparr>))
      | STATE_PRE \<Rightarrow>
          (let (ret, h1) = getResultAndReset h token
           in (Some ret, h1\<lparr> preTSR := initPreTSR token, state := STATE_SOL \<rparr>))
      | STATE_PRE_COLLECT \<Rightarrow>
          (None, h\<lparr> lastNlTk := Some token, state := STATE_MULTILINE_PRE \<rparr>)
      | STATE_MULTILINE_PRE \<Rightarrow>
          (let (ret, h1) = processPre h token
           in (Some ret, h1\<lparr> preTSR := initPreTSR token, state := STATE_SOL \<rparr>))
      | STATE_IGNORE \<Rightarrow>
          (Some [token], (init h True)\<lparr> preTSR := initPreTSR token \<rparr>))"

definition onEnd :: "preHandler \<Rightarrow> token \<Rightarrow> token list \<times> preHandler" where
  "onEnd h token =
     (let h1 = h\<lparr> inPre := False \<rparr>
      in if state h1 \<noteq> STATE_IGNORE then ([token], init h1 False)
         else ([token], init h1 True))"

text \<open>\<open>token.length\<close> of a string token.\<close>

fun tokenLength :: "token \<Rightarrow> nat" where
  "tokenLength (StringTk s) = length s"
| "tokenLength t = 0"

text \<open>
  \<open>getUpdatedPreTSR\<close>. A comment without source range stands for \<open><!--\<close>, its
  value and \<open>-->\<close>, seven characters more than the value. The last branch adds
  \<open>token.length\<close>, which only a string has; \<open>onAny\<close> calls the function on
  sol-transparent tokens only, and these are strings, comments and self-closing
  tags, so the model leaves the offset alone for the constructors that cannot occur.
\<close>

fun getUpdatedPreTSR :: "int \<Rightarrow> token \<Rightarrow> int" where
  "getUpdatedPreTSR t (CommentTk v d) =
     (case tsr d of
        Some (s, e) \<Rightarrow> e
      | None \<Rightarrow> (if t = - 1 then - 1 else int (length v) + 7 + t))"
| "getUpdatedPreTSR t (SelfclosingTagTk n a d) = - 1"
| "getUpdatedPreTSR t (StringTk s) =
     (if t \<noteq> - 1 then t + int (tokenLength (StringTk s)) else t)"
| "getUpdatedPreTSR t tok = t"

text \<open>\<open>tc === String && token.match(/^ /)\<close>\<close>

fun startsWithSpace :: "token \<Rightarrow> bool" where
  "startsWithSpace (StringTk (c # cs)) = (c = CHR '' '')"
| "startsWithSpace t = False"

text \<open>\<open>token.slice(1)\<close> of a string token.\<close>

fun slice1 :: "token \<Rightarrow> string" where
  "slice1 (StringTk (c # cs)) = cs"
| "slice1 t = []"

text \<open>The first statement of \<open>onAny\<close>: an HTML pre tag sets or clears \<open>inPre\<close>.\<close>

definition trackInPre :: "preHandler \<Rightarrow> token \<Rightarrow> preHandler" where
  "trackInPre h token =
     (if isPreTagTk token then h\<lparr> inPre := True \<rparr>
      else if isPreEndTagTk token then h\<lparr> inPre := False \<rparr>
      else h)"

text \<open>
  \<open>onAny\<close>. The result is the \<open>tokens\<close> field of the returned object (\<open>None\<close> for
  null) and the handler. When the whitespace token has more than the one space,
  the handler calls itself on the rest of the string and drops what that call
  returns; the measure of the recursion is the length of the string.
\<close>

function onAny :: "util \<Rightarrow> preHandler \<Rightarrow> token \<Rightarrow> token list option \<times> preHandler" where
  "onAny u h0 token =
     (let h = trackInPre h0 token
      in if state h = STATE_IGNORE then (None, h)
         else if token = EOFTk then
           (let (ret, h1) =
                  (case state h of
                     STATE_SOL \<Rightarrow> getResultAndReset h token
                   | STATE_PRE \<Rightarrow> getResultAndReset h token
                   | STATE_PRE_COLLECT \<Rightarrow> processPre h token
                   | STATE_MULTILINE_PRE \<Rightarrow> processPre h token
                   | STATE_IGNORE \<Rightarrow> ([], h))
            in (Some ret, init (h1\<lparr> inPre := False \<rparr>) False))
         else
           (case state h of
              STATE_SOL \<Rightarrow>
                if startsWithSpace token \<and> \<not> inPre h then
                  (let ret = tokens h;
                       h1 = h\<lparr> tokens := [], preWSToken := Some (StringTk '' ''),
                                state := STATE_PRE \<rparr>;
                       h2 = (if slice1 token \<noteq> []
                             then snd (onAny u h1 (StringTk (slice1 token)))
                             else h1)
                   in (Some ret, h2))
                else if isSolTransparent token then
                  (None, h\<lparr> preTSR := getUpdatedPreTSR (preTSR h) token,
                             tokens := tokens h @ [token] \<rparr>)
                else
                  (let (ret, h1) = getResultAndReset h token
                   in (Some ret, moveToIgnoreState h1))
            | STATE_PRE \<Rightarrow>
                if isSolTransparent token then
                  (None, h\<lparr> solTransparentTokens := solTransparentTokens h @ [token] \<rparr>)
                else if isTableTag u token \<or> isHTMLBlockTag u token then
                  (let (ret, h1) = getResultAndReset h token
                   in (Some ret, moveToIgnoreState h1))
                else
                  (None, h\<lparr> tokens := tokens h @ solTransparentTokens h @ [token],
                             solTransparentTokens := [],
                             preWSToken := None, multiLinePreWSToken := None,
                             state := STATE_PRE_COLLECT \<rparr>)
            | STATE_PRE_COLLECT \<Rightarrow>
                if isHTMLBlockTag u token then
                  (let (ret, h1) = processPre h token
                   in (Some ret, moveToIgnoreState h1))
                else
                  (None, h\<lparr> preWSToken := None, multiLinePreWSToken := None,
                             tokens := tokens h @ [token] \<rparr>)
            | STATE_MULTILINE_PRE \<Rightarrow>
                if startsWithSpace token then
                  (let (toks, h1) = popLastNL h (tokens h);
                       h2 = h1\<lparr> state := STATE_PRE_COLLECT,
                                 tokens := toks @ solTransparentTokens h1,
                                 solTransparentTokens := [],
                                 multiLinePreWSToken := Some (StringTk '' '') \<rparr>;
                       h3 = (if slice1 token \<noteq> []
                             then snd (onAny u h2 (StringTk (slice1 token)))
                             else h2)
                   in (None, h3))
                else if isSolTransparent token then
                  (None, h\<lparr> solTransparentTokens := solTransparentTokens h @ [token] \<rparr>)
                else
                  (let (ret, h1) = processPre h token
                   in (Some ret, moveToIgnoreState h1))
            | STATE_IGNORE \<Rightarrow> (None, h)))"
  by pat_completeness auto
termination
proof (relation "measure (\<lambda>(u, h, token). tokenLength token)")
  show "wf (measure (\<lambda>(u, h, token). tokenLength token))"
    by simp
next
  fix u :: util and h0 x token xa xb
  assume "startsWithSpace token \<and> \<not> inPre x"
  then show "((u, xb, StringTk (slice1 token)), u, h0, token)
       \<in> measure (\<lambda>(u, h, token). tokenLength token)"
    by (cases token rule: startsWithSpace.cases) auto
next
  fix u :: util and h0 x token xa xb xc xd
  assume "startsWithSpace token"
  then show "((u, xd, StringTk (slice1 token)), u, h0, token)
       \<in> measure (\<lambda>(u, h, token). tokenLength token)"
    by (cases token rule: startsWithSpace.cases) auto
qed

declare onAny.simps [simp del]

text \<open>
  Modelled from the spec: the dispatch of the token transform manager, which is
  not part of the sources at hand. The machine is installed as hooked transforms:
  one fires on every newline token, one on every other token while it is
  registered, and the end hook on the end of input. What a hook returns goes
  downstream and is not processed by the handler again (it carries \<open>skipRank\<close>);
  a token for which no hook is registered passes unchanged.
\<close>

fun feed :: "util \<Rightarrow> preHandler \<Rightarrow> token \<Rightarrow> token list \<times> preHandler" where
  "feed u h (NlTk d) =
     (case onNewline h (NlTk d) of (None, h1) \<Rightarrow> ([], h1) | (Some ret, h1) \<Rightarrow> (ret, h1))"
| "feed u h token =
     (if anyHandler h then
        (case onAny u h token of (None, h1) \<Rightarrow> ([], h1) | (Some ret, h1) \<Rightarrow> (ret, h1))
      else if token = EOFTk then onEnd h token
      else ([token], h))"

fun run :: "util \<Rightarrow> preHandler \<Rightarrow> token list \<Rightarrow> token list \<times> preHandler" where
  "run u h [] = ([], h)"
| "run u h (t # ts) =
     (let (out1, h1) = feed u h t; (out2, h2) = run u h1 ts in (out1 @ out2, h2))"

text \<open>
  The registration of \<open>onAny\<close> follows the state: the transform is registered
  exactly while the machine is not in IGNORE.
\<close>

definition registered :: "preHandler \<Rightarrow> bool" where
  "registered h = (anyHandler h = (state h \<noteq> STATE_IGNORE))"

fun isNlTk :: "token \<Rightarrow> bool" where
  "isNlTk (NlTk d) = True"
| "isNlTk t = False"

text \<open>
  The tokens of a line that follow its first space: the rest of the whitespace
  token, when there is one, and the tokens after it.
\<close>

definition lineContent :: "string \<Rightarrow> token list \<Rightarrow> token list" where
  "lineContent rest toks = (if rest = [] then [] else [StringTk rest]) @ toks"

text \<open>
  A token that neither ends the line nor disqualifies it: no newline, no end of
  input, no table tag and no HTML block tag.
\<close>

definition keepsLine :: "util \<Rightarrow> token \<Rightarrow> bool" where
  "keepsLine u x = (\<not> isNlTk x \<and> x \<noteq> EOFTk \<and> \<not> isTableTag u x \<and> \<not> isHTMLBlockTag u x)"

section \<open>The wikitext serializer\<close>

subsection \<open>State, environment and handler descriptors\<close>

text \<open>What the serializer can throw, and what it writes with \<open>console.warn\<close>.\<close>

datatype error = TypeError | URIError

datatype warning =
    NoTsrOnStartToken
  | NoTsrOnEndToken
  | UnhandledTokenType
  | UnknownTagContent
  | UnhandledNodeType
  | Caught error

text \<open>A list context of \<open>listStack\<close>.\<close>

record listCtx =
  itemCount :: nat
  bullets :: string
  itemBullet :: string

text \<open>
  The serializer state: the fields of \<open>WSP.initialState\<close> and the fields that the
  code adds while it runs (absent fields read as false, null or undefined).
  \<open>stOnNewline\<close> is the field \<open>onNewline\<close>. \<open>textHandler\<close> is true while the text
  handler of the pre tag is installed. \<open>chunks\<close> is what \<open>chunkCB\<close> has received,
  in order; \<open>warnings\<close> the lines written with \<open>console.warn\<close>.
\<close>

record serializerState =
  listStack :: "listCtx list"
  stOnNewline :: bool
  onStartOfLine :: bool
  availableNewlineCount :: nat
  singleLineMode :: nat
  emitNewlineOnNextToken :: bool
  dropContent :: bool
  dropTail :: "string option"
  inNoWiki :: bool
  inHTMLPre :: bool
  inIndentPre :: bool
  textHandler :: bool
  prevToken :: "token option"
  curToken :: "token option"
  prevTagToken :: "token option"
  currTagToken :: "token option"
  chunks :: "string list"
  warnings :: "warning list"

text \<open>
  The environment \<open>state.env\<close> comes with the options of the serializer and is not
  part of the sources at hand; the model takes what the serializer uses of it as
  parameters. \<open>tokenizer\<close> is \<open>PegTokenizer.process\<close> with the chunks it emits put
  together; \<open>decodeURIComponent\<close> is \<open>None\<close> where the built-in throws a URIError;
  \<open>tokensToString\<close> takes a string or undefined.
\<close>

record env =
  tokenizer :: "string \<Rightarrow> token list"
  wgScriptPath :: string
  decodeURIComponent :: "string \<Rightarrow> string option"
  normalizeTitle :: "string \<Rightarrow> string"
  tokensToString :: "string option \<Rightarrow> string"

text \<open>
  Modelled from the spec: \<open>env.KVtoHash\<close>, which is not part of the sources at
  hand. Attributes are an ordered sequence of pairs whose keys are treated as
  last-wins when interpreted.
\<close>

definition KVtoHash :: "attribs \<Rightarrow> string \<Rightarrow> string option" where
  "KVtoHash kvs = map_of (rev kvs)"

text \<open>
  The emission descriptor of a handler (\<open>pairSepNLCount\<close> and \<open>singleLine\<close> are 0
  where the table has no entry). A handler function gets the descriptor, since
  several of them write \<open>this.startsNewline\<close> or \<open>this.newlineTransparent\<close> before
  \<open>_serializeToken\<close> reads the descriptor; each of these writes the field on
  every path, so the descriptor that a call leaves behind in the table is never
  read by a later call.
\<close>

record handler =
  startsNewline :: bool
  endsLine :: bool
  pairSepNLCount :: nat
  newlineTransparent :: bool
  singleLine :: int
  ignore :: bool

definition emptyHandler :: handler where
  "emptyHandler = \<lparr> startsNewline = False, endsLine = False, pairSepNLCount = 0,
                     newlineTransparent = False, singleLine = 0, ignore = False \<rparr>"

text \<open>
  A handler function returns the text or the exception it throws, the descriptor
  and the state as it is at the return or at the throw.
\<close>

type_synonym handle =
  "env \<Rightarrow> handler \<Rightarrow> serializerState \<Rightarrow> token \<Rightarrow> (error + string) \<times> handler \<times> serializerState"

subsection \<open>Strings\<close>

definition toLowerChar :: "char \<Rightarrow> char" where
  "toLowerChar c =
     (let n = (of_char c :: nat) in if 65 \<le> n \<and> n \<le> 90 then char_of (n + 32) else c)"

definition toLowerCase :: "string \<Rightarrow> string" where
  "toLowerCase s = map toLowerChar s"

text \<open>\<open>s.substr(start, len)\<close>\<close>

definition substr :: "string \<Rightarrow> int \<Rightarrow> int \<Rightarrow> string" where
  "substr s start len =
     (let size = int (length s);
          from = (if start < 0 then max (size + start) 0 else start)
      in if size \<le> from \<or> len \<le> 0 then [] else take (nat len) (drop (nat from) s))"

text \<open>\<open>s.replace(/_/g, ' ')\<close>\<close>

definition underscoresToSpaces :: "string \<Rightarrow> string" where
  "underscoresToSpaces s = map (\<lambda>c. if c = CHR ''_'' then CHR '' '' else c) s"

text \<open>\<open>s.replace(/\n/g, ' ')\<close>\<close>

definition newlinesToSpaces :: "string \<Rightarrow> string" where
  "newlinesToSpaces s = map (\<lambda>c. if c = CHR ''\<newline>'' then CHR '' '' else c) s"

text \<open>The text handler of the pre tag: \<open>t.replace(/\n/g, '\n ')\<close>\<close>

definition preTextHandler :: "string \<Rightarrow> string" where
  "preTextHandler t = concat (map (\<lambda>c. if c = CHR ''\<newline>'' then [c, CHR '' ''] else [c]) t)"

text \<open>\<open>prefixedText.replace(/(\r?\n)/g, '$1_')\<close>\<close>

definition guardNewlines :: "string \<Rightarrow> string" where
  "guardNewlines t = concat (map (\<lambda>c. if c = CHR ''\<newline>'' then [c, CHR ''_''] else [c]) t)"

text \<open>\<open>res.replace(/\n_/g, '\n')\<close>\<close>

fun stripGuards :: "string \<Rightarrow> string" where
  "stripGuards (c # d # cs) =
     (if c = CHR ''\<newline>'' \<and> d = CHR ''_'' then c # stripGuards cs
      else c # stripGuards (d # cs))"
| "stripGuards cs = cs"

text \<open>\<open>s.replace(/<(\/?nowiki)>/g, '&lt;$1&gt;')\<close>\<close>

function escapeNowiki :: "string \<Rightarrow> string" where
  "escapeNowiki s =
     (if s = [] then []
      else if take 8 s = ''<nowiki>'' then ''&lt;nowiki&gt;'' @ escapeNowiki (drop 8 s)
      else if take 9 s = ''</nowiki>'' then ''&lt;/nowiki&gt;'' @ escapeNowiki (drop 9 s)
      else hd s # escapeNowiki (tl s))"
  by pat_completeness auto
termination
  by (relation "measure length") (auto simp: neq_Nil_conv)

declare escapeNowiki.simps [simp del]

text \<open>
  The split of \<open>_serializeToken\<close>,
  \<open>/^((?:\r?\n)*)((?:.*?|[\r\n]+[^\r\n])*?)((?:\r?\n)*)$/\<close>: the leading newlines
  (each with an optional carriage return before it), the trailing newlines, and
  what is between. The middle part cannot end with a carriage return or a
  newline, so the match fails (\<open>None\<close>) when the run of such characters at the
  end is not a sequence of newlines with optional carriage returns. The line
  separators U+2028 and U+2029, which \<open>.\<close> does not match either, are no characters
  of the model: its strings hold the code units below 256.
\<close>

fun leadingNewlines :: "string \<Rightarrow> string \<times> string" where
  "leadingNewlines (c # d # cs) =
     (if c = CHR ''\<newline>'' then
        (let (l, r) = leadingNewlines (d # cs) in (c # l, r))
      else if c = CHR 0x0D \<and> d = CHR ''\<newline>'' then
        (let (l, r) = leadingNewlines cs in (c # d # l, r))
      else ([], c # d # cs))"
| "leadingNewlines [c] = (if c = CHR ''\<newline>'' then ([c], []) else ([], [c]))"
| "leadingNewlines [] = ([], [])"

definition isCRLF :: "char \<Rightarrow> bool" where
  "isCRLF c = (c = CHR 0x0D \<or> c = CHR ''\<newline>'')"

definition matchNewlines :: "string \<Rightarrow> (string \<times> string \<times> string) option" where
  "matchNewlines res =
     (let (leadingNLs, r) = leadingNewlines res;
          middle = rev (dropWhile isCRLF (rev r));
          trailingNLs = drop (length middle) r
      in if snd (leadingNewlines trailingNLs) = [] then Some (leadingNLs, middle, trailingNLs)
         else None)"

text \<open>\<open>nls.replace(/\r\n/g, '\n').length\<close> for a string of such newlines.\<close>

definition countNewlines :: "string \<Rightarrow> nat" where
  "countNewlines nls = length (filter (\<lambda>c. c = CHR ''\<newline>'') nls)"

text \<open>\<open>res.match(/^\s*$/)\<close>\<close>

definition isBlank :: "string \<Rightarrow> bool" where
  "isBlank res = list_all isSpace res"

subsection \<open>Tag handlers\<close>

fun tokenName :: "token \<Rightarrow> string option" where
  "tokenName (TagTk n a d) = Some n"
| "tokenName (EndTagTk n a d) = Some n"
| "tokenName (SelfclosingTagTk n a d) = Some n"
| "tokenName t = None"

fun tokenAttribs :: "token \<Rightarrow> attribs" where
  "tokenAttribs (TagTk n a d) = a"
| "tokenAttribs (EndTagTk n a d) = a"
| "tokenAttribs (SelfclosingTagTk n a d) = a"
| "tokenAttribs t = []"

text \<open>
  The handlers run on tag tokens only; \<open>tagName\<close> and \<open>tagData\<close> read the name and
  the data attributes of such a token.
\<close>

definition tagName :: "token \<Rightarrow> string" where
  "tagName t = (case tokenName t of Some n \<Rightarrow> n | None \<Rightarrow> [])"

definition tagData :: "token \<Rightarrow> dataAttribs" where
  "tagData t = (case dataAttribsOf t of Some d \<Rightarrow> d | None \<Rightarrow> noData)"

definition inStartOfLineContext :: "serializerState \<Rightarrow> bool" where
  "inStartOfLineContext st =
     (onStartOfLine st \<or> emitNewlineOnNextToken st \<or> 0 < availableNewlineCount st)"

definition inNewLineContext :: "serializerState \<Rightarrow> bool" where
  "inNewLineContext st =
     (stOnNewline st \<or> emitNewlineOnNextToken st \<or> 0 < availableNewlineCount st)"

text \<open>\<open>id(v)\<close>\<close>

definition idHandle :: "string \<Rightarrow> handle" where
  "idHandle v e h st token = (Inr v, h, st)"

text \<open>
  \<open>isListItem\<close> of \<open>_listHandler\<close>; reading \<open>constructor\<close> of an undefined
  \<open>prevToken\<close> throws.
\<close>

fun isListItem :: "token option \<Rightarrow> error + bool" where
  "isListItem None = Inl TypeError"
| "isListItem (Some (TagTk n a d)) = Inr (n = ''li'' \<or> n = ''dt'' \<or> n = ''dd'')"
| "isListItem (Some t) = Inr False"

definition listHandler :: "string \<Rightarrow> handle" where
  "listHandler bullet e h st0 token =
     (let st = (if singleLineMode st0 \<noteq> 0
                then st0\<lparr> singleLineMode := singleLineMode st0 - 1 \<rparr> else st0);
          stack = listStack st
      in if stack = [] then
           (Inr bullet, h\<lparr> startsNewline := True \<rparr>,
            st\<lparr> listStack := stack @ [\<lparr> itemCount = 0, bullets = bullet, itemBullet = [] \<rparr>] \<rparr>)
         else
           (let curList = last stack;
                bs = bullets curList @ itemBullet curList @ bullet;
                curList = curList\<lparr> itemCount := itemCount curList + 1 \<rparr>;
                stack = butlast stack @ [curList];
                st = st\<lparr> listStack := stack \<rparr>
            in if 1 < itemCount curList then
                 (case isListItem (prevToken st) of
                    Inl err \<Rightarrow> (Inl err, h, st)
                  | Inr True \<Rightarrow>
                      (Inr bullet, h\<lparr> startsNewline := False \<rparr>,
                       st\<lparr> listStack := stack @ [\<lparr> itemCount = 0, bullets = bs, itemBullet = [] \<rparr>] \<rparr>)
                  | Inr False \<Rightarrow>
                      (Inr bs, h\<lparr> startsNewline := True \<rparr>,
                       st\<lparr> listStack := stack @ [\<lparr> itemCount = 0, bullets = bs, itemBullet = [] \<rparr>] \<rparr>))
               else
                 (Inr bullet, h\<lparr> startsNewline := False \<rparr>,
                  st\<lparr> listStack := stack @ [\<lparr> itemCount = 0, bullets = bs, itemBullet = [] \<rparr>] \<rparr>)))"

definition listEndHandler :: handle where
  "listEndHandler e h st token = (Inr [], h, st\<lparr> listStack := butlast (listStack st) \<rparr>)"

text \<open>
  \<open>isRepeatToken\<close> and \<open>isMultiLineDtDdPair\<close> of \<open>_listItemHandler\<close>; each throws
  where it reads a property of an undefined token.
\<close>

definition isRepeatToken :: "serializerState \<Rightarrow> token \<Rightarrow> error + bool" where
  "isRepeatToken st token =
     (case prevToken st of
        None \<Rightarrow> Inl TypeError
      | Some (EndTagTk n a d) \<Rightarrow> Inr (n = tagName token)
      | Some t \<Rightarrow> Inr False)"

definition isMultiLineDtDdPair :: "serializerState \<Rightarrow> token \<Rightarrow> error + bool" where
  "isMultiLineDtDdPair st token =
     (if tagName token = ''dd'' \<and> stx (tagData token) \<noteq> Some ''row'' then
        (case prevTagToken st of
           None \<Rightarrow> Inl TypeError
         | Some (EndTagTk n a d) \<Rightarrow> Inr (n = ''dt'')
         | Some t \<Rightarrow> Inr False)
      else Inr False)"

definition listItemHandler :: "string \<Rightarrow> handle" where
  "listItemHandler bullet e h st0 token =
     (if listStack st0 = [] then (Inl TypeError, h, st0)
      else
        (let curList = (last (listStack st0))\<lparr> itemCount := itemCount (last (listStack st0)) + 1,
                                               itemBullet := bullet \<rparr>;
             st = st0\<lparr> listStack := butlast (listStack st0) @ [curList] \<rparr>;
             yes = (Inr (bullets curList @ bullet), h\<lparr> startsNewline := True \<rparr>, st);
             no = (Inr bullet, h\<lparr> startsNewline := False \<rparr>, st)
         in if 1 < itemCount curList then
              (if inStartOfLineContext st then yes
               else (case isRepeatToken st token of
                       Inl err \<Rightarrow> (Inl err, h, st)
                     | Inr True \<Rightarrow> yes
                     | Inr False \<Rightarrow>
                         (case isMultiLineDtDdPair st token of
                            Inl err \<Rightarrow> (Inl err, h, st)
                          | Inr True \<Rightarrow> yes
                          | Inr False \<Rightarrow> no)))
            else no))"

definition serializeTableTag :: "string \<Rightarrow> string \<Rightarrow> serializerState \<Rightarrow> token \<Rightarrow> string" where
  "serializeTableTag symbol optionEndSymbol st token =
     (if tokenAttribs token \<noteq> []
      then symbol @ '' '' @ serializeAttributes (tokenAttribs token) @ optionEndSymbol
      else symbol)"

definition tableTagHandle :: "string \<Rightarrow> string \<Rightarrow> handle" where
  "tableTagHandle symbol optionEndSymbol e h st token =
     (Inr (serializeTableTag symbol optionEndSymbol st token), h, st)"

text \<open>
  The names that every JavaScript object inherits from \<open>Object.prototype\<close>: a
  lookup \<open>table[name]\<close> in an object literal finds a value for them, too.
\<close>

definition inheritedProperty :: "string \<Rightarrow> bool" where
  "inheritedProperty n =
     (n \<in> set [''constructor'', ''toString'', ''toLocaleString'', ''valueOf'',
                ''hasOwnProperty'', ''isPrototypeOf'', ''propertyIsEnumerable'',
                ''__proto__'', ''__defineGetter__'', ''__defineSetter__'',
                ''__lookupGetter__'', ''__lookupSetter__''])"

text \<open>\<open>WSP._emptyTags[name]\<close>, read for truthiness.\<close>

definition emptyTags :: "string \<Rightarrow> bool" where
  "emptyTags n = (n = ''br'' \<or> n = ''meta'' \<or> inheritedProperty n)"

definition serializeHTMLTag :: "serializerState \<Rightarrow> token \<Rightarrow> string \<times> serializerState" where
  "serializeHTMLTag st0 token =
     (let close = (if emptyTags (tagName token) then ''/'' else []);
          st = (if tagName token = ''pre'' then st0\<lparr> inHTMLPre := True \<rparr> else st0)
      in if tokenAttribs token \<noteq> [] then
           (''<'' @ tagName token @ '' '' @ serializeAttributes (tokenAttribs token)
              @ close @ ''>'', st)
         else (''<'' @ tagName token @ close @ ''>'', st))"

definition serializeHTMLEndTag :: "serializerState \<Rightarrow> token \<Rightarrow> string \<times> serializerState" where
  "serializeHTMLEndTag st0 token =
     (let st = (if tagName token = ''pre'' then st0\<lparr> inHTMLPre := False \<rparr> else st0)
      in if \<not> emptyTags (tagName token) then (''</'' @ tagName token @ ''>'', st)
         else ([], st))"

definition htmlTagHandle :: handle where
  "htmlTagHandle e h st token =
     (let (res, st1) = serializeHTMLTag st token in (Inr res, h, st1))"

definition htmlEndTagHandle :: handle where
  "htmlEndTagHandle e h st token =
     (let (res, st1) = serializeHTMLEndTag st token in (Inr res, h, st1))"

text \<open>A string is truthy when it is defined and not empty.\<close>

fun truthy :: "string option \<Rightarrow> bool" where
  "truthy None = False"
| "truthy (Some s) = (s \<noteq> [])"

definition linkHandler :: handle where
  "linkHandler e h st token =
     (let attribDict = KVtoHash (tokenAttribs token);
          tokenData = tagData token
      in if truthy (attribDict ''rel'') \<and> attribDict ''href'' \<noteq> None then
           (let href = the (attribDict ''href'') in
            if attribDict ''rel'' = Some ''mw:wikiLink'' then
              (let base = wgScriptPath e;
                   prefix = take (length base) href;
                   target0 = (if prefix = base then drop (length base) href else href)
               in case decodeURIComponent e target0 of
                    None \<Rightarrow> (Inl URIError, h, st)
                  | Some target1 \<Rightarrow>
                      (let (target2, st1) =
                             (if truthy (tail tokenData) then
                                (if gc tokenData then sHref tokenData
                                 else Some (underscoresToSpaces target1),
                                 st\<lparr> dropTail := tail tokenData \<rparr>)
                              else if truthy (sHref tokenData) then
                                (if normalizeTitle e (tokensToString e (sHref tokenData)) = target1
                                 then sHref tokenData else Some target1, st)
                              else (Some (underscoresToSpaces target1), st));
                           target = tokensToString e target2
                       in if gc tokenData then
                            (Inr (''[['' @ target), h, st1\<lparr> dropContent := True \<rparr>)
                          else (Inr (''[['' @ target @ ''|''), h, st1)))
            else if attribDict ''rel'' = Some ''mw:extLink'' then
              (if stx tokenData = Some ''urllink'' then
                 (Inr href, h, st\<lparr> dropContent := True \<rparr>)
               else if gc tokenData then
                 (Inr (''['' @ href), h, st\<lparr> dropContent := True \<rparr>)
               else (Inr (''['' @ href @ '' ''), h, st))
            else htmlTagHandle e h st token)
         else htmlTagHandle e h st token)"

definition linkEndHandler :: handle where
  "linkEndHandler e h st token =
     (let attribDict = KVtoHash (tokenAttribs token)
      in if truthy (attribDict ''rel'') \<and> attribDict ''href'' \<noteq> None then
           (if attribDict ''rel'' = Some ''mw:wikiLink'' then
              (Inr ('']]'' @ (if truthy (tail (tagData token)) then the (tail (tagData token))
                             else [])),
               h, st\<lparr> dropContent := False, dropTail := None \<rparr>)
            else if attribDict ''rel'' = Some ''mw:extLink'' then
              (Inr (if stx (tagData token) = Some ''urllink'' then [] else '']''),
               h, st\<lparr> dropContent := False \<rparr>)
            else htmlEndTagHandle e h st token)
         else htmlEndTagHandle e h st token)"

definition bodyHandle :: handle where
  "bodyHandle e h st token = (Inr [], h, st\<lparr> emitNewlineOnNextToken := False \<rparr>)"

definition tableEndHandle :: handle where
  "tableEndHandle e h st token =
     (Inr ''|}'',
      h\<lparr> startsNewline := (case prevTagToken st of
                               None \<Rightarrow> False
                             | Some t \<Rightarrow> tokenName t = Some ''tr'') \<rparr>,
      st)"

definition thHandle :: handle where
  "thHandle e h st token =
     (if stx_v (tagData token) = Some ''row'' then
        (Inr (serializeTableTag ''!!'' '' |'' st token), h\<lparr> startsNewline := False \<rparr>, st)
      else
        (Inr (serializeTableTag ''!'' '' |'' st token), h\<lparr> startsNewline := True \<rparr>, st))"

definition trHandle :: handle where
  "trHandle e h st token =
     (case prevToken st of
        None \<Rightarrow> (Inl TypeError, h, st)
      | Some (TagTk n a d) \<Rightarrow>
          if n = ''tbody'' then (Inr [], h, st)
          else (Inr (serializeTableTag ''|-'' [] st token), h, st)
      | Some t \<Rightarrow> (Inr (serializeTableTag ''|-'' [] st token), h, st))"

definition tdHandle :: handle where
  "tdHandle e h st token =
     (if stx_v (tagData token) = Some ''row'' then
        (Inr (serializeTableTag ''||'' '' |'' st token), h\<lparr> startsNewline := False \<rparr>, st)
      else
        (Inr (serializeTableTag ''|'' '' |'' st token), h\<lparr> startsNewline := True \<rparr>, st))"

definition preStartHandle :: handle where
  "preStartHandle e h st token =
     (Inr '' '', h, st\<lparr> inIndentPre := True, textHandler := True \<rparr>)"

definition preEndHandle :: handle where
  "preEndHandle e h st token =
     (Inr [], h, st\<lparr> inIndentPre := False, textHandler := False \<rparr>)"

text \<open>
  The meta handler. An absent \<open>content\<close> attribute prints as \<open>undefined\<close>.
\<close>

definition metaHandle :: handle where
  "metaHandle e h st token =
     (let argDict = KVtoHash (tokenAttribs token)
      in if argDict ''typeof'' = Some ''mw:tag'' then
           (let st1 = (if argDict ''content'' = Some ''nowiki'' then st\<lparr> inNoWiki := True \<rparr>
                       else if argDict ''content'' = Some ''/nowiki''
                       then st\<lparr> inNoWiki := False \<rparr>
                       else st\<lparr> warnings := warnings st @ [UnknownTagContent] \<rparr>)
            in (Inr (''<'' @ (case argDict ''content'' of None \<Rightarrow> ''undefined'' | Some c \<Rightarrow> c)
                       @ ''>''),
                h\<lparr> newlineTransparent := True \<rparr>, st1))
         else if argDict ''typeof'' = Some ''mw:noinclude'' then
           (Inr (if src (tagData token) = Some ''<noinclude>'' then ''<noinclude>''
                 else ''</noinclude>''),
            h\<lparr> newlineTransparent := True \<rparr>, st)
         else
           (let (res, st1) = serializeHTMLTag st token
            in (Inr res, h\<lparr> newlineTransparent := False \<rparr>, st1)))"

text \<open>
  The span handlers. For a nowiki wrapper they set \<open>inNoWiki\<close> on the handler
  object, not on the state; nothing reads that field.
\<close>

definition spanHandle :: handle where
  "spanHandle e h st token =
     (let argDict = KVtoHash (tokenAttribs token)
      in if argDict ''data-mw-gc'' = Some ''both'' \<and> truthy (src (tagData token)) then
           (Inr (the (src (tagData token))), h, st\<lparr> dropContent := True \<rparr>)
         else if argDict ''data-mw-gc'' = Some ''wrapper'' then (Inr ''<nowiki>'', h, st)
         else htmlTagHandle e h st token)"

definition spanEndHandle :: handle where
  "spanEndHandle e h st token =
     (let argDict = KVtoHash (tokenAttribs token)
      in if argDict ''data-mw-gc'' = Some ''both'' \<and> truthy (src (tagData token)) then
           (Inr [], h, st\<lparr> dropContent := False \<rparr>)
         else if argDict ''data-mw-gc'' = Some ''wrapper'' then (Inr ''</nowiki>'', h, st)
         else htmlEndTagHandle e h st token)"

text \<open>
  An entry of \<open>WSP.tagHandlers\<close>: the descriptor and the handler function for
  the start and for the end of the tag, each of which may be missing.
\<close>

type_synonym tagHandler =
  "(handler \<times> handle option) option \<times> (handler \<times> handle option) option"

definition defaultHTMLTagHandler :: tagHandler where
  "defaultHTMLTagHandler =
     (Some (emptyHandler, Some htmlTagHandle), Some (emptyHandler, Some htmlEndTagHandle))"

definition listTagHandler :: "string \<Rightarrow> bool \<Rightarrow> tagHandler" where
  "listTagHandler bullet transparent =
     (Some (emptyHandler\<lparr> startsNewline := True, pairSepNLCount := 2,
                           newlineTransparent := transparent \<rparr>,
            Some (listHandler bullet)),
      Some (emptyHandler\<lparr> endsLine := True \<rparr>, Some listEndHandler))"

definition headingTagHandler :: "string \<Rightarrow> tagHandler" where
  "headingTagHandler v =
     (Some (emptyHandler\<lparr> startsNewline := True \<rparr>, Some (idHandle v)),
      Some (emptyHandler\<lparr> endsLine := True \<rparr>, Some (idHandle v)))"

text \<open>
  \<open>WSP.tagHandlers[name]\<close>. An inherited property name finds an object that has
  neither \<open>start\<close> nor \<open>end\<close> nor \<open>make\<close>.
\<close>

definition tagHandlers :: "string \<Rightarrow> tagHandler option" where
  "tagHandlers n =
     (if n = ''body'' then Some (Some (emptyHandler, Some bodyHandle), None)
      else if n = ''ul'' then Some (listTagHandler ''*'' True)
      else if n = ''ol'' then Some (listTagHandler ''#'' True)
      else if n = ''dl'' then Some (listTagHandler [] False)
      else if n = ''li'' then
        Some (Some (emptyHandler\<lparr> singleLine := 1, pairSepNLCount := 1 \<rparr>,
                    Some (listItemHandler [])),
              Some (emptyHandler\<lparr> singleLine := - 1 \<rparr>, None))
      else if n = ''dt'' then
        Some (Some (emptyHandler\<lparr> singleLine := 1, pairSepNLCount := 1,
                                   newlineTransparent := True \<rparr>,
                    Some (listItemHandler '';'')),
              Some (emptyHandler\<lparr> singleLine := - 1 \<rparr>, None))
      else if n = ''dd'' then
        Some (Some (emptyHandler\<lparr> singleLine := 1, pairSepNLCount := 1,
                                   newlineTransparent := True \<rparr>,
                    Some (listItemHandler '':'')),
              Some (emptyHandler\<lparr> endsLine := True, singleLine := - 1 \<rparr>, None))
      else if n = ''table'' then
        Some (Some (emptyHandler, Some (tableTagHandle ''{|'' [])),
              Some (emptyHandler, Some tableEndHandle))
      else if n = ''tbody'' then
        Some (Some (emptyHandler\<lparr> ignore := True \<rparr>, None),
              Some (emptyHandler\<lparr> ignore := True \<rparr>, None))
      else if n = ''th'' then Some (Some (emptyHandler, Some thHandle), None)
      else if n = ''tr'' then
        Some (Some (emptyHandler\<lparr> startsNewline := True \<rparr>, Some trHandle), None)
      else if n = ''td'' then Some (Some (emptyHandler, Some tdHandle), None)
      else if n = ''caption'' then
        Some (Some (emptyHandler\<lparr> startsNewline := True \<rparr>,
                    Some (tableTagHandle ''|+'' '' |'')), None)
      else if n = ''p'' then
        Some (Some (emptyHandler\<lparr> startsNewline := True, pairSepNLCount := 2 \<rparr>, None),
              Some (emptyHandler\<lparr> endsLine := True \<rparr>, None))
      else if n = ''pre'' then
        Some (Some (emptyHandler\<lparr> startsNewline := True \<rparr>, Some preStartHandle),
              Some (emptyHandler\<lparr> endsLine := True \<rparr>, Some preEndHandle))
      else if n = ''meta'' then Some (Some (emptyHandler, Some metaHandle), None)
      else if n = ''span'' then
        Some (Some (emptyHandler, Some spanHandle), Some (emptyHandler, Some spanEndHandle))
      else if n = ''hr'' then
        Some (Some (emptyHandler\<lparr> startsNewline := True, endsLine := True \<rparr>,
                    Some (idHandle ''----'')), None)
      else if n = ''h1'' then Some (headingTagHandler ''='')
      else if n = ''h2'' then Some (headingTagHandler ''=='')
      else if n = ''h3'' then Some (headingTagHandler ''==='')
      else if n = ''h4'' then Some (headingTagHandler ''===='')
      else if n = ''h5'' then Some (headingTagHandler ''====='')
      else if n = ''h6'' then Some (headingTagHandler ''======'')
      else if n = ''br'' then
        Some (Some (emptyHandler\<lparr> startsNewline := True, endsLine := True \<rparr>,
                    Some (idHandle [])), None)
      else if n = ''b'' then
        Some (Some (emptyHandler, Some (idHandle [CHR 0x27, CHR 0x27, CHR 0x27])),
              Some (emptyHandler, Some (idHandle [CHR 0x27, CHR 0x27, CHR 0x27])))
      else if n = ''i'' then
        Some (Some (emptyHandler, Some (idHandle [CHR 0x27, CHR 0x27])),
              Some (emptyHandler, Some (idHandle [CHR 0x27, CHR 0x27])))
      else if n = ''a'' then
        Some (Some (emptyHandler, Some linkHandler), Some (emptyHandler, Some linkEndHandler))
      else if inheritedProperty n then Some (None, None)
      else None)"

text \<open>
  \<open>_getTokenHandler\<close>. Only the entry of \<open>p\<close> has a \<open>make\<close>: in single-line mode
  it gives the default HTML handler.
\<close>

fun isStartTag :: "token \<Rightarrow> bool" where
  "isStartTag (TagTk n a d) = True"
| "isStartTag (SelfclosingTagTk n a d) = True"
| "isStartTag t = False"

definition getTokenHandler :: "serializerState \<Rightarrow> token \<Rightarrow> handler \<times> handle option" where
  "getTokenHandler st token =
     (let th = (if stx (tagData token) = Some ''html'' then defaultHTMLTagHandler
                else (case tagHandlers (tagName token) of
                        None \<Rightarrow> defaultHTMLTagHandler
                      | Some th \<Rightarrow>
                          if tagName token = ''p'' \<and> singleLineMode st \<noteq> 0
                          then defaultHTMLTagHandler else th))
      in case (if isStartTag token then fst th else snd th) of
           None \<Rightarrow> (emptyHandler, None)
         | Some x \<Rightarrow> x)"

subsection \<open>Escaping of text\<close>

text \<open>
  The local variables of \<open>escapeWikiText\<close> that its loop and \<open>wrapNonTextTokens\<close>
  share, and the warnings written so far.
\<close>

record escaper =
  outTexts :: "string list"
  nonTextTokenAccum :: "token list"
  cursor :: int
  escWarnings :: "warning list"

text \<open>
  \<open>wrapNonTextTokens\<close>. The first component tells whether the function has thrown
  (\<open>'No tsr on end token'\<close>), which it does after it has pushed the escaped source.
\<close>

definition wrapNonTextTokens :: "bool \<Rightarrow> string \<Rightarrow> escaper \<Rightarrow> bool \<times> escaper" where
  "wrapNonTextTokens inNewlineContext text x =
     (if nonTextTokenAccum x \<noteq> [] then
        (let (rangeStart, x1) =
               (case tsr (tagData (hd (nonTextTokenAccum x))) of
                  None \<Rightarrow>
                    (cursor x, x\<lparr> escWarnings := escWarnings x @ [NoTsrOnStartToken] \<rparr>)
                | Some (s, e) \<Rightarrow>
                    (let rs = (if \<not> inNewlineContext then s - 1 else s)
                     in (rs, x\<lparr> cursor := rs \<rparr>)));
             (missingRangeEnd, rangeEnd) =
               (case tsr (tagData (last (nonTextTokenAccum x))) of
                  None \<Rightarrow> (True, int (length text))
                | Some (s, e) \<Rightarrow> (False, if \<not> inNewlineContext then e - 1 else e));
             escapedSource = escapeNowiki (substr text rangeStart (rangeEnd - rangeStart));
             x2 = x1\<lparr> outTexts := outTexts x1 @ [''<nowiki>'', escapedSource, ''</nowiki>''],
                      cursor := cursor x1 + 17 + int (length escapedSource) \<rparr>
         in if missingRangeEnd then (True, x2)
            else (False, x2\<lparr> nonTextTokenAccum := [] \<rparr>))
      else (False, x))"

text \<open>\<open>tk.constructor === EndTagTk && tk.name === name\<close>\<close>

fun isEndTagNamed :: "string \<Rightarrow> token \<Rightarrow> bool" where
  "isEndTagNamed name (EndTagTk n a d) = (n = name)"
| "isEndTagNamed name t = False"

text \<open>
  The test of the loop for a tag of generated content: the first attribute is
  \<open>data-mw-gc="both"\<close> and the tag carries its source.
\<close>

definition isGeneratedContent :: "attribs \<Rightarrow> dataAttribs \<Rightarrow> bool" where
  "isGeneratedContent a d =
     ((case a of [] \<Rightarrow> False | (k, v) # kvs \<Rightarrow> k = ''data-mw-gc'' \<and> v = ''both'')
      \<and> truthy (src d))"

text \<open>
  The loop over the tokens, inside \<open>try\<close>. When \<open>wrapNonTextTokens\<close> throws, the
  \<open>catch\<close> writes the exception as a warning and the loop is over. For generated
  content the inner loop skips to the end tag of the same name, and the outer
  loop goes on behind it.
\<close>

function escapeLoop :: "bool \<Rightarrow> string \<Rightarrow> token list \<Rightarrow> escaper \<Rightarrow> escaper" where
  "escapeLoop inNL text [] x = x"
| "escapeLoop inNL text (token # ts) x =
     (let caught = (\<lambda>x1. x1\<lparr> escWarnings := escWarnings x1 @ [NoTsrOnEndToken] \<rparr>);
          accum = escapeLoop inNL text ts
                    (x\<lparr> nonTextTokenAccum := nonTextTokenAccum x @ [token] \<rparr>)
      in case token of
           StringTk s \<Rightarrow>
             (case wrapNonTextTokens inNL text x of
                (True, x1) \<Rightarrow> caught x1
              | (False, x1) \<Rightarrow>
                  escapeLoop inNL text ts
                    (x1\<lparr> outTexts := outTexts x1 @ [s],
                         cursor := cursor x1 + int (length s) \<rparr>))
         | NlTk d \<Rightarrow>
             (case wrapNonTextTokens inNL text x of
                (True, x1) \<Rightarrow> caught x1
              | (False, x1) \<Rightarrow>
                  escapeLoop inNL text ts
                    (x1\<lparr> outTexts := outTexts x1 @ [[CHR ''\<newline>'']],
                         cursor := cursor x1 + 1 \<rparr>))
         | EOFTk \<Rightarrow>
             (case wrapNonTextTokens inNL text x of
                (True, x1) \<Rightarrow> caught x1
              | (False, x1) \<Rightarrow> escapeLoop inNL text ts x1)
         | TagTk n a d \<Rightarrow>
             if isGeneratedContent a d then
               (case wrapNonTextTokens inNL text x of
                  (True, x1) \<Rightarrow> caught x1
                | (False, x1) \<Rightarrow>
                    escapeLoop inNL text (drop 1 (dropWhile (\<lambda>tk. \<not> isEndTagNamed n tk) ts))
                      (x1\<lparr> outTexts := outTexts x1 @ [the (src d)] \<rparr>))
             else accum
         | EndTagTk n a d \<Rightarrow> accum
         | SelfclosingTagTk n a d \<Rightarrow> accum
         | CommentTk v d \<Rightarrow> accum)"
  by pat_completeness auto
termination
proof (relation "measure (\<lambda>(inNL, text, ts, x). length ts)")
  show "wf (measure (\<lambda>(inNL, text, ts, x). length ts))" by simp
next
  fix inNL :: bool and tx :: string and token :: token and ts :: "token list"
    and x xc :: escaper and n :: string
  have "length (dropWhile (\<lambda>tk. \<not> isEndTagNamed n tk) ts) \<le> length ts"
    by (rule length_dropWhile_le)
  then show "((inNL, tx, drop 1 (dropWhile (\<lambda>tk. \<not> isEndTagNamed n tk) ts), xc), inNL, tx,
               token # ts, x) \<in> measure (\<lambda>(inNL, text, ts, x). length ts)"
    by simp
qed simp_all

text \<open>
  \<open>WSP.escapeWikiText\<close>. The stripping of the guard before the \<open>try\<close> throws when
  the first token is not a string. The result is the escaped text, or the
  exception, and the warnings written.
\<close>

definition escapeWikiText ::
    "env \<Rightarrow> serializerState \<Rightarrow> string \<Rightarrow> (error + string) \<times> warning list" where
  "escapeWikiText e st text =
     (let inNewlineContext = inNewLineContext st;
          prefixedText = (if \<not> inNewlineContext then CHR ''_'' # text else text);
          prefixedText = (if inIndentPre st then guardNewlines prefixedText else prefixedText);
          toks = tokenizer e prefixedText;
          stripped =
            (if \<not> inNewlineContext then
               (case toks of
                  StringTk s # ts \<Rightarrow>
                    if s = ''_'' then Inr ts else Inr (StringTk (drop 1 s) # ts)
                | _ \<Rightarrow> Inl TypeError)
             else Inr toks)
      in case stripped of
           Inl err \<Rightarrow> (Inl err, [])
         | Inr toks \<Rightarrow>
             (let x = escapeLoop inNewlineContext text toks
                        \<lparr> outTexts = [], nonTextTokenAccum = [], cursor = 0,
                          escWarnings = [] \<rparr>;
                  res = concat (outTexts x)
              in (Inr (if inIndentPre st then stripGuards res else res), escWarnings x)))"

text \<open>
  Discarding the escape markers, as the specification words the un-escaping:
  the text without the markers \<open><nowiki>\<close> and \<open></nowiki>\<close>.
\<close>

function discardNowikiMarkers :: "string \<Rightarrow> string" where
  "discardNowikiMarkers s =
     (if s = [] then []
      else if take 8 s = ''<nowiki>'' then discardNowikiMarkers (drop 8 s)
      else if take 9 s = ''</nowiki>'' then discardNowikiMarkers (drop 9 s)
      else hd s # discardNowikiMarkers (tl s))"
  by pat_completeness auto
termination
  by (relation "measure length") (auto simp: neq_Nil_conv)

declare discardNowikiMarkers.simps [simp del]

subsection \<open>Serialization of a token\<close>

text \<open>
  The first part of \<open>_serializeToken\<close>, the \<open>switch\<close> on the constructor of the
  token: it gives the text \<open>res\<close> (or the exception thrown), the descriptor
  \<open>handler\<close> and the state.
\<close>

definition runHandle ::
    "env \<Rightarrow> handler \<times> handle option \<Rightarrow> serializerState \<Rightarrow> token
       \<Rightarrow> (error + string) \<times> handler \<times> serializerState" where
  "runHandle e hh st token =
     (case snd hh of
        None \<Rightarrow> (Inr [], fst hh, st)
      | Some f \<Rightarrow> f e (fst hh) st token)"

definition startTagText ::
    "env \<Rightarrow> serializerState \<Rightarrow> token \<Rightarrow> (error + string) \<times> handler \<times> serializerState" where
  "startTagText e st token =
     (let hh = getTokenHandler st token
      in if \<not> ignore (fst hh) then
           runHandle e hh (st\<lparr> prevTagToken := currTagToken st,
                               currTagToken := Some token \<rparr>) token
         else (Inr [], fst hh, st))"

definition endTagText ::
    "env \<Rightarrow> serializerState \<Rightarrow> token \<Rightarrow> (error + string) \<times> handler \<times> serializerState" where
  "endTagText e st token =
     (let hh = getTokenHandler st token
      in if \<not> ignore (fst hh) then
           (let st1 = st\<lparr> prevTagToken := currTagToken st, currTagToken := Some token \<rparr>;
                st2 = (if singleLine (fst hh) < 0 \<and> singleLineMode st1 \<noteq> 0
                       then st1\<lparr> singleLineMode := singleLineMode st1 - 1 \<rparr>
                       else st1)
            in runHandle e hh st2 token)
         else (Inr [], fst hh, st))"

definition stringText ::
    "env \<Rightarrow> serializerState \<Rightarrow> string \<Rightarrow> (error + string) \<times> handler \<times> serializerState" where
  "stringText e st s =
     (if inNoWiki st \<or> inHTMLPre st then
        (Inr (if textHandler st then preTextHandler s else s), emptyHandler, st)
      else
        (case escapeWikiText e st s of
           (Inl err, ws) \<Rightarrow>
             (Inl err, emptyHandler, st\<lparr> warnings := warnings st @ ws \<rparr>)
         | (Inr res, ws) \<Rightarrow>
             (Inr (if textHandler st then preTextHandler res else res), emptyHandler,
              st\<lparr> warnings := warnings st @ ws \<rparr>)))"

fun tokenText ::
    "env \<Rightarrow> serializerState \<Rightarrow> token \<Rightarrow> (error + string) \<times> handler \<times> serializerState" where
  "tokenText e st (TagTk n a d) = startTagText e st (TagTk n a d)"
| "tokenText e st (SelfclosingTagTk n a d) = startTagText e st (SelfclosingTagTk n a d)"
| "tokenText e st (EndTagTk n a d) = endTagText e st (EndTagTk n a d)"
| "tokenText e st (StringTk s) = stringText e st s"
| "tokenText e st (CommentTk v d) =
     (Inr (''<!--'' @ v @ ''-->''), emptyHandler\<lparr> newlineTransparent := True \<rparr>, st)"
| "tokenText e st (NlTk d) =
     (Inr (if textHandler st then preTextHandler [CHR ''\<newline>'']
           else [CHR ''\<newline>'']),
      emptyHandler, st)"
| "tokenText e st EOFTk =
     (let res = replicate (availableNewlineCount st) CHR ''\<newline>''
      in (Inr res, emptyHandler, st\<lparr> chunks := chunks st @ [res] \<rparr>))"

text \<open>
  The stripping of leading and trailing newlines from \<open>res\<close>: the result is the
  text without them, \<open>newNLCount\<close> and the state; \<open>None\<close> when the regular
  expression does not match, where reading \<open>match[1]\<close> throws.
\<close>

definition stripNewlines ::
    "string \<Rightarrow> serializerState \<Rightarrow> (string \<times> nat \<times> serializerState) option" where
  "stripNewlines res st =
     (if res \<noteq> [] then
        (case matchNewlines res of
           None \<Rightarrow> None
         | Some (leadingNLs, middle, trailingNLs) \<Rightarrow>
             if leadingNLs = res then
               Some ([], 0, st\<lparr> availableNewlineCount :=
                                   availableNewlineCount st + countNewlines leadingNLs \<rparr>)
             else
               Some (middle, countNewlines trailingNLs,
                     if leadingNLs \<noteq> [] then
                       st\<lparr> availableNewlineCount :=
                             availableNewlineCount st + countNewlines leadingNLs \<rparr>
                     else st))
      else Some (res, 0, st))"

text \<open>
  The check for a pair of identical tag tokens (\<open></p><p>\<close>, \<open></ul><ul>\<close>) that
  have to be separated by extra newlines.
\<close>

definition pairSeparator :: "handler \<Rightarrow> token \<Rightarrow> serializerState \<Rightarrow> serializerState" where
  "pairSeparator h token st =
     (if pairSepNLCount h \<noteq> 0
         \<and> (case prevTagToken st of
               Some (EndTagTk n a d) \<Rightarrow> Some n = tokenName token
             | _ \<Rightarrow> False)
      then (if availableNewlineCount st < pairSepNLCount h
            then st\<lparr> availableNewlineCount := pairSepNLCount h \<rparr> else st)
      else st)"

text \<open>\<open>res.substr(- tail.length) === tail\<close>, and the text without that tail.\<close>

definition stripDropTail :: "string option \<Rightarrow> string \<Rightarrow> string" where
  "stripDropTail dt res =
     (case dt of
        None \<Rightarrow> res
      | Some t \<Rightarrow>
          if t \<noteq> [] \<and> drop (length res - length t) res = t
          then take (length res - length t) res else res)"

text \<open>The branch \<open>res !== ''\<close>: the newlines owed are flushed and the text is emitted.\<close>

definition emitText :: "handler \<Rightarrow> string \<Rightarrow> nat \<Rightarrow> serializerState \<Rightarrow> serializerState" where
  "emitText h res newNLCount st0 =
     (let st1 = (if singleLineMode st0 = 0
                    \<and> ((\<not> isBlank res \<and> emitNewlineOnNextToken st0)
                        \<or> (startsNewline h \<and> \<not> onStartOfLine st0))
                 then st0\<lparr> availableNewlineCount :=
                              (if availableNewlineCount st0 = 0 then 1
                               else availableNewlineCount st0),
                            emitNewlineOnNextToken := False \<rparr>
                 else st0);
          st2 = (if availableNewlineCount st1 \<noteq> 0
                 then st1\<lparr> stOnNewline := True, onStartOfLine := True \<rparr> else st1);
          out = replicate (availableNewlineCount st2) CHR ''\<newline>'';
          st3 = st2\<lparr> availableNewlineCount := newNLCount \<rparr>;
          res1 = stripDropTail (dropTail st3) res;
          res2 = (if singleLineMode st3 \<noteq> 0 then newlinesToSpaces res1 else res1);
          st4 = (if res2 \<noteq> [] then
                   st3\<lparr> stOnNewline := False,
                         onStartOfLine := (if \<not> newlineTransparent h then False
                                           else onStartOfLine st3) \<rparr>
                 else st3)
      in st4\<lparr> chunks := chunks st4 @ [out @ res2] \<rparr>)"

text \<open>
  The second part of \<open>_serializeToken\<close>, which runs unless content is being
  dropped: newline stripping, the pair separator, emission, and the \<open>endsLine\<close>
  and \<open>singleLine\<close> updates.
\<close>

definition emitRes ::
    "handler \<Rightarrow> token \<Rightarrow> string \<Rightarrow> serializerState \<Rightarrow> error option \<times> serializerState" where
  "emitRes h token res0 st0 =
     (case stripNewlines res0 st0 of
        None \<Rightarrow> (Some TypeError, st0)
      | Some (res, newNLCount, st1) \<Rightarrow>
          (let st2 = pairSeparator h token st1;
               st3 = (if res \<noteq> [] then emitText h res newNLCount st2
                      else
                        (let st = st2\<lparr> availableNewlineCount :=
                                          availableNewlineCount st2 + newNLCount \<rparr>
                         in if startsNewline h \<and> \<not> onStartOfLine st
                            then st\<lparr> emitNewlineOnNextToken := True \<rparr> else st));
               st4 = (if endsLine h then st3\<lparr> emitNewlineOnNextToken := True \<rparr> else st3);
               st5 = (if 0 < singleLine h
                      then st4\<lparr> singleLineMode := singleLineMode st4 + nat (singleLine h) \<rparr>
                      else st4)
           in (None, st5)))"

text \<open>
  \<open>WSP._serializeToken\<close>: the state after the token, and the exception if one
  was thrown (the state is then the state at the throw).
\<close>

definition serializeToken ::
    "env \<Rightarrow> serializerState \<Rightarrow> token \<Rightarrow> error option \<times> serializerState" where
  "serializeToken e st0 token =
     (let dropContent0 = dropContent st0;
          st = st0\<lparr> prevToken := curToken st0, curToken := Some token \<rparr>
      in case tokenText e st token of
           (Inl err, h, st1) \<Rightarrow> (Some err, st1)
         | (Inr res, h, st1) \<Rightarrow>
             if \<not> dropContent0 \<or> \<not> dropContent st1 then emitRes h token res st1
             else (None, st1))"

subsection \<open>Serialization of a token chunk and of a DOM\<close>

text \<open>
  A DOM node: an element with its node name, its attributes, the data that
  \<open>JSON.parse\<close> reads from the attribute \<open>data-mw\<close> (the empty record when there is
  no such attribute; an attribute on which \<open>JSON.parse\<close> throws is outside the
  model) and its children; a text node; a comment node; any other node.
\<close>

datatype node =
    Element string attribs dataAttribs "node list"
  | TextNode string
  | CommentNode string
  | OtherNode

definition getDOMAttribs :: "attribs \<Rightarrow> attribs" where
  "getDOMAttribs as = filter (\<lambda>(k, v). k \<noteq> ''data-mw'') as"

text \<open>The loop \<open>for (i = 0; i < l; i++) this._serializeToken(state, tokens[i])\<close>.\<close>

fun serializeTokenList ::
    "env \<Rightarrow> serializerState \<Rightarrow> token list \<Rightarrow> error option \<times> serializerState" where
  "serializeTokenList e st [] = (None, st)"
| "serializeTokenList e st (t # ts) =
     (case serializeToken e st t of
        (Some err, st1) \<Rightarrow> (Some err, st1)
      | (None, st1) \<Rightarrow> serializeTokenList e st1 ts)"

text \<open>\<open>WSP._serializeDOM\<close>, with the loop over the children.\<close>

fun serializeNode ::
    "env \<Rightarrow> node \<Rightarrow> serializerState \<Rightarrow> error option \<times> serializerState"
  and serializeChildren ::
    "env \<Rightarrow> node list \<Rightarrow> serializerState \<Rightarrow> error option \<times> serializerState" where
  "serializeNode e (Element nodeName as rt children) st =
     (let name = toLowerCase nodeName; tkAttribs = getDOMAttribs as
      in case serializeToken e st (TagTk name tkAttribs rt) of
           (Some err, st1) \<Rightarrow> (Some err, st1)
         | (None, st1) \<Rightarrow>
             (case serializeChildren e children st1 of
                (Some err, st2) \<Rightarrow> (Some err, st2)
              | (None, st2) \<Rightarrow> serializeToken e st2 (EndTagTk name tkAttribs rt)))"
| "serializeNode e (TextNode s) st = serializeToken e st (StringTk s)"
| "serializeNode e (CommentNode s) st =
     (let savedEmitNewlineOnNextToken = emitNewlineOnNextToken st
      in case serializeToken e (st\<lparr> emitNewlineOnNextToken := False \<rparr>) (CommentTk s noData) of
           (Some err, st1) \<Rightarrow> (Some err, st1)
         | (None, st1) \<Rightarrow>
             (None, st1\<lparr> emitNewlineOnNextToken := savedEmitNewlineOnNextToken \<rparr>))"
| "serializeNode e OtherNode st =
     (None, st\<lparr> warnings := warnings st @ [UnhandledNodeType] \<rparr>)"
| "serializeChildren e [] st = (None, st)"
| "serializeChildren e (c # cs) st =
     (case serializeNode e c st of
        (Some err, st1) \<Rightarrow> (Some err, st1)
      | (None, st1) \<Rightarrow> serializeChildren e cs st1)"

text \<open>
  \<open>WSP.initialState\<close>. Its \<open>listStack\<close> is one array object; \<open>$.extend({},
  this.initialState, this.options)\<close> copies the properties of \<open>initialState\<close> into
  the new state, and for \<open>listStack\<close> that is the reference to this one array.
  So every state works on the same array, and the model passes its contents into
  a top-level call and returns them from it.
\<close>

definition initialState :: "listCtx list \<Rightarrow> serializerState" where
  "initialState sharedListStack =
     \<lparr> listStack = sharedListStack, stOnNewline = True, onStartOfLine = True,
       availableNewlineCount = 0, singleLineMode = 0,
       emitNewlineOnNextToken = False, dropContent = False, dropTail = None,
       inNoWiki = False, inHTMLPre = False, inIndentPre = False, textHandler = False,
       prevToken = None, curToken = None, prevTagToken = None, currTagToken = None,
       chunks = [], warnings = [] \<rparr>"

text \<open>
  \<open>WSP.serializeTokens\<close> without a callback: the chunks (or the exception, which
  the function does not catch), and the contents of the shared \<open>listStack\<close> array
  after the call.
\<close>

definition serializeTokens ::
    "env \<Rightarrow> listCtx list \<Rightarrow> token list \<Rightarrow> (error + string list) \<times> listCtx list" where
  "serializeTokens e sharedListStack toks =
     (case serializeTokenList e (initialState sharedListStack) toks of
        (Some err, st) \<Rightarrow> (Inl err, listStack st)
      | (None, st) \<Rightarrow> (Inr (chunks st), listStack st))"

text \<open>
  \<open>WSP.serializeDOM\<close> without a callback: the joined chunks, or \<open>None\<close>
  (undefined) when an exception was caught, and the contents of the shared
  \<open>listStack\<close> array after the call.
\<close>

definition serializeDOM ::
    "env \<Rightarrow> listCtx list \<Rightarrow> node \<Rightarrow> string option \<times> listCtx list" where
  "serializeDOM e sharedListStack n =
     (case serializeNode e n (initialState sharedListStack) of
        (Some err, st) \<Rightarrow> (None, listStack st)
      | (None, st) \<Rightarrow>
          (case serializeToken e st EOFTk of
             (Some err, st1) \<Rightarrow> (None, listStack st1)
           | (None, st1) \<Rightarrow> (Some (concat (chunks st1)), listStack st1)))"

subsection \<open>A plain environment\<close>

text \<open>
  An environment for concrete runs: its tokenizer finds no markup (every text is
  one string token, followed by the end of input), the script path is \<open>/wiki/\<close>,
  and decoding and title normalization change nothing.
\<close>

definition plainEnv :: env where
  "plainEnv =
     \<lparr> tokenizer = (\<lambda>s. [StringTk s, EOFTk]), wgScriptPath = ''/wiki/'',
       decodeURIComponent = (\<lambda>s. Some s), normalizeTitle = (\<lambda>s. s),
       tokensToString = (\<lambda>s. case s of None \<Rightarrow> [] | Some x \<Rightarrow> x) \<rparr>"

text \<open>
  An environment for one concrete run of the escaper: like the plain
  environment, but its tokenizer reads the comment in the guarded form
  \<open>_a\n_<!--c-->\<close> of the text \<open>a\n<!--c-->\<close> (the text of an indent-pre, outside
  a newline context). The comment token carries its source range in the string
  that the tokenizer was given, the offsets 4 to 12.
\<close>

definition commentEnv :: env where
  "commentEnv =
     plainEnv\<lparr> tokenizer :=
       (\<lambda>s. if s = ''_a\<newline>_<!--c-->''
             then [StringTk ''_a'', NlTk noData, StringTk ''_'',
                   CommentTk ''c'' (noData\<lparr> tsr := Some (4, 12) \<rparr>), EOFTk]
             else [StringTk s, EOFTk]) \<rparr>"

text \<open>
  An environment for a run of the escaper on two template calls: like the plain
  environment, but its tokenizer reads the text \<open>ab{{c}}d{{e}}\<close> as the text \<open>ab\<close>,
  a template token with the source range 2 to 7, the text \<open>d\<close> and a template
  token that carries no source range.
\<close>

definition templateEnv :: env where
  "templateEnv =
     plainEnv\<lparr> tokenizer :=
       (\<lambda>s. if s = ''ab{{c}}d{{e}}''
             then [StringTk ''ab'',
                   SelfclosingTagTk ''template'' [] (noData\<lparr> tsr := Some (2, 7) \<rparr>),
                   StringTk ''d'', SelfclosingTagTk ''template'' [] noData, EOFTk]
             else [StringTk s, EOFTk]) \<rparr>"
subsection \<open>Contents of a list item\<close>

text \<open>
  The names with an entry for lists and for list items in \<open>WSP.tagHandlers\<close>. A
  tag in HTML syntax (\<open>dataAttribs.stx === 'html'\<close>) gets the default HTML handler
  in \<open>_getTokenHandler\<close>, whatever its name; the entry of the table is used for a
  tag in wikitext syntax.
\<close>

definition isListTagName :: "string \<Rightarrow> bool" where
  "isListTagName n = (n = ''ul'' \<or> n = ''ol'' \<or> n = ''dl'')"

definition isListItemName :: "string \<Rightarrow> bool" where
  "isListItemName n = (n = ''li'' \<or> n = ''dt'' \<or> n = ''dd'')"

definition wikitextSyntax :: "dataAttribs \<Rightarrow> bool" where
  "wikitextSyntax d = (stx d \<noteq> Some ''html'')"

text \<open>
  Nodes among which no list and no list item in wikitext syntax opens, at any
  depth.
\<close>

fun holdsNoList :: "node \<Rightarrow> bool"
  and holdsNoLists :: "node list \<Rightarrow> bool" where
  "holdsNoList (Element nodeName as rt children) =
     (\<not> (wikitextSyntax rt
          \<and> (isListTagName (toLowerCase nodeName) \<or> isListItemName (toLowerCase nodeName)))
      \<and> holdsNoLists children)"
| "holdsNoList (TextNode s) = True"
| "holdsNoList (CommentNode s) = True"
| "holdsNoList OtherNode = True"
| "holdsNoLists [] = True"
| "holdsNoLists (c # cs) = (holdsNoList c \<and> holdsNoLists cs)"

text \<open>A chunk in which newlines stand in front only.\<close>

definition newlinesInFront :: "string \<Rightarrow> bool" where
  "newlinesInFront c = (CHR ''\<newline>'' \<notin> set (dropWhile (\<lambda>x. x = CHR ''\<newline>'') c))"

text \<open>
  Nodes that give \<open>_serializeToken\<close> no newline to buffer: a text that neither
  starts nor ends with a line break, a comment, and an element that single-line
  mode writes as an HTML tag (one in HTML syntax, one without entry in the table,
  \<open>p\<close>) or as quotes (\<open>b\<close>, \<open>i\<close>), with such nodes as children.
\<close>

definition noLineBreakAtEnds :: "string \<Rightarrow> bool" where
  "noLineBreakAtEnds s = (s = [] \<or> (\<not> isCRLF (hd s) \<and> \<not> isCRLF (last s)))"

definition writtenAsTag :: "string \<Rightarrow> dataAttribs \<Rightarrow> bool" where
  "writtenAsTag n d =
     (stx d = Some ''html'' \<or> (case tagHandlers n of None \<Rightarrow> True | Some th \<Rightarrow> False)
      \<or> n = ''p'' \<or> n = ''b'' \<or> n = ''i'')"

fun buffersNothing :: "node \<Rightarrow> bool"
  and buffersNothingAll :: "node list \<Rightarrow> bool" where
  "buffersNothing (Element nodeName as rt children) =
     (writtenAsTag (toLowerCase nodeName) rt \<and> buffersNothingAll children)"
| "buffersNothing (TextNode s) = noLineBreakAtEnds s"
| "buffersNothing (CommentNode s) = True"
| "buffersNothing OtherNode = True"
| "buffersNothingAll [] = True"
| "buffersNothingAll (c # cs) = (buffersNothing c \<and> buffersNothingAll cs)"

text \<open>
  A run for the contents of a list item: the state after the start tag of a list,
  the state after the start tag of its first item, and contents with a newline
  inside a text, inside the text of an element and inside a comment.
\<close>

definition listState :: serializerState where
  "listState = snd (serializeToken plainEnv (initialState []) (TagTk ''ul'' [] noData))"

definition itemState :: serializerState where
  "itemState = snd (serializeToken plainEnv listState (TagTk ''li'' [] noData))"

definition itemContents :: "node list" where
  "itemContents =
     [TextNode ''a\<newline>b'', Element ''I'' [] noData [TextNode ''c\<newline>d''],
      CommentNode ''x\<newline>y'']"

section \<open>Properties of attribute serialization\<close>

lemma replaceQuote_firstQuoteEscaped: "replaceQuote v = firstQuoteEscaped v"
proof (induction v)
  case Nil
  show ?case by (simp add: firstQuoteEscaped_def)
next
  case (Cons c cs)
  show ?case
  proof (cases "c = CHR 0x22")
    case True
    then show ?thesis by (simp add: firstQuoteEscaped_def)
  next
    case False
    show ?thesis
    proof (cases "dropWhile (\<lambda>c. c \<noteq> CHR 0x22) cs")
      case Nil
      with False Cons.IH show ?thesis
        by (simp add: firstQuoteEscaped_def del: dropWhile_eq_Nil_conv)
    next
      case (Cons q after)
      with False Cons.IH show ?thesis
        by (simp add: firstQuoteEscaped_def)
    qed
  qed
qed

lemma firstQuoteEscaped_at_first_quote:
  assumes "CHR 0x22 \<notin> set a"
  shows "firstQuoteEscaped (a @ CHR 0x22 # b) = a @ ''&quot;'' @ b"
proof -
  have "dropWhile (\<lambda>c. c \<noteq> CHR 0x22) (a @ CHR 0x22 # b) = CHR 0x22 # b"
    using assms by (induction a) auto
  moreover have "takeWhile (\<lambda>c. c \<noteq> CHR 0x22) (a @ CHR 0x22 # b) = a"
    using assms by (induction a) auto
  ultimately show ?thesis by (simp add: firstQuoteEscaped_def)
qed

lemma serializeAttributes_loop_acc:
  "serializeAttributes_loop kvs out = out @ List.map_filter renderedAttribute kvs"
proof (induction kvs arbitrary: out)
  case Nil
  show ?case by (simp add: List.map_filter_simps)
next
  case (Cons kv kvs)
  obtain k v where kv: "kv = (k, v)" by (cases kv)
  show ?case
    unfolding kv
    by (simp add: Cons.IH List.map_filter_simps replaceQuote_firstQuoteEscaped)
qed

text \<open>
  C10. For every attribute list, \<open>_serializeAttributes\<close> is the join, with single
  spaces, of the renderings of its pairs: \<open>key="value"\<close> with the first double quote
  of the value (and only that one) replaced by \<open>&quot;\<close> when key and value are
  non-empty, the bare key when the value is empty, the bare value when the key is
  empty, and nothing for a pair that is empty on both sides.
\<close>

theorem serializeAttributes_renders:
  "serializeAttributes attribs = join '' '' (List.map_filter renderedAttribute attribs)"
  by (simp add: serializeAttributes_def serializeAttributes_loop_acc)

section \<open>Properties of the pre handler\<close>

subsection \<open>The helpers\<close>

lemma popLastNL_fst:
  "fst (popLastNL h ret) = ret @ (case lastNlTk h of None \<Rightarrow> [] | Some nl \<Rightarrow> [nl])"
  by (simp add: popLastNL_def split: option.split)

lemma popLastNL_snd: "snd (popLastNL h ret) = h\<lparr> lastNlTk := None \<rparr>"
  by (cases "lastNlTk h") (simp_all add: popLastNL_def)

lemma popLastNL_eq:
  "popLastNL h ret =
     (ret @ (case lastNlTk h of None \<Rightarrow> [] | Some nl \<Rightarrow> [nl]), h\<lparr> lastNlTk := None \<rparr>)"
  by (simp add: prod_eq_iff popLastNL_fst popLastNL_snd)

lemma getResultAndReset_eq:
  "getResultAndReset h token =
     (tokens h @ (case lastNlTk h of None \<Rightarrow> [] | Some nl \<Rightarrow> [nl])
        @ (case preWSToken h of None \<Rightarrow> [] | Some ws \<Rightarrow> [ws])
        @ solTransparentTokens h @ [token],
      h\<lparr> lastNlTk := None, preWSToken := None, solTransparentTokens := [],
         tokens := [], multiLinePreWSToken := None \<rparr>)"
  by (cases "preWSToken h"; cases "solTransparentTokens h = []")
     (simp_all add: getResultAndReset_def popLastNL_eq)

lemma processPre_eq:
  "processPre h token =
     ((if tokens h \<noteq> [] then
         TagTk ''pre'' []
           (if preTSR h \<noteq> - 1 then noData\<lparr> tsr := Some (preTSR h, preTSR h + 1) \<rparr>
            else noData)
         # tokens h @ [EndTagTk ''pre'' [] noData]
       else [])
        @ (case multiLinePreWSToken h of None \<Rightarrow> [] | Some ws \<Rightarrow> [ws])
        @ (case lastNlTk h of None \<Rightarrow> [] | Some nl \<Rightarrow> [nl])
        @ solTransparentTokens h @ [token],
      h\<lparr> multiLinePreWSToken := None, lastNlTk := None, solTransparentTokens := [],
         tokens := [] \<rparr>)"
  by (cases "multiLinePreWSToken h")
     (simp_all add: processPre_def popLastNL_eq Let_def)

lemma trackInPre_fields [simp]:
  "state (trackInPre h t) = state h"
  "lastNlTk (trackInPre h t) = lastNlTk h"
  "preTSR (trackInPre h t) = preTSR h"
  "tokens (trackInPre h t) = tokens h"
  "preWSToken (trackInPre h t) = preWSToken h"
  "multiLinePreWSToken (trackInPre h t) = multiLinePreWSToken h"
  "solTransparentTokens (trackInPre h t) = solTransparentTokens h"
  "anyHandler (trackInPre h t) = anyHandler h"
  by (simp_all add: trackInPre_def)

lemma trackInPre_other [simp]:
  "trackInPre h (StringTk s) = h"
  "trackInPre h EOFTk = h"
  by (simp_all add: trackInPre_def)

lemma onAny_PRE_COLLECT:
  assumes "state h = STATE_PRE_COLLECT" "t \<noteq> EOFTk"
  shows "onAny u h t =
           (if isHTMLBlockTag u t then
              (Some (fst (processPre (trackInPre h t) t)),
               moveToIgnoreState (snd (processPre (trackInPre h t) t)))
            else
              (None, (trackInPre h t)\<lparr> preWSToken := None, multiLinePreWSToken := None,
                                        tokens := tokens h @ [t] \<rparr>))"
  using assms by (subst onAny.simps) (simp add: case_prod_beta Let_def)

lemma onAny_PRE:
  assumes "state h = STATE_PRE" "t \<noteq> EOFTk"
  shows "onAny u h t =
           (if isSolTransparent t then
              (None, (trackInPre h t)\<lparr> solTransparentTokens := solTransparentTokens h @ [t] \<rparr>)
            else if isTableTag u t \<or> isHTMLBlockTag u t then
              (Some (fst (getResultAndReset (trackInPre h t) t)),
               moveToIgnoreState (snd (getResultAndReset (trackInPre h t) t)))
            else
              (None, (trackInPre h t)\<lparr> tokens := tokens h @ solTransparentTokens h @ [t],
                                        solTransparentTokens := [],
                                        preWSToken := None, multiLinePreWSToken := None,
                                        state := STATE_PRE_COLLECT \<rparr>))"
  using assms by (subst onAny.simps) (simp add: case_prod_beta Let_def)

lemma onAny_string_PRE_COLLECT:
  assumes "state h = STATE_PRE_COLLECT"
  shows "onAny u h (StringTk s) =
           (None, h\<lparr> preWSToken := None, multiLinePreWSToken := None,
                      tokens := tokens h @ [StringTk s] \<rparr>)"
  using assms by (simp add: onAny_PRE_COLLECT)

lemma onAny_string_PRE:
  assumes "state h = STATE_PRE"
  shows "onAny u h (StringTk s) =
           (if isSolTransparent (StringTk s) then
              (None, h\<lparr> solTransparentTokens := solTransparentTokens h @ [StringTk s] \<rparr>)
            else if isTableTag u (StringTk s) then
              (Some (fst (getResultAndReset h (StringTk s))),
               moveToIgnoreState (snd (getResultAndReset h (StringTk s))))
            else
              (None, h\<lparr> tokens := tokens h @ solTransparentTokens h @ [StringTk s],
                         solTransparentTokens := [],
                         preWSToken := None, multiLinePreWSToken := None,
                         state := STATE_PRE_COLLECT \<rparr>))"
  using assms by (simp add: onAny_PRE)

lemma feed_not_newline:
  assumes "\<not> isNlTk x"
  shows "feed u h x =
           (if anyHandler h then
              (case onAny u h x of (None, h1) \<Rightarrow> ([], h1) | (Some ret, h1) \<Rightarrow> (ret, h1))
            else if x = EOFTk then onEnd h x
            else ([x], h))"
  using assms by (cases x) simp_all

subsection \<open>Leading whitespace in MULTILINE_PRE\<close>

text \<open>
  C5. In state MULTILINE_PRE a string token that starts with a space emits
  nothing, releases the held newline token into the collected tokens (followed
  by the buffered sol-transparent tokens and, when the token is longer than the
  one space, the rest of the string as a token of its own) and leaves the
  machine in PRE_COLLECT.
\<close>

theorem onAny_multiline_pre_whitespace:
  assumes "state h = STATE_MULTILINE_PRE"
  shows "fst (onAny u h (StringTk (CHR '' '' # rest))) = None
       \<and> state (snd (onAny u h (StringTk (CHR '' '' # rest)))) = STATE_PRE_COLLECT
       \<and> lastNlTk (snd (onAny u h (StringTk (CHR '' '' # rest)))) = None
       \<and> solTransparentTokens (snd (onAny u h (StringTk (CHR '' '' # rest)))) = []
       \<and> tokens (snd (onAny u h (StringTk (CHR '' '' # rest)))) =
           tokens h @ (case lastNlTk h of None \<Rightarrow> [] | Some nl \<Rightarrow> [nl])
             @ solTransparentTokens h @ (if rest = [] then [] else [StringTk rest])"
  using assms
  by (subst (1 2 3 4 5) onAny.simps)
     (simp add: popLastNL_eq onAny_string_PRE_COLLECT)

theorem onAny_multiline_pre_whitespace_witness:
  "fst (onAny \<lparr> isTableTag = (\<lambda>t. False), isBlockTag = (\<lambda>n. False) \<rparr>
          (newPreHandler\<lparr> state := STATE_MULTILINE_PRE, tokens := [StringTk ''a''],
                           lastNlTk := Some (NlTk noData) \<rparr>)
          (StringTk ''  b'')) = None
   \<and> tokens (snd (onAny \<lparr> isTableTag = (\<lambda>t. False), isBlockTag = (\<lambda>n. False) \<rparr>
          (newPreHandler\<lparr> state := STATE_MULTILINE_PRE, tokens := [StringTk ''a''],
                           lastNlTk := Some (NlTk noData) \<rparr>)
          (StringTk ''  b''))) = [StringTk ''a'', NlTk noData, StringTk '' b'']"
  using onAny_multiline_pre_whitespace
          [of "newPreHandler\<lparr> state := STATE_MULTILINE_PRE, tokens := [StringTk ''a''],
                                 lastNlTk := Some (NlTk noData) \<rparr>"
              "\<lparr> isTableTag = (\<lambda>t. False), isBlockTag = (\<lambda>n. False) \<rparr>" "'' b''"]
  by (simp add: newPreHandler_def init_def)

subsection \<open>The source range of the synthesized pre tag\<close>

lemma onAny_keeps_preTSR:
  assumes "state (snd (onAny u h t)) \<noteq> STATE_SOL"
  shows "preTSR (snd (onAny u h t)) = preTSR h"
proof -
  have rec: "preTSR (snd (onAny u h' (StringTk s))) = preTSR h'"
    if "state h' = STATE_PRE \<or> state h' = STATE_PRE_COLLECT" for h' s
    using that
    by (auto simp: onAny_string_PRE onAny_string_PRE_COLLECT getResultAndReset_eq
        moveToIgnoreState_def)
  show ?thesis
    using assms
    by (subst onAny.simps, subst (asm) onAny.simps)
       (auto simp: rec Let_def getResultAndReset_eq processPre_eq moveToIgnoreState_def
          init_def popLastNL_eq
          split: fsm.splits if_splits)
qed

lemma onNewline_keeps_preTSR:
  assumes "state (snd (onNewline h t)) \<noteq> STATE_SOL"
  shows "preTSR (snd (onNewline h t)) = preTSR h"
  using assms
  by (cases "state h")
     (simp_all add: onNewline_def getResultAndReset_eq processPre_eq init_def)

lemma feed_keeps_preTSR:
  assumes "state (snd (feed u h t)) \<noteq> STATE_SOL"
  shows "preTSR (snd (feed u h t)) = preTSR h"
proof (cases t)
  case (NlTk d)
  with assms onNewline_keeps_preTSR [of h t] show ?thesis
    by (cases "onNewline h (NlTk d)"; cases "fst (onNewline h (NlTk d))") auto
next
  case EOFTk
  with assms onAny_keeps_preTSR [of u h t] show ?thesis
    by (cases "onAny u h EOFTk"; cases "fst (onAny u h EOFTk)")
       (auto simp: onEnd_def init_def Let_def split: if_splits)
qed (use assms onAny_keeps_preTSR [of u h t] in
      \<open>cases "onAny u h t"; cases "fst (onAny u h t)"; auto split: if_splits\<close>)+



subsection \<open>Runs of the machine\<close>

lemma run_append:
  "run u h (xs @ ys) =
     (fst (run u h xs) @ fst (run u (snd (run u h xs)) ys),
      snd (run u (snd (run u h xs)) ys))"
  by (induction xs arbitrary: h) (simp_all add: case_prod_beta Let_def)

lemma onAny_EOFTk:
  assumes "state h \<noteq> STATE_IGNORE"
  shows "onAny u h EOFTk =
           (let r = (case state h of
                       STATE_SOL \<Rightarrow> getResultAndReset h EOFTk
                     | STATE_PRE \<Rightarrow> getResultAndReset h EOFTk
                     | STATE_PRE_COLLECT \<Rightarrow> processPre h EOFTk
                     | STATE_MULTILINE_PRE \<Rightarrow> processPre h EOFTk
                     | STATE_IGNORE \<Rightarrow> ([], h))
            in (Some (fst r), init ((snd r)\<lparr> inPre := False \<rparr>) False))"
  using assms by (subst onAny.simps) (simp add: case_prod_beta Let_def)

lemma onAny_registered:
  assumes "registered h"
  shows "registered (snd (onAny u h t))"
proof -
  have rec: "registered (snd (onAny u h' (StringTk s)))"
    if "state h' = STATE_PRE \<or> state h' = STATE_PRE_COLLECT" "anyHandler h'" for h' s
    using that
    by (elim disjE)
       (simp_all add: onAny_string_PRE onAny_string_PRE_COLLECT getResultAndReset_eq
          moveToIgnoreState_def registered_def)
  show ?thesis
  proof (cases "state h = STATE_IGNORE")
    case True
    with assms show ?thesis
      by (subst onAny.simps) (simp add: registered_def)
  next
    case False
    with assms have reg: "anyHandler h" by (simp add: registered_def)
    show ?thesis
    proof (cases "t = EOFTk")
      case True
      with False reg show ?thesis
        by (cases "state h")
           (simp_all add: onAny_EOFTk getResultAndReset_eq processPre_eq init_def
              registered_def)
    next
      case notEOF: False
      from False notEOF reg show ?thesis
        by (cases "state h"; subst onAny.simps)
           (simp_all add: rec [unfolded registered_def] Let_def getResultAndReset_eq
              processPre_eq moveToIgnoreState_def popLastNL_eq registered_def)
    qed
  qed
qed

lemma feed_registered:
  assumes "registered h"
  shows "registered (snd (feed u h t))"
proof (cases t)
  case (NlTk d)
  with assms show ?thesis
    by (cases "state h")
       (simp_all add: onNewline_def getResultAndReset_eq processPre_eq init_def
          registered_def)
next
  case EOFTk
  with assms onAny_registered [of h u t] show ?thesis
    by (cases "onAny u h EOFTk"; cases "fst (onAny u h EOFTk)")
       (auto simp: onEnd_def init_def Let_def registered_def split: if_splits)
qed (use assms onAny_registered [of h u t] in
      \<open>cases "onAny u h t"; cases "fst (onAny u h t)"; auto split: if_splits\<close>)+

lemma run_registered:
  assumes "registered h"
  shows "registered (snd (run u h ts))"
  using assms
  by (induction ts arbitrary: h) (simp_all add: case_prod_beta Let_def feed_registered)

lemma feed_EOFTk_resets:
  assumes "registered h"
  shows "snd (feed u h EOFTk) = newPreHandler"
proof (cases "state h = STATE_IGNORE")
  case True
  with assms show ?thesis
    by (cases h) (simp add: registered_def onEnd_def init_def newPreHandler_def)
next
  case False
  with assms have "anyHandler h" by (simp add: registered_def)
  with False show ?thesis
    by (cases h; cases "state h")
       (simp_all add: onAny_EOFTk getResultAndReset_eq processPre_eq init_def
          newPreHandler_def Let_def)
qed

lemma run_EOFTk_resets:
  assumes "registered h"
  shows "snd (run u h (ts @ [EOFTk])) = newPreHandler"
  using feed_EOFTk_resets [OF run_registered [OF assms, of u ts], of u]
  by (simp add: run_append case_prod_beta)

lemma registered_newPreHandler: "registered newPreHandler"
  by (simp add: registered_def newPreHandler_def init_def)

text \<open>
  C9. The machine is deterministic, also across runs on one handler: the end
  of input re-initializes the handler to the state that the constructor leaves
  (including \<open>inPre\<close> and the registration of \<open>onAny\<close>), so a run over a token
  sequence on a handler that has processed an earlier stream up to its end of
  input produces the same output as a run over that sequence on a new handler.
\<close>

theorem pre_handler_deterministic:
  "fst (run u (snd (run u newPreHandler (earlier @ [EOFTk]))) ts) =
   fst (run u newPreHandler ts)"
  by (simp add: run_EOFTk_resets [OF registered_newPreHandler])

subsection \<open>A line that starts with a single space\<close>

lemma feed_collect:
  assumes "state h = STATE_PRE_COLLECT" "anyHandler h"
    and "\<not> isNlTk x" "x \<noteq> EOFTk" "\<not> isHTMLBlockTag u x"
  shows "fst (feed u h x) = []
       \<and> state (snd (feed u h x)) = STATE_PRE_COLLECT
       \<and> anyHandler (snd (feed u h x))
       \<and> tokens (snd (feed u h x)) = tokens h @ [x]
       \<and> lastNlTk (snd (feed u h x)) = lastNlTk h
       \<and> solTransparentTokens (snd (feed u h x)) = solTransparentTokens h
       \<and> preTSR (snd (feed u h x)) = preTSR h
       \<and> multiLinePreWSToken (snd (feed u h x)) = None"
  using assms by (simp add: feed_not_newline onAny_PRE_COLLECT)

lemma run_collect:
  assumes "state h = STATE_PRE_COLLECT" "anyHandler h" "multiLinePreWSToken h = None"
    and "\<forall>x\<in>set ts. \<not> isNlTk x \<and> x \<noteq> EOFTk \<and> \<not> isHTMLBlockTag u x"
  shows "fst (run u h ts) = []
       \<and> state (snd (run u h ts)) = STATE_PRE_COLLECT
       \<and> anyHandler (snd (run u h ts))
       \<and> tokens (snd (run u h ts)) = tokens h @ ts
       \<and> lastNlTk (snd (run u h ts)) = lastNlTk h
       \<and> solTransparentTokens (snd (run u h ts)) = solTransparentTokens h
       \<and> preTSR (snd (run u h ts)) = preTSR h
       \<and> multiLinePreWSToken (snd (run u h ts)) = None"
  using assms
proof (induction ts arbitrary: h)
  case Nil
  then show ?case by simp
next
  case (Cons x ts)
  from Cons.prems have x: "\<not> isNlTk x" "x \<noteq> EOFTk" "\<not> isHTMLBlockTag u x"
    by simp_all
  note step = feed_collect [OF Cons.prems(1,2) x]
  from Cons.prems(4) have rest: "\<forall>x\<in>set ts. \<not> isNlTk x \<and> x \<noteq> EOFTk \<and> \<not> isHTMLBlockTag u x"
    by simp
  from step have "state (snd (feed u h x)) = STATE_PRE_COLLECT"
    "anyHandler (snd (feed u h x))" "multiLinePreWSToken (snd (feed u h x)) = None"
    by simp_all
  from Cons.IH [OF this rest] step show ?case
    by (simp add: case_prod_beta)
qed

lemma feed_pre_transparent:
  assumes "state h = STATE_PRE" "anyHandler h"
    and "\<not> isNlTk x" "x \<noteq> EOFTk" "isSolTransparent x"
  shows "fst (feed u h x) = []
       \<and> state (snd (feed u h x)) = STATE_PRE
       \<and> anyHandler (snd (feed u h x))
       \<and> tokens (snd (feed u h x)) = tokens h
       \<and> lastNlTk (snd (feed u h x)) = lastNlTk h
       \<and> solTransparentTokens (snd (feed u h x)) = solTransparentTokens h @ [x]
       \<and> preTSR (snd (feed u h x)) = preTSR h"
  using assms by (simp add: feed_not_newline onAny_PRE)

lemma feed_pre_content:
  assumes "state h = STATE_PRE" "anyHandler h"
    and "\<not> isNlTk x" "x \<noteq> EOFTk" "\<not> isSolTransparent x"
    and "\<not> isTableTag u x" "\<not> isHTMLBlockTag u x"
  shows "fst (feed u h x) = []
       \<and> state (snd (feed u h x)) = STATE_PRE_COLLECT
       \<and> anyHandler (snd (feed u h x))
       \<and> tokens (snd (feed u h x)) = tokens h @ solTransparentTokens h @ [x]
       \<and> lastNlTk (snd (feed u h x)) = lastNlTk h
       \<and> solTransparentTokens (snd (feed u h x)) = []
       \<and> preTSR (snd (feed u h x)) = preTSR h
       \<and> multiLinePreWSToken (snd (feed u h x)) = None"
  using assms by (simp add: feed_not_newline onAny_PRE)

lemma run_pre:
  assumes "state h = STATE_PRE" "anyHandler h"
    and "\<forall>x\<in>set ts. keepsLine u x"
    and "\<exists>x\<in>set ts. \<not> isSolTransparent x"
  shows "fst (run u h ts) = []
       \<and> state (snd (run u h ts)) = STATE_PRE_COLLECT
       \<and> anyHandler (snd (run u h ts))
       \<and> tokens (snd (run u h ts)) = tokens h @ solTransparentTokens h @ ts
       \<and> lastNlTk (snd (run u h ts)) = lastNlTk h
       \<and> solTransparentTokens (snd (run u h ts)) = []
       \<and> preTSR (snd (run u h ts)) = preTSR h
       \<and> multiLinePreWSToken (snd (run u h ts)) = None"
  using assms
proof (induction ts arbitrary: h)
  case Nil
  then show ?case by simp
next
  case (Cons x ts)
  from Cons.prems(3) have x: "\<not> isNlTk x" "x \<noteq> EOFTk" "\<not> isTableTag u x"
    "\<not> isHTMLBlockTag u x" and rest: "\<forall>x\<in>set ts. keepsLine u x"
    by (simp_all add: keepsLine_def)
  show ?case
  proof (cases "isSolTransparent x")
    case True
    note step = feed_pre_transparent [OF Cons.prems(1,2) x(1,2) True, of u]
    from step have s1: "state (snd (feed u h x)) = STATE_PRE" "anyHandler (snd (feed u h x))"
      by simp_all
    from Cons.prems(4) True have ex: "\<exists>x\<in>set ts. \<not> isSolTransparent x"
      by auto
    from Cons.IH [OF s1 rest ex] step show ?thesis
      by (simp add: case_prod_beta)
  next
    case False
    note step = feed_pre_content [OF Cons.prems(1,2) x(1,2) False x(3,4)]
    from rest have rest': "\<forall>x\<in>set ts. \<not> isNlTk x \<and> x \<noteq> EOFTk \<and> \<not> isHTMLBlockTag u x"
      by (simp add: keepsLine_def)
    from step have "state (snd (feed u h x)) = STATE_PRE_COLLECT"
      "anyHandler (snd (feed u h x))" "multiLinePreWSToken (snd (feed u h x)) = None"
      by simp_all
    from run_collect [OF this rest'] step show ?thesis
      by (simp add: case_prod_beta)
  qed
qed

lemma feed_snd_onAny:
  assumes "\<not> isNlTk x" "anyHandler h"
  shows "snd (feed u h x) = snd (onAny u h x)"
  using assms
  by (cases "onAny u h x"; cases "fst (onAny u h x)") (auto simp: feed_not_newline)

lemma onAny_whitespace_SOL:
  assumes "state h = STATE_SOL" "\<not> inPre h"
  shows "onAny u h (StringTk (CHR '' '' # rest)) =
           (Some (tokens h),
            if rest \<noteq> []
            then snd (onAny u (h\<lparr> tokens := [], preWSToken := Some (StringTk '' ''),
                                  state := STATE_PRE \<rparr>) (StringTk rest))
            else h\<lparr> tokens := [], preWSToken := Some (StringTk '' ''),
                     state := STATE_PRE \<rparr>)"
  using assms by (subst onAny.simps) (simp add: Let_def)

lemma feed_whitespace_SOL:
  assumes "state h = STATE_SOL" "anyHandler h" "\<not> inPre h"
  shows "feed u h (StringTk (CHR '' '' # rest)) =
           (tokens h,
            snd (run u (h\<lparr> tokens := [], preWSToken := Some (StringTk '' ''),
                           state := STATE_PRE \<rparr>)
                   (if rest = [] then [] else [StringTk rest])))"
  using assms
  by (simp add: onAny_whitespace_SOL case_prod_beta feed_snd_onAny del: feed.simps)
     (simp add: feed_not_newline onAny_whitespace_SOL)

lemma onAny_closes_MULTILINE_PRE:
  assumes "state h = STATE_MULTILINE_PRE" "t \<noteq> EOFTk"
    and "\<not> startsWithSpace t" "\<not> isSolTransparent t"
  shows "onAny u h t =
           (Some (fst (processPre (trackInPre h t) t)),
            moveToIgnoreState (snd (processPre (trackInPre h t) t)))"
  using assms by (subst onAny.simps) (simp add: Let_def case_prod_beta)

lemma feed_closes_MULTILINE_PRE:
  assumes "state h = STATE_MULTILINE_PRE" "anyHandler h"
    and "\<not> startsWithSpace t" "\<not> isSolTransparent t"
  shows "fst (feed u h t) = fst (processPre h t)"
proof (cases "t = EOFTk")
  case True
  with assms show ?thesis
    by (simp add: onAny_EOFTk case_prod_beta Let_def)
next
  case False
  show ?thesis
  proof (cases "isNlTk t")
    case True
    then obtain d where "t = NlTk d" by (cases t) auto
    with assms show ?thesis
      by (simp add: onNewline_def case_prod_beta)
  next
    case nl: False
    have "fst (processPre (trackInPre h t) t) = fst (processPre h t)"
      by (simp add: processPre_eq)
    with assms False nl show ?thesis
      by (simp add: feed_not_newline onAny_closes_MULTILINE_PRE)
  qed
qed

text \<open>
  C2, as the machine behaves. After a newline, a text token that starts with a
  space and tokens that keep the line, of which at least one is not
  sol-transparent, the closing newline emits nothing: all that the machine has
  emitted is the first newline, and it holds the line and the closing newline
  in MULTILINE_PRE. The first space is not among the tokens held; the rest of
  the text token, when there is one, has gone through the machine as a token of
  its own and is the first token held. The block is emitted by the token after
  the closing newline, when that is neither sol-transparent nor a text that
  starts with a space (a newline and the end of input are such tokens): the
  output is then the first newline, one pre open tag (with the source range from
  the first newline), the line, one pre close tag, the closing newline and that
  token.
\<close>

theorem single_space_line_wrapped:
  assumes "\<forall>x\<in>set (lineContent rest toks). keepsLine u x"
    and "\<exists>x\<in>set (lineContent rest toks). \<not> isSolTransparent x"
  shows "fst (run u newPreHandler
                ([NlTk d0, StringTk (CHR '' '' # rest)] @ toks @ [NlTk d1])) = [NlTk d0]
       \<and> state (snd (run u newPreHandler
                ([NlTk d0, StringTk (CHR '' '' # rest)] @ toks @ [NlTk d1]))) =
           STATE_MULTILINE_PRE
       \<and> tokens (snd (run u newPreHandler
                ([NlTk d0, StringTk (CHR '' '' # rest)] @ toks @ [NlTk d1]))) =
           lineContent rest toks
       \<and> lastNlTk (snd (run u newPreHandler
                ([NlTk d0, StringTk (CHR '' '' # rest)] @ toks @ [NlTk d1]))) =
           Some (NlTk d1)
       \<and> solTransparentTokens (snd (run u newPreHandler
                ([NlTk d0, StringTk (CHR '' '' # rest)] @ toks @ [NlTk d1]))) = []
       \<and> (\<not> startsWithSpace t \<and> \<not> isSolTransparent t \<longrightarrow>
            fst (run u newPreHandler
                   ([NlTk d0, StringTk (CHR '' '' # rest)] @ toks @ [NlTk d1, t])) =
            [NlTk d0,
             TagTk ''pre'' []
               (noData\<lparr> tsr := (if initPreTSR (NlTk d0) = - 1 then None
                                  else Some (initPreTSR (NlTk d0),
                                             initPreTSR (NlTk d0) + 1)) \<rparr>)]
              @ lineContent rest toks
              @ [EndTagTk ''pre'' [] noData, NlTk d1, t])"
proof -
  define h1 where "h1 = newPreHandler\<lparr> preTSR := initPreTSR (NlTk d0) \<rparr>"
  define hP where "hP = h1\<lparr> tokens := [], preWSToken := Some (StringTk '' ''),
                             state := STATE_PRE \<rparr>"
  define hC where "hC = snd (run u hP (lineContent rest toks))"
  define hM where "hM = hC\<lparr> lastNlTk := Some (NlTk d1), state := STATE_MULTILINE_PRE \<rparr>"
  let ?line = "[NlTk d0, StringTk (CHR '' '' # rest)] @ toks @ [NlTk d1]"
  have h1: "state h1 = STATE_SOL" "anyHandler h1" "\<not> inPre h1" "tokens h1 = []"
    by (simp_all add: h1_def newPreHandler_def init_def)
  have hP: "state hP = STATE_PRE" "anyHandler hP" "tokens hP = []"
    "solTransparentTokens hP = []" "lastNlTk hP = None" "preTSR hP = initPreTSR (NlTk d0)"
    by (simp_all add: hP_def h1_def newPreHandler_def init_def)
  have f1: "feed u newPreHandler (NlTk d0) = ([NlTk d0], h1)"
    by (simp add: onNewline_def getResultAndReset_eq newPreHandler_def init_def h1_def)
  have f2: "feed u h1 (StringTk (CHR '' '' # rest)) =
              ([], snd (run u hP (if rest = [] then [] else [StringTk rest])))"
    using feed_whitespace_SOL [OF h1(1,2,3), of u rest] by (simp add: h1(4) hP_def)
  note coll = run_pre [OF hP(1,2) assms(1,2)]
  have outC: "fst (run u hP (lineContent rest toks)) = []"
    using coll by simp
  have hC: "state hC = STATE_PRE_COLLECT" "anyHandler hC"
    "tokens hC = lineContent rest toks" "lastNlTk hC = None"
    "solTransparentTokens hC = []" "preTSR hC = initPreTSR (NlTk d0)"
    "multiLinePreWSToken hC = None"
    using coll by (simp_all add: hC_def hP)
  have split: "run u hP (lineContent rest toks) =
                 (fst (run u hP (if rest = [] then [] else [StringTk rest]))
                    @ fst (run u (snd (run u hP (if rest = [] then [] else [StringTk rest]))) toks),
                  snd (run u (snd (run u hP (if rest = [] then [] else [StringTk rest]))) toks))"
    unfolding lineContent_def by (rule run_append)
  from split outC
  have f3: "fst (run u (snd (run u hP (if rest = [] then [] else [StringTk rest]))) toks) = []"
    by simp
  from split
  have s3: "snd (run u (snd (run u hP (if rest = [] then [] else [StringTk rest]))) toks) = hC"
    by (simp add: hC_def)
  have f4: "feed u hC (NlTk d1) = ([], hM)"
    by (simp add: onNewline_def hC hM_def)
  have hM: "state hM = STATE_MULTILINE_PRE" "anyHandler hM"
    "tokens hM = lineContent rest toks" "lastNlTk hM = Some (NlTk d1)"
    "solTransparentTokens hM = []" "preTSR hM = initPreTSR (NlTk d0)"
    "multiLinePreWSToken hM = None"
    by (simp_all add: hM_def hC)
  from assms(2) have nonempty: "lineContent rest toks \<noteq> []"
    by auto
  have start: "run u newPreHandler [NlTk d0, StringTk (CHR '' '' # rest)] =
          ([NlTk d0], snd (run u hP (if rest = [] then [] else [StringTk rest])))"
    using f1 f2 by (simp del: feed.simps)
  have "run u newPreHandler ([NlTk d0, StringTk (CHR '' '' # rest)] @ (toks @ [NlTk d1])) =
          (fst (run u newPreHandler [NlTk d0, StringTk (CHR '' '' # rest)])
             @ fst (run u (snd (run u newPreHandler [NlTk d0, StringTk (CHR '' '' # rest)]))
                      (toks @ [NlTk d1])),
           snd (run u (snd (run u newPreHandler [NlTk d0, StringTk (CHR '' '' # rest)]))
                  (toks @ [NlTk d1])))"
    by (rule run_append)
  with start f3 s3 f4 have held: "run u newPreHandler ?line = ([NlTk d0], hM)"
    by (simp add: run_append case_prod_beta del: feed.simps)
  have closes: "fst (run u newPreHandler (?line @ [t])) =
            [NlTk d0,
             TagTk ''pre'' []
               (noData\<lparr> tsr := (if initPreTSR (NlTk d0) = - 1 then None
                                  else Some (initPreTSR (NlTk d0),
                                             initPreTSR (NlTk d0) + 1)) \<rparr>)]
              @ lineContent rest toks
              @ [EndTagTk ''pre'' [] noData, NlTk d1, t]"
    if t: "\<not> startsWithSpace t" "\<not> isSolTransparent t"
  proof -
    have "fst (run u newPreHandler (?line @ [t])) = [NlTk d0] @ fst (feed u hM t)"
      using held by (simp add: run_append [of u newPreHandler ?line "[t]"] case_prod_beta
                          del: feed.simps append.simps append_assoc)
    also have "fst (feed u hM t) = fst (processPre hM t)"
      using hM(1,2) t by (rule feed_closes_MULTILINE_PRE)
    finally show ?thesis
      by (simp add: processPre_eq hM nonempty noData_def)
  qed
  from held hM closes show ?thesis
    by simp
qed

theorem single_space_line_wrapped_witness:
  "fst (run \<lparr> isTableTag = (\<lambda>t. False), isBlockTag = (\<lambda>n. False) \<rparr> newPreHandler
          ([NlTk noData, StringTk '' a''] @ [CommentTk ''c'' noData] @ [NlTk noData])) =
     [NlTk noData]
   \<and> state (snd (run \<lparr> isTableTag = (\<lambda>t. False), isBlockTag = (\<lambda>n. False) \<rparr> newPreHandler
          ([NlTk noData, StringTk '' a''] @ [CommentTk ''c'' noData] @ [NlTk noData]))) =
       STATE_MULTILINE_PRE
   \<and> tokens (snd (run \<lparr> isTableTag = (\<lambda>t. False), isBlockTag = (\<lambda>n. False) \<rparr> newPreHandler
          ([NlTk noData, StringTk '' a''] @ [CommentTk ''c'' noData] @ [NlTk noData]))) =
       [StringTk ''a'', CommentTk ''c'' noData]
   \<and> fst (run \<lparr> isTableTag = (\<lambda>t. False), isBlockTag = (\<lambda>n. False) \<rparr> newPreHandler
          ([NlTk noData, StringTk '' a''] @ [CommentTk ''c'' noData] @ [NlTk noData, EOFTk])) =
     [NlTk noData, TagTk ''pre'' [] noData, StringTk ''a'', CommentTk ''c'' noData,
      EndTagTk ''pre'' [] noData, NlTk noData, EOFTk]"
  using single_space_line_wrapped
          [of "''a''" "[CommentTk ''c'' noData]"
              "\<lparr> isTableTag = (\<lambda>t. False), isBlockTag = (\<lambda>n. False) \<rparr>" noData noData EOFTk]
  by (simp add: lineContent_def keepsLine_def initPreTSR_def noData_def isSpace_def)

text \<open>
  C2, as stated, fails on the stream that ends with the closing newline: for
  newline, the text \<open>" a"\<close>, newline the machine has emitted the first newline
  only, and holds the line in MULTILINE_PRE. It fails, too, on a line whose
  tokens are all sol-transparent: for newline, the text \<open>" "\<close>, a comment,
  newline and the end of input the machine is in PRE at the closing newline,
  which purges: the output has no pre tag and holds the space.
\<close>

theorem single_space_line_counterexample:
  "fst (run \<lparr> isTableTag = (\<lambda>t. False), isBlockTag = (\<lambda>n. False) \<rparr> newPreHandler
          [NlTk noData, StringTk '' a'', NlTk noData]) = [NlTk noData]
   \<and> state (snd (run \<lparr> isTableTag = (\<lambda>t. False), isBlockTag = (\<lambda>n. False) \<rparr> newPreHandler
          [NlTk noData, StringTk '' a'', NlTk noData])) = STATE_MULTILINE_PRE
   \<and> tokens (snd (run \<lparr> isTableTag = (\<lambda>t. False), isBlockTag = (\<lambda>n. False) \<rparr> newPreHandler
          [NlTk noData, StringTk '' a'', NlTk noData])) = [StringTk ''a'']
   \<and> fst (run \<lparr> isTableTag = (\<lambda>t. False), isBlockTag = (\<lambda>n. False) \<rparr> newPreHandler
          [NlTk noData, StringTk '' '', CommentTk ''c'' noData, NlTk noData, EOFTk]) =
       [NlTk noData, StringTk '' '', CommentTk ''c'' noData, NlTk noData, EOFTk]"
  by code_simp

section \<open>Properties of the serializer\<close>

subsection \<open>The list stack across top-level calls\<close>

text \<open>
  C6. The state of a top-level call is a shallow copy of \<open>initialState\<close>, so its
  \<open>listStack\<close> is the one array of \<open>initialState\<close>: a call that opens a list and
  does not close it leaves its list context in that array, and the next call
  starts with it. After \<open>serializeTokens\<close> on the single token \<open><ul>\<close>, the same
  list serializes with doubled bullets on its second item.
\<close>

theorem listStack_persists:
  "snd (serializeTokens plainEnv [] [TagTk ''ul'' [] noData]) =
     [\<lparr> itemCount = 0, bullets = ''*'', itemBullet = [] \<rparr>]
   \<and> fst (serializeDOM plainEnv []
          (Element ''UL'' [] noData
             [Element ''LI'' [] noData [TextNode ''a''],
              Element ''LI'' [] noData [TextNode ''b'']])) =
       Some (''*a'' @ [CHR ''\<newline>''] @ ''*b'')
   \<and> fst (serializeDOM plainEnv (snd (serializeTokens plainEnv [] [TagTk ''ul'' [] noData]))
          (Element ''UL'' [] noData
             [Element ''LI'' [] noData [TextNode ''a''],
              Element ''LI'' [] noData [TextNode ''b'']])) =
       Some (''*a'' @ [CHR ''\<newline>''] @ ''**b'')"
  by code_simp

subsection \<open>Emission of text\<close>

lemma newlinesToSpaces_no_newline: "CHR ''\<newline>'' \<notin> set (newlinesToSpaces s)"
  by (induction s) (auto simp: newlinesToSpaces_def)

lemma emitText_chunks:
  "chunks (emitText h res n st) =
     chunks st @
       [replicate
          (if singleLineMode st = 0
              \<and> ((\<not> isBlank res \<and> emitNewlineOnNextToken st)
                  \<or> (startsNewline h \<and> \<not> onStartOfLine st))
              \<and> availableNewlineCount st = 0
           then 1 else availableNewlineCount st) CHR ''\<newline>''
        @ (if singleLineMode st \<noteq> 0 then newlinesToSpaces (stripDropTail (dropTail st) res)
           else stripDropTail (dropTail st) res)]"
  by (simp add: emitText_def Let_def)

lemma listHandler_singleLineMode:
  "singleLineMode (snd (snd (listHandler bullet e h st token))) = singleLineMode st - 1"
  by (cases "isListItem (prevToken st)"; cases "projr (isListItem (prevToken st))")
     (auto simp: listHandler_def Let_def split: sum.splits bool.splits)

subsection \<open>The separator between a closing and an opening tag of one name\<close>

lemma leadingNewlines_plain:
  assumes "res \<noteq> []" "\<not> isCRLF (hd res)"
  shows "leadingNewlines res = ([], res)"
proof (cases res)
  case Nil
  with assms show ?thesis by simp
next
  case (Cons c cs)
  with assms show ?thesis by (cases cs) (auto simp: isCRLF_def)
qed

lemma matchNewlines_plain:
  assumes "res \<noteq> []" "\<forall>c\<in>set res. \<not> isCRLF c"
  shows "matchNewlines res = Some ([], res, [])"
proof -
  from assms have "\<not> isCRLF (hd res)" by (cases res) auto
  with assms have lead: "leadingNewlines res = ([], res)"
    by (simp add: leadingNewlines_plain)
  from assms have "dropWhile isCRLF (rev res) = rev res"
    by (cases "rev res") auto
  with lead show ?thesis by (simp add: matchNewlines_def)
qed

lemma stripNewlines_plain:
  assumes "\<forall>c\<in>set res. \<not> isCRLF c"
  shows "stripNewlines res st = Some (res, 0, st)"
  using assms matchNewlines_plain [of res]
  by (cases "res = []") (simp_all add: stripNewlines_def countNewlines_def)

lemma pairSeparator_raises:
  assumes "0 < pairSepNLCount h" "prevTagToken st = Some (EndTagTk n a d)"
    and "tokenName token = Some n"
  shows "pairSeparator h token st =
           st\<lparr> availableNewlineCount := max (pairSepNLCount h) (availableNewlineCount st) \<rparr>"
  using assms by (simp add: pairSeparator_def max_def)

lemma stripDropTail_subset: "set (stripDropTail dt res) \<subseteq> set res"
  by (auto simp: stripDropTail_def split: option.splits dest: in_set_takeD)

lemma newlinesToSpaces_plain:
  assumes "CHR ''\<newline>'' \<notin> set s"
  shows "newlinesToSpaces s = s"
  using assms by (induction s) (auto simp: newlinesToSpaces_def)

lemma listHandler_tag_tokens:
  "prevTagToken (snd (snd (listHandler bullet e h st token))) = prevTagToken st"
  "pairSepNLCount (fst (snd (listHandler bullet e h st token))) = pairSepNLCount h"
  by (cases "isListItem (prevToken st)"; cases "projr (isListItem (prevToken st))";
      auto simp: listHandler_def Let_def split: sum.splits bool.splits)+

lemma listItemHandler_tag_tokens:
  "prevTagToken (snd (snd (listItemHandler bullet e h st token))) = prevTagToken st"
  "pairSepNLCount (fst (snd (listItemHandler bullet e h st token))) = pairSepNLCount h"
  by (auto simp: listItemHandler_def Let_def split: sum.splits bool.splits)

lemma tagHandlers_start_pairSep:
  assumes "tagHandlers n = Some (Some (h, f), en)" "pairSepNLCount h \<noteq> 0"
  shows "\<not> ignore h
       \<and> (f = None \<or> (\<exists>b. f = Some (listHandler b)) \<or> (\<exists>b. f = Some (listItemHandler b)))"
  using assms
  by (auto simp: tagHandlers_def listTagHandler_def headingTagHandler_def emptyHandler_def
      split: if_splits)

lemma getTokenHandler_start_cases:
  assumes "isStartTag token"
  shows "getTokenHandler st token = (emptyHandler, Some htmlTagHandle)
       \<or> getTokenHandler st token = (emptyHandler, None)
       \<or> (\<exists>en. tagHandlers (tagName token) = Some (Some (getTokenHandler st token), en))"
proof (cases "tagHandlers (tagName token)")
  case None
  with assms show ?thesis
    by (simp add: getTokenHandler_def Let_def defaultHTMLTagHandler_def)
next
  case (Some th)
  obtain s en where th: "th = (s, en)" by (cases th)
  show ?thesis
  proof (cases s)
    case None
    with assms Some th show ?thesis
      by (simp add: getTokenHandler_def Let_def defaultHTMLTagHandler_def)
  next
    case (Some x)
    with assms \<open>tagHandlers (tagName token) = Some th\<close> th show ?thesis
      by (simp add: getTokenHandler_def Let_def defaultHTMLTagHandler_def)
  qed
qed

lemma pairSep_handle:
  assumes "isStartTag token" "pairSepNLCount (fst (getTokenHandler st token)) \<noteq> 0"
  shows "\<not> ignore (fst (getTokenHandler st token))
       \<and> (snd (getTokenHandler st token) = None
          \<or> (\<exists>b. snd (getTokenHandler st token) = Some (listHandler b))
          \<or> (\<exists>b. snd (getTokenHandler st token) = Some (listItemHandler b)))"
proof -
  from getTokenHandler_start_cases [OF assms(1), of st]
  consider "getTokenHandler st token = (emptyHandler, Some htmlTagHandle)"
    | "getTokenHandler st token = (emptyHandler, None)"
    | en where "tagHandlers (tagName token) = Some (Some (getTokenHandler st token), en)"
    by blast
  then show ?thesis
  proof cases
    case 1
    with assms(2) show ?thesis by (simp add: emptyHandler_def)
  next
    case 2
    with assms(2) show ?thesis by (simp add: emptyHandler_def)
  next
    case 3
    obtain h f where hf: "getTokenHandler st token = (h, f)"
      by (cases "getTokenHandler st token")
    with 3 assms(2) tagHandlers_start_pairSep [of "tagName token" h f en]
    show ?thesis by simp
  qed
qed

lemma startTagText_pairSep:
  assumes "pairSepNLCount (fst (getTokenHandler st token)) = k" "0 < k"
    and "startTagText e st token = (r, h, st1)"
    and start: "isStartTag token"
  shows "prevTagToken st1 = currTagToken st \<and> pairSepNLCount h = k"
proof -
  let ?st = "st\<lparr> prevTagToken := currTagToken st, currTagToken := Some token \<rparr>"
  from assms(1,2) pairSep_handle [OF start, of st]
  have ni: "\<not> ignore (fst (getTokenHandler st token))"
    and hs: "snd (getTokenHandler st token) = None
          \<or> (\<exists>b. snd (getTokenHandler st token) = Some (listHandler b))
          \<or> (\<exists>b. snd (getTokenHandler st token) = Some (listItemHandler b))"
    by simp_all
  from ni assms(3) have run: "runHandle e (getTokenHandler st token) ?st token = (r, h, st1)"
    by (simp add: startTagText_def Let_def)
  from hs show ?thesis
  proof (elim disjE exE)
    assume "snd (getTokenHandler st token) = None"
    with run assms(1) show ?thesis by (auto simp: runHandle_def)
  next
    fix b assume "snd (getTokenHandler st token) = Some (listHandler b)"
    with run have "listHandler b e (fst (getTokenHandler st token)) ?st token = (r, h, st1)"
      by (simp add: runHandle_def)
    with listHandler_tag_tokens [of b e "fst (getTokenHandler st token)" ?st token] assms(1)
    show ?thesis by simp
  next
    fix b assume "snd (getTokenHandler st token) = Some (listItemHandler b)"
    with run have "listItemHandler b e (fst (getTokenHandler st token)) ?st token = (r, h, st1)"
      by (simp add: runHandle_def)
    with listItemHandler_tag_tokens [of b e "fst (getTokenHandler st token)" ?st token] assms(1)
    show ?thesis by simp
  qed
qed

lemma getTokenHandler_prevToken [simp]:
  "getTokenHandler (st\<lparr> prevToken := p, curToken := c \<rparr>) token = getTokenHandler st token"
  by (cases "tagHandlers (tagName token)") (simp_all add: getTokenHandler_def Let_def)

lemma pair_separator_step:
  assumes start: "isStartTag token"
    and prev: "currTagToken st = Some (EndTagTk n a d)" "tokenName token = Some n"
    and pair: "pairSepNLCount (fst (getTokenHandler st token)) = k" "0 < k"
    and tt: "tokenText e (st\<lparr> prevToken := curToken st, curToken := Some token \<rparr>) token =
                 (Inr res, h, st1)"
    and nodrop: "\<not> (dropContent st \<and> dropContent st1)"
    and plain: "\<forall>c\<in>set res. \<not> isCRLF c"
  shows "fst (serializeToken e st token) = None
       \<and> (if res = [] then
            availableNewlineCount (snd (serializeToken e st token)) =
              max k (availableNewlineCount st1)
            \<and> chunks (snd (serializeToken e st token)) = chunks st1
          else
            (\<exists>body. chunks (snd (serializeToken e st token)) =
                      chunks st1 @ [replicate (max k (availableNewlineCount st1)) CHR ''\<newline>''
                                    @ body]
                    \<and> CHR ''\<newline>'' \<notin> set body))"
proof -
  let ?st = "st\<lparr> prevToken := curToken st, curToken := Some token \<rparr>"
  from start tt have stt: "startTagText e ?st token = (Inr res, h, st1)"
    by (cases token) simp_all
  from pair have pair': "pairSepNLCount (fst (getTokenHandler ?st token)) = k" by simp
  from startTagText_pairSep [OF pair' pair(2) stt start] prev
  have p1: "prevTagToken st1 = Some (EndTagTk n a d)" and hk: "pairSepNLCount h = k"
    by simp_all
  from nodrop tt
  have ser: "serializeToken e st token = emitRes h token res st1"
    by (auto simp: serializeToken_def Let_def)
  define st2 where
    "st2 = st1\<lparr> availableNewlineCount := max k (availableNewlineCount st1) \<rparr>"
  have ps: "pairSeparator h token st1 = st2"
    using pairSeparator_raises [of h st1 n a d token] hk pair(2) p1 prev(2)
    by (simp add: st2_def)
  have nonl: "CHR ''\<newline>'' \<notin> set res"
    using plain by (auto simp: isCRLF_def)
  show ?thesis
  proof (cases "res = []")
    case True
    then show ?thesis
      by (simp add: ser emitRes_def stripNewlines_def ps Let_def st2_def)
  next
    case False
    have pos: "availableNewlineCount st2 \<noteq> 0"
      using pair(2) by (simp add: st2_def)
    let ?body = "if singleLineMode st2 \<noteq> 0
                 then newlinesToSpaces (stripDropTail (dropTail st2) res)
                 else stripDropTail (dropTail st2) res"
    have body: "CHR ''\<newline>'' \<notin> set ?body"
      using nonl stripDropTail_subset [of "dropTail st2" res]
      by (auto simp: newlinesToSpaces_no_newline)
    have ch: "chunks (emitText h res 0 st2) =
                chunks st1 @ [replicate (max k (availableNewlineCount st1)) CHR ''\<newline>''
                              @ ?body]"
      using pos by (simp add: emitText_chunks) (simp add: st2_def)
    have "chunks (snd (serializeToken e st token)) = chunks (emitText h res 0 st2)"
      using False
      by (simp add: ser emitRes_def stripNewlines_plain [OF plain] ps Let_def)
    moreover have "fst (serializeToken e st token) = None"
      by (simp add: ser emitRes_def stripNewlines_plain [OF plain] Let_def)
    ultimately show ?thesis
      using False ch body by auto
  qed
qed

subsection \<open>Two adjacent paragraphs\<close>

lemma escapeWikiText_plain:
  assumes "inNewLineContext st" "\<not> inIndentPre st" "tokenizer e s = [StringTk s, EOFTk]"
  shows "escapeWikiText e st s = (Inr s, [])"
  using assms by (simp add: escapeWikiText_def wrapNonTextTokens_def Let_def)

lemma emitRes_silent:
  assumes "pairSepNLCount h = 0 \<or> (\<forall>n a d. prevTagToken st \<noteq> Some (EndTagTk n a d))"
  shows "emitRes h token [] st =
           (None,
            st\<lparr> emitNewlineOnNextToken :=
                   (endsLine h \<or> (startsNewline h \<and> \<not> onStartOfLine st)
                    \<or> emitNewlineOnNextToken st),
                 singleLineMode := singleLineMode st + (if 0 < singleLine h then nat (singleLine h) else 0) \<rparr>)"
proof -
  from assms have "pairSeparator h token st = st"
    by (auto simp: pairSeparator_def split: option.splits token.splits)
  then show ?thesis
    by (cases st) (auto simp: emitRes_def stripNewlines_def Let_def)
qed

lemma serialize_body_start:
  assumes "\<not> dropContent st"
  shows "serializeToken e st (TagTk ''body'' [] noData) =
           (None, st\<lparr> prevToken := curToken st, curToken := Some (TagTk ''body'' [] noData),
                       prevTagToken := currTagToken st,
                       currTagToken := Some (TagTk ''body'' [] noData),
                       emitNewlineOnNextToken := False \<rparr>)"
  using assms
  by (simp add: serializeToken_def startTagText_def getTokenHandler_def tagHandlers_def
        runHandle_def bodyHandle_def tagName_def tagData_def noData_def emitRes_silent
        emptyHandler_def Let_def)

lemma serialize_body_end:
  assumes "\<not> dropContent st"
  shows "serializeToken e st (EndTagTk ''body'' [] noData) =
           (None, st\<lparr> prevToken := curToken st, curToken := Some (EndTagTk ''body'' [] noData),
                       prevTagToken := currTagToken st,
                       currTagToken := Some (EndTagTk ''body'' [] noData) \<rparr>)"
  using assms
  by (cases st)
     (simp add: serializeToken_def endTagText_def getTokenHandler_def tagHandlers_def
        runHandle_def tagName_def tagData_def noData_def emitRes_silent
        emptyHandler_def Let_def)

lemma serialize_p_start_first:
  assumes "\<not> dropContent st" "singleLineMode st = 0"
    and "\<forall>n a d. currTagToken st \<noteq> Some (EndTagTk n a d)"
  shows "serializeToken e st (TagTk ''p'' [] noData) =
           (None, st\<lparr> prevToken := curToken st, curToken := Some (TagTk ''p'' [] noData),
                       prevTagToken := currTagToken st,
                       currTagToken := Some (TagTk ''p'' [] noData),
                       emitNewlineOnNextToken :=
                         (\<not> onStartOfLine st \<or> emitNewlineOnNextToken st) \<rparr>)"
  using assms
  by (cases st)
     (simp add: serializeToken_def startTagText_def getTokenHandler_def tagHandlers_def
        runHandle_def tagName_def tagData_def noData_def emitRes_silent
        emptyHandler_def Let_def)

lemma serialize_p_start_after_p:
  assumes "\<not> dropContent st" "singleLineMode st = 0"
    and "currTagToken st = Some (EndTagTk ''p'' a d)"
  shows "serializeToken e st (TagTk ''p'' [] noData) =
           (None, st\<lparr> prevToken := curToken st, curToken := Some (TagTk ''p'' [] noData),
                       prevTagToken := currTagToken st,
                       currTagToken := Some (TagTk ''p'' [] noData),
                       availableNewlineCount := max 2 (availableNewlineCount st),
                       emitNewlineOnNextToken :=
                         (\<not> onStartOfLine st \<or> emitNewlineOnNextToken st) \<rparr>)"
  using assms
  by (cases st)
     (auto simp: serializeToken_def startTagText_def getTokenHandler_def tagHandlers_def
        runHandle_def tagName_def tagData_def noData_def emitRes_def stripNewlines_def
        pairSeparator_def emptyHandler_def Let_def max_def)

lemma serialize_p_end:
  assumes "\<not> dropContent st" "singleLineMode st = 0"
  shows "serializeToken e st (EndTagTk ''p'' [] noData) =
           (None, st\<lparr> prevToken := curToken st, curToken := Some (EndTagTk ''p'' [] noData),
                       prevTagToken := currTagToken st,
                       currTagToken := Some (EndTagTk ''p'' [] noData),
                       emitNewlineOnNextToken := True \<rparr>)"
  using assms
  by (cases st)
     (simp add: serializeToken_def endTagText_def getTokenHandler_def tagHandlers_def
        runHandle_def tagName_def tagData_def noData_def emitRes_silent
        emptyHandler_def Let_def)

lemma emitRes_plain_text:
  assumes "singleLineMode st = 0" "dropTail st = None"
    and "s \<noteq> []" "\<forall>c\<in>set s. \<not> isSpace c"
  shows "emitRes emptyHandler token s st =
           (None, st\<lparr> emitNewlineOnNextToken :=
                         (if emitNewlineOnNextToken st then False else emitNewlineOnNextToken st),
                       stOnNewline := False, onStartOfLine := False,
                       availableNewlineCount := 0,
                       chunks := chunks st @
                         [replicate (if emitNewlineOnNextToken st \<and> availableNewlineCount st = 0
                                     then 1 else availableNewlineCount st) CHR ''\<newline>'' @ s] \<rparr>)"
proof -
  from assms(4) have plain: "\<forall>c\<in>set s. \<not> isCRLF c"
    by (auto simp: isCRLF_def isSpace_def)
  from assms(3,4) have nb: "\<not> isBlank s"
    by (cases s) (auto simp: isBlank_def)
  show ?thesis
    using assms(1,2,3) nb
    by (cases st)
       (simp add: emitRes_def stripNewlines_plain [OF plain] pairSeparator_def emitText_def
          stripDropTail_def emptyHandler_def Let_def)
qed

lemma serialize_plain_text:
  assumes "\<not> dropContent st" "\<not> inNoWiki st" "\<not> inHTMLPre st" "\<not> textHandler st"
    and "\<not> inIndentPre st" "inNewLineContext st" "singleLineMode st = 0" "dropTail st = None"
    and "tokenizer e s = [StringTk s, EOFTk]"
    and "s \<noteq> []" "\<forall>c\<in>set s. \<not> isSpace c"
  shows "serializeToken e st (StringTk s) =
           (None, st\<lparr> prevToken := curToken st, curToken := Some (StringTk s),
                       emitNewlineOnNextToken :=
                         (if emitNewlineOnNextToken st then False else emitNewlineOnNextToken st),
                       stOnNewline := False, onStartOfLine := False,
                       availableNewlineCount := 0,
                       chunks := chunks st @
                         [replicate (if emitNewlineOnNextToken st \<and> availableNewlineCount st = 0
                                     then 1 else availableNewlineCount st) CHR ''\<newline>'' @ s] \<rparr>)"
proof -
  let ?st = "st\<lparr> prevToken := curToken st, curToken := Some (StringTk s) \<rparr>"
  have esc: "escapeWikiText e ?st s = (Inr s, [])"
    using assms(5,6,9) by (intro escapeWikiText_plain) (simp_all add: inNewLineContext_def)
  have tt: "stringText e ?st s = (Inr s, emptyHandler, ?st)"
    using assms(2,3,4) by (simp add: stringText_def esc)
  have em: "emitRes emptyHandler (StringTk s) s ?st =
              (None, ?st\<lparr> emitNewlineOnNextToken :=
                         (if emitNewlineOnNextToken ?st then False else emitNewlineOnNextToken ?st),
                       stOnNewline := False, onStartOfLine := False,
                       availableNewlineCount := 0,
                       chunks := chunks ?st @
                         [replicate (if emitNewlineOnNextToken ?st \<and> availableNewlineCount ?st = 0
                                     then 1 else availableNewlineCount ?st) CHR ''\<newline>'' @ s] \<rparr>)"
    using assms(7,8,10,11) by (intro emitRes_plain_text) simp_all
  show ?thesis
    using assms(1) by (simp add: serializeToken_def Let_def tt em)
qed

lemma serialize_EOFTk:
  assumes "availableNewlineCount st = 0"
  shows "chunks (snd (serializeToken e st EOFTk)) = chunks st @ [[]]
       \<and> fst (serializeToken e st EOFTk) = None"
  using assms
  by (simp add: serializeToken_def emitRes_def stripNewlines_def pairSeparator_def
        emptyHandler_def Let_def)

lemma two_paragraphs:
  assumes "tokenizer e ''x'' = [StringTk ''x'', EOFTk]"
    and "tokenizer e ''y'' = [StringTk ''y'', EOFTk]"
  shows "fst (serializeDOM e []
                (Element ''BODY'' [] noData
                   [Element ''P'' [] noData [TextNode ''x''],
                    Element ''P'' [] noData [TextNode ''y'']])) =
         Some (''x'' @ [CHR ''\<newline>'', CHR ''\<newline>''] @ ''y'')"
proof -
  have lower: "toLowerCase ''BODY'' = ''body''" "toLowerCase ''P'' = ''p''"
    by code_simp+
  have fin: "fst (case serializeToken e st EOFTk of
                    (Some err, st1) \<Rightarrow> (None, listStack st1)
                  | (None, st1) \<Rightarrow> (Some (concat (chunks st1)), listStack st1)) =
             Some (concat (chunks st))"
    if "availableNewlineCount st = 0" for st
    using serialize_EOFTk [OF that, of e]
    by (cases "serializeToken e st EOFTk") auto
  show ?thesis
    using assms
    by (simp add: serializeDOM_def lower getDOMAttribs_def initialState_def
          serialize_body_start serialize_body_end serialize_p_start_first
          serialize_p_start_after_p serialize_p_end serialize_plain_text
          inNewLineContext_def isSpace_def fin Let_def numeral_2_eq_2)
qed

text \<open>
  C3, as the serializer behaves. When the handler of an open tag token has
  \<open>pairSepNLCount\<close> set, the previous tag token is a close tag of the same name,
  the handler returns (a text without line breaks) and content is not being
  dropped, then at least that many newlines are owed: if the token emits no
  text, \<open>availableNewlineCount\<close> is raised to at least that value; if it emits
  text, the chunk starts with that many newlines. And the DOM of two adjacent
  paragraphs \<open><p>x</p><p>y</p>\<close> in a body serializes to \<open>x\<close>, two newlines, \<open>y\<close>,
  for every environment whose tokenizer reads \<open>x\<close> and \<open>y\<close> as plain text.
\<close>

theorem pair_separator_newlines:
  "(isStartTag token \<and> currTagToken st = Some (EndTagTk n a d) \<and> tokenName token = Some n
      \<and> pairSepNLCount (fst (getTokenHandler st token)) = k \<and> 0 < k
      \<and> tokenText e (st\<lparr> prevToken := curToken st, curToken := Some token \<rparr>) token =
           (Inr res, h, st1)
      \<and> \<not> (dropContent st \<and> dropContent st1)
      \<and> (\<forall>c\<in>set res. \<not> isCRLF c)
    \<longrightarrow> fst (serializeToken e st token) = None
        \<and> (if res = [] then
              availableNewlineCount (snd (serializeToken e st token)) =
                max k (availableNewlineCount st1)
              \<and> chunks (snd (serializeToken e st token)) = chunks st1
            else
              (\<exists>body. chunks (snd (serializeToken e st token)) =
                        chunks st1 @ [replicate (max k (availableNewlineCount st1)) CHR ''\<newline>''
                                      @ body]
                      \<and> CHR ''\<newline>'' \<notin> set body)))
   \<and> (tokenizer e ''x'' = [StringTk ''x'', EOFTk] \<and> tokenizer e ''y'' = [StringTk ''y'', EOFTk]
      \<longrightarrow> fst (serializeDOM e []
                 (Element ''BODY'' [] noData
                    [Element ''P'' [] noData [TextNode ''x''],
                     Element ''P'' [] noData [TextNode ''y'']])) =
          Some (''x'' @ [CHR ''\<newline>'', CHR ''\<newline>''] @ ''y''))"
  using pair_separator_step [of token st n a d k e res h st1] two_paragraphs [of e]
  by blast

theorem pair_separator_newlines_witness:
  "availableNewlineCount
     (snd (serializeToken plainEnv
             ((initialState [])\<lparr> currTagToken := Some (EndTagTk ''p'' [] noData) \<rparr>)
             (TagTk ''p'' [] noData))) = 2
   \<and> fst (serializeDOM plainEnv []
            (Element ''BODY'' [] noData
               [Element ''P'' [] noData [TextNode ''x''],
                Element ''P'' [] noData [TextNode ''y'']])) =
       Some (''x'' @ [CHR ''\<newline>'', CHR ''\<newline>''] @ ''y'')"
proof -
  let ?st = "(initialState [])\<lparr> currTagToken := Some (EndTagTk ''p'' [] noData) \<rparr>"
  let ?tok = "TagTk ''p'' [] noData"
  let ?h = "emptyHandler\<lparr> startsNewline := True, pairSepNLCount := 2 \<rparr>"
  let ?st1 = "?st\<lparr> prevToken := curToken ?st, curToken := Some ?tok,
                    prevTagToken := currTagToken ?st, currTagToken := Some ?tok \<rparr>"
  have gh: "getTokenHandler ?st ?tok = (?h, None)"
    by (simp add: getTokenHandler_def tagHandlers_def tagName_def tagData_def noData_def
          initialState_def Let_def)
  have tt: "tokenText plainEnv (?st\<lparr> prevToken := curToken ?st, curToken := Some ?tok \<rparr>) ?tok =
              (Inr [], ?h, ?st1)"
    by (simp add: startTagText_def gh runHandle_def Let_def emptyHandler_def)
  have nd: "\<not> (dropContent ?st \<and> dropContent ?st1)"
    by (simp add: initialState_def)
  have av: "availableNewlineCount ?st1 = 0"
    by (simp add: initialState_def)
  have tk: "tokenizer plainEnv ''x'' = [StringTk ''x'', EOFTk]"
    "tokenizer plainEnv ''y'' = [StringTk ''y'', EOFTk]"
    by (simp_all add: plainEnv_def)
  from pair_separator_newlines [of ?tok ?st "''p''" "[]" noData 2 plainEnv "[]" ?h ?st1] gh tt nd av tk
  show ?thesis
    by (simp add: emptyHandler_def)
qed

text \<open>
  C3, as stated, fails while content is being dropped: inside a span of
  generated content the open tag of a paragraph that follows the close tag of a
  paragraph leaves \<open>availableNewlineCount\<close> at zero and emits nothing.
\<close>

theorem pair_separator_counterexample:
  "currTagToken
     (snd (serializeTokenList plainEnv (initialState [])
             [TagTk ''span'' [(''data-mw-gc'', ''both'')] (noData\<lparr> src := Some ''{{x}}'' \<rparr>),
              TagTk ''p'' [] noData, EndTagTk ''p'' [] noData])) =
     Some (EndTagTk ''p'' [] noData)
   \<and> pairSepNLCount
       (fst (getTokenHandler
               (snd (serializeTokenList plainEnv (initialState [])
                       [TagTk ''span'' [(''data-mw-gc'', ''both'')]
                          (noData\<lparr> src := Some ''{{x}}'' \<rparr>),
                        TagTk ''p'' [] noData, EndTagTk ''p'' [] noData]))
               (TagTk ''p'' [] noData))) = 2
   \<and> availableNewlineCount
       (snd (serializeTokenList plainEnv (initialState [])
               [TagTk ''span'' [(''data-mw-gc'', ''both'')] (noData\<lparr> src := Some ''{{x}}'' \<rparr>),
                TagTk ''p'' [] noData, EndTagTk ''p'' [] noData, TagTk ''p'' [] noData])) = 0
   \<and> chunks
       (snd (serializeTokenList plainEnv (initialState [])
               [TagTk ''span'' [(''data-mw-gc'', ''both'')] (noData\<lparr> src := Some ''{{x}}'' \<rparr>),
                TagTk ''p'' [] noData, EndTagTk ''p'' [] noData, TagTk ''p'' [] noData])) =
       [''{{x}}'']"
  by code_simp

section \<open>Properties of the escaper\<close>

subsection \<open>Source offsets in an indent-pre\<close>

text \<open>
  C1. In an indent-pre the escaper guards every newline of the text with an
  underscore before it tokenizes, and reads the source ranges of the tokens as
  offsets into the text without these guards (it corrects for the guard at the
  front only). For the text \<open>a\n<!--c-->\<close> the escaped range starts one character
  late: the output is \<open>a\n<nowiki>!--c--></nowiki>\<close>, and without the markers it is
  not the text.
\<close>

theorem escapeWikiText_indent_pre_loses_character:
  "fst (escapeWikiText commentEnv
          ((initialState [])\<lparr> inIndentPre := True, textHandler := True,
                              stOnNewline := False, onStartOfLine := False \<rparr>)
          ''a\<newline><!--c-->'') =
     Inr ''a\<newline><nowiki>!--c--></nowiki>''
   \<and> discardNowikiMarkers ''a\<newline><nowiki>!--c--></nowiki>'' = ''a\<newline>!--c-->''
   \<and> fst (serializeDOM commentEnv []
            (Element ''PRE'' [] noData [TextNode ''a\<newline><!--c-->''])) =
       Some '' a\<newline> <nowiki>!--c--></nowiki>''"
  by code_simp

subsection \<open>Tokens without source range\<close>

lemma substr_to_end:
  assumes "0 \<le> from"
  shows "substr s from (int (length s) - from) = drop (nat from) s"
  using assms by (auto simp: substr_def Let_def)

lemma wrapNonTextTokens_missing_end:
  assumes "nonTextTokenAccum x \<noteq> []"
    and "tsr (tagData (last (nonTextTokenAccum x))) = None"
  shows "fst (wrapNonTextTokens inNL s x) = True
       \<and> outTexts (snd (wrapNonTextTokens inNL s x)) =
           outTexts x @
             [''<nowiki>'',
              escapeNowiki
                (let rangeStart = (case tsr (tagData (hd (nonTextTokenAccum x))) of
                                     None \<Rightarrow> cursor x
                                   | Some (b, e) \<Rightarrow> if inNL then b else b - 1)
                 in substr s rangeStart (int (length s) - rangeStart)),
              ''</nowiki>'']
       \<and> (tsr (tagData (hd (nonTextTokenAccum x))) = None \<longrightarrow>
            NoTsrOnStartToken \<in> set (escWarnings (snd (wrapNonTextTokens inNL s x))))"
  using assms
  by (cases "tsr (tagData (hd (nonTextTokenAccum x)))")
     (auto simp: wrapNonTextTokens_def Let_def)

lemma escapeLoop_caught:
  assumes "fst (wrapNonTextTokens inNL s x) = True"
    and "t = EOFTk \<or> isNlTk t \<or> (\<exists>v. t = StringTk v)"
  shows "escapeLoop inNL s (t # ts) x =
           (snd (wrapNonTextTokens inNL s x))
             \<lparr> escWarnings := escWarnings (snd (wrapNonTextTokens inNL s x)) @ [NoTsrOnEndToken] \<rparr>"
  using assms
  by (cases t; cases "wrapNonTextTokens inNL s x") auto

lemma escapeWikiText_returns:
  assumes "inNewLineContext st"
  shows "\<exists>r ws. escapeWikiText e st s = (Inr r, ws)"
  using assms by (simp add: escapeWikiText_def Let_def)

text \<open>
  Where no escaped run comes before it, a run without source ranges is wrapped
  from the cursor through the end of the text: the text \<open>ab{{c}}d{{e}}\<close>, read as
  the text \<open>ab\<close> and one template token without source range, comes out as
  \<open>ab<nowiki>{{c}}d{{e}}</nowiki>\<close>.
\<close>

lemma missing_tsr_first_run:
  "escapeWikiText
     (plainEnv\<lparr> tokenizer :=
        (\<lambda>s. [StringTk ''ab'', SelfclosingTagTk ''template'' [] noData, EOFTk]) \<rparr>)
     (initialState []) ''ab{{c}}d{{e}}'' =
     (Inr ''ab<nowiki>{{c}}d{{e}}</nowiki>'', [NoTsrOnStartToken, NoTsrOnEndToken])"
  by code_simp

text \<open>
  After an escaped run the cursor has advanced by the length of what was pushed,
  the seventeen characters of the two markers included: behind \<open>ab\<close>, the run
  \<open>{{c}}\<close> with the range 2 to 7 and \<open>d\<close> it is 25, where the offset into the text
  is 8.
\<close>

lemma cursor_counts_markers:
  "cursor (escapeLoop True ''ab{{c}}d{{e}}''
             [StringTk ''ab'',
              SelfclosingTagTk ''template'' [] (noData\<lparr> tsr := Some (2, 7) \<rparr>),
              StringTk ''d'']
             \<lparr> outTexts = [], nonTextTokenAccum = [], cursor = 0, escWarnings = [] \<rparr>) = 25"
  by code_simp

text \<open>
  C8. When the last token of a run of non-text tokens has no source range,
  \<open>wrapNonTextTokens\<close> takes the end of the text as the end of the range, and when
  the first token has none either, it takes the cursor as the start of the
  range. The cursor is no offset into the text once a run has been escaped. For
  the text \<open>ab{{c}}d{{e}}\<close>, whose first template token carries its source range
  and whose second carries none, the range of the second run starts at 25,
  behind the end of the text: the escaper wraps the empty string. Both warnings
  are written and the serialization returns its text, but the text is
  \<open>ab<nowiki>{{c}}</nowiki>d<nowiki></nowiki>\<close>: the run \<open>{{e}}\<close> is not wrapped
  through the end of the text, it is lost.
\<close>

theorem missing_tsr_after_escaped_run_loses_text:
  "escapeWikiText templateEnv (initialState []) ''ab{{c}}d{{e}}'' =
     (Inr ''ab<nowiki>{{c}}</nowiki>d<nowiki></nowiki>'',
      [NoTsrOnStartToken, NoTsrOnEndToken])
   \<and> discardNowikiMarkers ''ab<nowiki>{{c}}</nowiki>d<nowiki></nowiki>'' = ''ab{{c}}d''
   \<and> fst (serializeDOM templateEnv []
            (Element ''BODY'' [] noData [TextNode ''ab{{c}}d{{e}}''])) =
       Some ''ab<nowiki>{{c}}</nowiki>d<nowiki></nowiki>''"
  by code_simp

section \<open>Single-line mode\<close>

subsection \<open>What the handler functions leave alone\<close>

lemma bodyHandle_keeps [simp]:
  "singleLineMode (snd (snd (bodyHandle e h st tok))) = singleLineMode st"
  "chunks (snd (snd (bodyHandle e h st tok))) = chunks st"
  "singleLine (fst (snd (bodyHandle e h st tok))) = singleLine h"
  by (simp_all add: bodyHandle_def)

lemma idHandle_keeps [simp]:
  "singleLineMode (snd (snd (idHandle v e h st tok))) = singleLineMode st"
  "chunks (snd (snd (idHandle v e h st tok))) = chunks st"
  "singleLine (fst (snd (idHandle v e h st tok))) = singleLine h"
  by (simp_all add: idHandle_def)

lemma listHandler_keeps [simp]:
  "chunks (snd (snd (listHandler b e h st tok))) = chunks st"
  "singleLine (fst (snd (listHandler b e h st tok))) = singleLine h"
  "dropContent (snd (snd (listHandler b e h st tok))) = dropContent st"
  by (cases "isListItem (prevToken st)"; cases "projr (isListItem (prevToken st))";
      auto simp: listHandler_def Let_def split: sum.splits bool.splits)+

lemma listEndHandler_keeps [simp]:
  "singleLineMode (snd (snd (listEndHandler e h st tok))) = singleLineMode st"
  "chunks (snd (snd (listEndHandler e h st tok))) = chunks st"
  "singleLine (fst (snd (listEndHandler e h st tok))) = singleLine h"
  by (simp_all add: listEndHandler_def)

lemma listItemHandler_keeps [simp]:
  "singleLineMode (snd (snd (listItemHandler b e h st tok))) = singleLineMode st"
  "chunks (snd (snd (listItemHandler b e h st tok))) = chunks st"
  "singleLine (fst (snd (listItemHandler b e h st tok))) = singleLine h"
  "dropContent (snd (snd (listItemHandler b e h st tok))) = dropContent st"
  by (auto simp: listItemHandler_def Let_def split: sum.splits bool.splits)

lemma tableTagHandle_keeps [simp]:
  "singleLineMode (snd (snd (tableTagHandle s oe e h st tok))) = singleLineMode st"
  "chunks (snd (snd (tableTagHandle s oe e h st tok))) = chunks st"
  "singleLine (fst (snd (tableTagHandle s oe e h st tok))) = singleLine h"
  by (simp_all add: tableTagHandle_def)

lemma tableEndHandle_keeps [simp]:
  "singleLineMode (snd (snd (tableEndHandle e h st tok))) = singleLineMode st"
  "chunks (snd (snd (tableEndHandle e h st tok))) = chunks st"
  "singleLine (fst (snd (tableEndHandle e h st tok))) = singleLine h"
  by (simp_all add: tableEndHandle_def)

lemma thHandle_keeps [simp]:
  "singleLineMode (snd (snd (thHandle e h st tok))) = singleLineMode st"
  "chunks (snd (snd (thHandle e h st tok))) = chunks st"
  "singleLine (fst (snd (thHandle e h st tok))) = singleLine h"
  by (simp_all add: thHandle_def)

lemma trHandle_keeps [simp]:
  "singleLineMode (snd (snd (trHandle e h st tok))) = singleLineMode st"
  "chunks (snd (snd (trHandle e h st tok))) = chunks st"
  "singleLine (fst (snd (trHandle e h st tok))) = singleLine h"
  by (simp_all add: trHandle_def split: option.splits token.splits)

lemma tdHandle_keeps [simp]:
  "singleLineMode (snd (snd (tdHandle e h st tok))) = singleLineMode st"
  "chunks (snd (snd (tdHandle e h st tok))) = chunks st"
  "singleLine (fst (snd (tdHandle e h st tok))) = singleLine h"
  by (simp_all add: tdHandle_def)

lemma preStartHandle_keeps [simp]:
  "singleLineMode (snd (snd (preStartHandle e h st tok))) = singleLineMode st"
  "chunks (snd (snd (preStartHandle e h st tok))) = chunks st"
  "singleLine (fst (snd (preStartHandle e h st tok))) = singleLine h"
  by (simp_all add: preStartHandle_def)

lemma preEndHandle_keeps [simp]:
  "singleLineMode (snd (snd (preEndHandle e h st tok))) = singleLineMode st"
  "chunks (snd (snd (preEndHandle e h st tok))) = chunks st"
  "singleLine (fst (snd (preEndHandle e h st tok))) = singleLine h"
  by (simp_all add: preEndHandle_def)

lemma htmlTagHandle_keeps [simp]:
  "singleLineMode (snd (snd (htmlTagHandle e h st tok))) = singleLineMode st"
  "chunks (snd (snd (htmlTagHandle e h st tok))) = chunks st"
  "singleLine (fst (snd (htmlTagHandle e h st tok))) = singleLine h"
  by (simp_all add: htmlTagHandle_def serializeHTMLTag_def Let_def)

lemma htmlEndTagHandle_keeps [simp]:
  "singleLineMode (snd (snd (htmlEndTagHandle e h st tok))) = singleLineMode st"
  "chunks (snd (snd (htmlEndTagHandle e h st tok))) = chunks st"
  "singleLine (fst (snd (htmlEndTagHandle e h st tok))) = singleLine h"
  by (simp_all add: htmlEndTagHandle_def serializeHTMLEndTag_def Let_def)

lemma metaHandle_keeps [simp]:
  "singleLineMode (snd (snd (metaHandle e h st tok))) = singleLineMode st"
  "chunks (snd (snd (metaHandle e h st tok))) = chunks st"
  "singleLine (fst (snd (metaHandle e h st tok))) = singleLine h"
  by (simp_all add: metaHandle_def serializeHTMLTag_def Let_def)

lemma spanHandle_keeps [simp]:
  "singleLineMode (snd (snd (spanHandle e h st tok))) = singleLineMode st"
  "chunks (snd (snd (spanHandle e h st tok))) = chunks st"
  "singleLine (fst (snd (spanHandle e h st tok))) = singleLine h"
  by (simp_all add: spanHandle_def Let_def)

lemma spanEndHandle_keeps [simp]:
  "singleLineMode (snd (snd (spanEndHandle e h st tok))) = singleLineMode st"
  "chunks (snd (snd (spanEndHandle e h st tok))) = chunks st"
  "singleLine (fst (snd (spanEndHandle e h st tok))) = singleLine h"
  by (simp_all add: spanEndHandle_def Let_def)

lemma linkHandler_keeps [simp]:
  "singleLineMode (snd (snd (linkHandler e h st tok))) = singleLineMode st"
  "chunks (snd (snd (linkHandler e h st tok))) = chunks st"
  "singleLine (fst (snd (linkHandler e h st tok))) = singleLine h"
  by (simp_all add: linkHandler_def Let_def case_prod_beta split: option.splits)

lemma linkEndHandler_keeps [simp]:
  "singleLineMode (snd (snd (linkEndHandler e h st tok))) = singleLineMode st"
  "chunks (snd (snd (linkEndHandler e h st tok))) = chunks st"
  "singleLine (fst (snd (linkEndHandler e h st tok))) = singleLine h"
  by (simp_all add: linkEndHandler_def Let_def)

subsection \<open>What the handler table leaves alone\<close>

lemma tagHandlers_start_keeps:
  assumes "tagHandlers n = Some (Some (h0, Some f), en)" "\<not> isListTagName n"
  shows "singleLineMode (snd (snd (f e h st tok))) = singleLineMode st"
  using assms
  by (auto simp: tagHandlers_def listTagHandler_def headingTagHandler_def isListTagName_def
      split: if_splits)

lemma tagHandlers_start_chunks:
  assumes "tagHandlers n = Some (Some (h0, Some f), en)"
  shows "chunks (snd (snd (f e h st tok))) = chunks st
       \<and> singleLine (fst (snd (f e h st tok))) = singleLine h"
  using assms
  by (auto simp: tagHandlers_def listTagHandler_def headingTagHandler_def
      split: if_splits)

lemma tagHandlers_end_keeps:
  assumes "tagHandlers n = Some (s, Some (h0, Some f))"
  shows "singleLineMode (snd (snd (f e h st tok))) = singleLineMode st
       \<and> chunks (snd (snd (f e h st tok))) = chunks st
       \<and> singleLine (fst (snd (f e h st tok))) = singleLine h"
  using assms
  by (auto simp: tagHandlers_def listTagHandler_def headingTagHandler_def
      split: if_splits)

lemma tagHandlers_start_singleLine:
  assumes "tagHandlers n = Some (Some (h0, f), en)"
  shows "singleLine h0 = (if isListItemName n then 1 else 0)"
  using assms
  by (auto simp: tagHandlers_def listTagHandler_def headingTagHandler_def isListItemName_def
        emptyHandler_def
      split: if_splits)

lemma tagHandlers_end_singleLine:
  assumes "tagHandlers n = Some (s, Some (h0, f))"
  shows "singleLine h0 = (if isListItemName n then - 1 else 0)"
  using assms
  by (auto simp: tagHandlers_def listTagHandler_def headingTagHandler_def isListItemName_def
        emptyHandler_def
      split: if_splits)

lemma getTokenHandler_cases:
  "getTokenHandler st tok = (emptyHandler, Some htmlTagHandle)
   \<or> getTokenHandler st tok = (emptyHandler, Some htmlEndTagHandle)
   \<or> getTokenHandler st tok = (emptyHandler, None)
   \<or> (wikitextSyntax (tagData tok)
      \<and> (\<exists>s en. tagHandlers (tagName tok) = Some (s, en)
                \<and> (if isStartTag tok then s else en) = Some (getTokenHandler st tok)))"
proof (cases "tagHandlers (tagName tok)")
  case None
  then show ?thesis
    by (simp add: getTokenHandler_def Let_def defaultHTMLTagHandler_def)
next
  case (Some th)
  obtain s en where th: "th = (s, en)" by (cases th)
  show ?thesis
  proof (cases "if isStartTag tok then s else en")
    case None
    with Some th show ?thesis
      by (auto simp: getTokenHandler_def Let_def defaultHTMLTagHandler_def)
  next
    case x: (Some x)
    with Some th show ?thesis
      by (auto simp: getTokenHandler_def Let_def defaultHTMLTagHandler_def wikitextSyntax_def)
  qed
qed

lemma runHandle_chunks:
  "chunks (snd (snd (runHandle e (getTokenHandler st tok) st1 tok))) = chunks st1
   \<and> singleLine (fst (snd (runHandle e (getTokenHandler st tok) st1 tok))) =
       singleLine (fst (getTokenHandler st tok))"
proof -
  obtain h f where hf: "getTokenHandler st tok = (h, f)"
    by (cases "getTokenHandler st tok")
  show ?thesis
  proof (cases f)
    case None
    with hf show ?thesis by (simp add: runHandle_def)
  next
    case (Some g)
    from getTokenHandler_cases [of st tok] hf Some
    consider "g = htmlTagHandle" | "g = htmlEndTagHandle"
      | s en where "tagHandlers (tagName tok) = Some (s, en)" "isStartTag tok" "s = Some (h, Some g)"
      | s en where "tagHandlers (tagName tok) = Some (s, en)" "\<not> isStartTag tok"
          "en = Some (h, Some g)"
      by (auto split: if_splits)
    then show ?thesis
    proof cases
      case 1
      with hf Some show ?thesis by (simp add: runHandle_def)
    next
      case 2
      with hf Some show ?thesis by (simp add: runHandle_def)
    next
      case 3
      with hf Some tagHandlers_start_chunks [of "tagName tok" h g en e h st1 tok]
      show ?thesis by (simp add: runHandle_def)
    next
      case 4
      with hf Some tagHandlers_end_keeps [of "tagName tok" s h g e h st1 tok]
      show ?thesis by (simp add: runHandle_def)
    qed
  qed
qed

lemma runHandle_mode:
  assumes "\<not> (isStartTag tok \<and> wikitextSyntax (tagData tok) \<and> isListTagName (tagName tok))"
  shows "singleLineMode (snd (snd (runHandle e (getTokenHandler st tok) st1 tok))) =
           singleLineMode st1"
proof -
  obtain h f where hf: "getTokenHandler st tok = (h, f)"
    by (cases "getTokenHandler st tok")
  show ?thesis
  proof (cases f)
    case None
    with hf show ?thesis by (simp add: runHandle_def)
  next
    case (Some g)
    from getTokenHandler_cases [of st tok] hf Some
    consider "g = htmlTagHandle" | "g = htmlEndTagHandle"
      | s en where "tagHandlers (tagName tok) = Some (s, en)" "isStartTag tok"
          "wikitextSyntax (tagData tok)" "s = Some (h, Some g)"
      | s en where "tagHandlers (tagName tok) = Some (s, en)" "\<not> isStartTag tok"
          "en = Some (h, Some g)"
      by (auto split: if_splits)
    then show ?thesis
    proof cases
      case 1
      with hf Some show ?thesis by (simp add: runHandle_def)
    next
      case 2
      with hf Some show ?thesis by (simp add: runHandle_def)
    next
      case 3
      with assms have "\<not> isListTagName (tagName tok)" by simp
      with 3 hf Some tagHandlers_start_keeps [of "tagName tok" h g en e h st1 tok]
      show ?thesis by (simp add: runHandle_def)
    next
      case 4
      with hf Some tagHandlers_end_keeps [of "tagName tok" s h g e h st1 tok]
      show ?thesis by (simp add: runHandle_def)
    qed
  qed
qed

lemma item_entries:
  assumes "isListItemName n"
  shows "\<exists>s en. tagHandlers n = Some (Some s, Some en)"
  using assms unfolding isListItemName_def
  by (elim disjE) (simp_all add: tagHandlers_def)

lemma getTokenHandler_item:
  assumes "wikitextSyntax (tagData tok)" "isListItemName (tagName tok)"
  shows "singleLine (fst (getTokenHandler st tok)) = (if isStartTag tok then 1 else - 1)"
  using assms unfolding isListItemName_def
  by (elim disjE)
     (simp_all add: getTokenHandler_def tagHandlers_def Let_def wikitextSyntax_def
        emptyHandler_def)
lemma getTokenHandler_other:
  assumes "\<not> (wikitextSyntax (tagData tok) \<and> isListItemName (tagName tok))"
  shows "singleLine (fst (getTokenHandler st tok)) = 0"
proof -
  obtain h f where hf: "getTokenHandler st tok = (h, f)"
    by (cases "getTokenHandler st tok")
  from getTokenHandler_cases [of st tok]
  consider "getTokenHandler st tok = (emptyHandler, Some htmlTagHandle)"
    | "getTokenHandler st tok = (emptyHandler, Some htmlEndTagHandle)"
    | "getTokenHandler st tok = (emptyHandler, None)"
    | s en where "wikitextSyntax (tagData tok)" "tagHandlers (tagName tok) = Some (s, en)"
        "(if isStartTag tok then s else en) = Some (getTokenHandler st tok)"
    by blast
  then show ?thesis
  proof cases
    case 1
    then show ?thesis by (simp add: emptyHandler_def)
  next
    case 2
    then show ?thesis by (simp add: emptyHandler_def)
  next
    case 3
    then show ?thesis by (simp add: emptyHandler_def)
  next
    case 4
    from 4(1) assms have ni: "\<not> isListItemName (tagName tok)" by simp
    show ?thesis
    proof (cases "isStartTag tok")
      case True
      with 4 hf have "tagHandlers (tagName tok) = Some (Some (h, f), en)" by simp
      from tagHandlers_start_singleLine [OF this] ni hf show ?thesis by simp
    next
      case False
      with 4 hf have "tagHandlers (tagName tok) = Some (s, Some (h, f))" by simp
      from tagHandlers_end_singleLine [OF this] ni hf show ?thesis by simp
    qed
  qed
qed

lemma getTokenHandler_singleLine:
  "singleLine (fst (getTokenHandler st tok)) =
     (if wikitextSyntax (tagData tok) \<and> isListItemName (tagName tok)
      then (if isStartTag tok then 1 else - 1) else 0)"
  using getTokenHandler_item [of tok st] getTokenHandler_other [of tok st]
  by (cases "wikitextSyntax (tagData tok) \<and> isListItemName (tagName tok)") simp_all
subsection \<open>What the text of a token leaves alone\<close>

lemma startTagText_chunks:
  "chunks (snd (snd (startTagText e st tok))) = chunks st
   \<and> singleLine (fst (snd (startTagText e st tok))) = singleLine (fst (getTokenHandler st tok))"
  using runHandle_chunks
          [of e st tok "st\<lparr> prevTagToken := currTagToken st, currTagToken := Some tok \<rparr>"]
  by (simp add: startTagText_def Let_def)

lemma startTagText_mode:
  assumes "\<not> (isStartTag tok \<and> wikitextSyntax (tagData tok) \<and> isListTagName (tagName tok))"
  shows "singleLineMode (snd (snd (startTagText e st tok))) = singleLineMode st"
  using runHandle_mode
          [OF assms, of e st "st\<lparr> prevTagToken := currTagToken st, currTagToken := Some tok \<rparr>"]
  by (simp add: startTagText_def Let_def)

lemma endTagText_chunks:
  "chunks (snd (snd (endTagText e st tok))) = chunks st
   \<and> singleLine (fst (snd (endTagText e st tok))) = singleLine (fst (getTokenHandler st tok))"
proof -
  let ?st1 = "st\<lparr> prevTagToken := currTagToken st, currTagToken := Some tok \<rparr>"
  let ?st2 = "if singleLine (fst (getTokenHandler st tok)) < 0 \<and> singleLineMode ?st1 \<noteq> 0
              then ?st1\<lparr> singleLineMode := singleLineMode ?st1 - 1 \<rparr> else ?st1"
  from runHandle_chunks [of e st tok ?st2] show ?thesis
    by (simp add: endTagText_def Let_def)
qed

lemma endTagText_mode:
  assumes "\<not> isStartTag tok"
  shows "singleLineMode (snd (snd (endTagText e st tok))) =
           (if wikitextSyntax (tagData tok) \<and> isListItemName (tagName tok)
               \<and> \<not> ignore (fst (getTokenHandler st tok))
            then singleLineMode st - 1 else singleLineMode st)"
proof -
  let ?st1 = "st\<lparr> prevTagToken := currTagToken st, currTagToken := Some tok \<rparr>"
  let ?st2 = "if singleLine (fst (getTokenHandler st tok)) < 0 \<and> singleLineMode ?st1 \<noteq> 0
              then ?st1\<lparr> singleLineMode := singleLineMode ?st1 - 1 \<rparr> else ?st1"
  from assms have "\<not> (isStartTag tok \<and> wikitextSyntax (tagData tok) \<and> isListTagName (tagName tok))"
    by simp
  from runHandle_mode [OF this, of e st ?st2] assms show ?thesis
    by (auto simp: endTagText_def Let_def getTokenHandler_singleLine)
qed

subsection \<open>A token in single-line mode\<close>

lemma newlinesInFront_chunk:
  assumes "CHR ''\<newline>'' \<notin> set body"
  shows "newlinesInFront (replicate k CHR ''\<newline>'' @ body)"
proof -
  have "dropWhile (\<lambda>x. x = CHR ''\<newline>'') (replicate k CHR ''\<newline>'' @ body) =
          dropWhile (\<lambda>x. x = CHR ''\<newline>'') body"
    by (rule dropWhile_append2) simp
  with assms show ?thesis
    by (auto simp: newlinesInFront_def dest: set_dropWhileD)
qed

lemma chunks_extended_twice:
  assumes "take (length a) b = a" "list_all P (drop (length a) b)"
    and "take (length b) c = b" "list_all P (drop (length b) c)"
  shows "take (length a) c = a \<and> list_all P (drop (length a) c)"
proof -
  from assms(1) have b: "b = a @ drop (length a) b"
    by (metis append_take_drop_id)
  from assms(3) have c: "c = b @ drop (length b) c"
    by (metis append_take_drop_id)
  from b c have "c = a @ (drop (length a) b @ drop (length b) c)"
    by (metis append_assoc)
  then have "take (length a) c = a"
    and "drop (length a) c = drop (length a) b @ drop (length b) c"
    by (metis append_eq_conv_conj)+
  with assms(2,4) show ?thesis by simp
qed

lemma stripNewlines_keeps:
  assumes "stripNewlines res st = Some (r, n, st1)"
  shows "singleLineMode st1 = singleLineMode st \<and> chunks st1 = chunks st"
  using assms
  by (auto simp: stripNewlines_def split: if_splits option.splits prod.splits)

lemma pairSeparator_keeps [simp]:
  "singleLineMode (pairSeparator h tok st) = singleLineMode st"
  "chunks (pairSeparator h tok st) = chunks st"
  by (simp_all add: pairSeparator_def)

lemma emitText_mode [simp]: "singleLineMode (emitText h res n st) = singleLineMode st"
  by (simp add: emitText_def Let_def)

lemma emitRes_single_line:
  assumes "0 < singleLineMode st" "singleLine h \<le> 0"
  shows "singleLineMode (snd (emitRes h tok res0 st)) = singleLineMode st
       \<and> take (length (chunks st)) (chunks (snd (emitRes h tok res0 st))) = chunks st
       \<and> list_all newlinesInFront
           (drop (length (chunks st)) (chunks (snd (emitRes h tok res0 st))))"
proof (cases "stripNewlines res0 st")
  case None
  then show ?thesis by (simp add: emitRes_def)
next
  case (Some x)
  obtain res n st1 where x: "x = (res, n, st1)" by (cases x)
  from Some x stripNewlines_keeps [of res0 st res n st1]
  have k1: "singleLineMode st1 = singleLineMode st" "chunks st1 = chunks st"
    by simp_all
  let ?st2 = "pairSeparator h tok st1"
  show ?thesis
  proof (cases "res = []")
    case True
    with Some x k1 assms show ?thesis
      by (simp add: emitRes_def Let_def)
  next
    case False
    from assms(1) k1 have on: "singleLineMode ?st2 \<noteq> 0" by simp
    have body: "CHR ''\<newline>'' \<notin> set (newlinesToSpaces (stripDropTail (dropTail ?st2) res))"
      by (rule newlinesToSpaces_no_newline)
    from on have ch: "chunks (emitText h res n ?st2) =
        chunks st @ [replicate (availableNewlineCount ?st2) CHR ''\<newline>''
                     @ newlinesToSpaces (stripDropTail (dropTail ?st2) res)]"
      by (simp add: emitText_chunks k1)
    from False Some x k1 assms ch newlinesInFront_chunk [OF body] show ?thesis
      by (simp add: emitRes_def Let_def)
  qed
qed

lemma stringText_keeps:
  "singleLineMode (snd (snd (stringText e st s))) = singleLineMode st
   \<and> chunks (snd (snd (stringText e st s))) = chunks st
   \<and> fst (snd (stringText e st s)) = emptyHandler"
  by (simp add: stringText_def split: prod.splits sum.splits)

lemma tokenText_single_line:
  assumes "tok \<noteq> EOFTk"
    and "\<not> (wikitextSyntax (tagData tok)
            \<and> (isListTagName (tagName tok) \<or> isListItemName (tagName tok)))"
  shows "singleLineMode (snd (snd (tokenText e st tok))) = singleLineMode st
       \<and> chunks (snd (snd (tokenText e st tok))) = chunks st
       \<and> singleLine (fst (snd (tokenText e st tok))) \<le> 0"
proof (cases tok)
  case (TagTk n a d)
  with assms(2) startTagText_mode [of tok e st] startTagText_chunks [of e st tok]
  show ?thesis by (auto simp: getTokenHandler_singleLine)
next
  case (SelfclosingTagTk n a d)
  with assms(2) startTagText_mode [of tok e st] startTagText_chunks [of e st tok]
  show ?thesis by (auto simp: getTokenHandler_singleLine)
next
  case (EndTagTk n a d)
  with assms(2) endTagText_mode [of tok e st] endTagText_chunks [of e st tok]
  show ?thesis by (auto simp: getTokenHandler_singleLine)
next
  case (StringTk s)
  with stringText_keeps [of e st s] show ?thesis by (simp add: emptyHandler_def)
next
  case (CommentTk v d)
  then show ?thesis by (simp add: emptyHandler_def)
next
  case (NlTk d)
  then show ?thesis by (simp add: emptyHandler_def)
next
  case EOFTk
  with assms(1) show ?thesis by simp
qed

lemma serializeToken_single_line:
  assumes "0 < singleLineMode st" "tok \<noteq> EOFTk"
    and "\<not> (wikitextSyntax (tagData tok)
            \<and> (isListTagName (tagName tok) \<or> isListItemName (tagName tok)))"
  shows "singleLineMode (snd (serializeToken e st tok)) = singleLineMode st
       \<and> take (length (chunks st)) (chunks (snd (serializeToken e st tok))) = chunks st
       \<and> list_all newlinesInFront
           (drop (length (chunks st)) (chunks (snd (serializeToken e st tok))))"
proof -
  let ?st = "st\<lparr> prevToken := curToken st, curToken := Some tok \<rparr>"
  obtain r h st1 where tt: "tokenText e ?st tok = (r, h, st1)"
    by (cases "tokenText e ?st tok")
  from tokenText_single_line [OF assms(2,3), of e ?st] tt
  have k: "singleLineMode st1 = singleLineMode st" "chunks st1 = chunks st" "singleLine h \<le> 0"
    by simp_all
  show ?thesis
  proof (cases r)
    case (Inl err)
    with tt k show ?thesis by (simp add: serializeToken_def Let_def)
  next
    case (Inr res)
    from assms(1) k have on: "0 < singleLineMode st1" by simp
    from emitRes_single_line [OF on k(3), of tok res] Inr tt k show ?thesis
      by (simp add: serializeToken_def Let_def)
  qed
qed

subsection \<open>Contents without a list\<close>

lemma serializeNode_single_line:
  "0 < singleLineMode st \<Longrightarrow> holdsNoList n \<Longrightarrow>
     singleLineMode (snd (serializeNode e n st)) = singleLineMode st
     \<and> take (length (chunks st)) (chunks (snd (serializeNode e n st))) = chunks st
     \<and> list_all newlinesInFront
         (drop (length (chunks st)) (chunks (snd (serializeNode e n st))))"
  and serializeChildren_single_line:
  "0 < singleLineMode st \<Longrightarrow> holdsNoLists cs \<Longrightarrow>
     singleLineMode (snd (serializeChildren e cs st)) = singleLineMode st
     \<and> take (length (chunks st)) (chunks (snd (serializeChildren e cs st))) = chunks st
     \<and> list_all newlinesInFront
         (drop (length (chunks st)) (chunks (snd (serializeChildren e cs st))))"
proof (induction e n st and e cs st rule: serializeNode_serializeChildren.induct)
  case (1 e nodeName as rt children st)
  let ?name = "toLowerCase nodeName"
  let ?open = "TagTk ?name (getDOMAttribs as) rt"
  let ?close = "EndTagTk ?name (getDOMAttribs as) rt"
  from "1.prems"(2)
  have cls: "\<not> (wikitextSyntax rt \<and> (isListTagName ?name \<or> isListItemName ?name))"
    and kids: "holdsNoLists children"
    by simp_all
  from cls have c1: "\<not> (wikitextSyntax (tagData ?open)
      \<and> (isListTagName (tagName ?open) \<or> isListItemName (tagName ?open)))"
    and c2: "\<not> (wikitextSyntax (tagData ?close)
      \<and> (isListTagName (tagName ?close) \<or> isListItemName (tagName ?close)))"
    by (simp_all add: tagData_def tagName_def)
  obtain r1 st1 where s1: "serializeToken e st ?open = (r1, st1)"
    by (cases "serializeToken e st ?open")
  from serializeToken_single_line [OF "1.prems"(1) _ c1, of e] s1
  have k1: "singleLineMode st1 = singleLineMode st"
    "take (length (chunks st)) (chunks st1) = chunks st"
    "list_all newlinesInFront (drop (length (chunks st)) (chunks st1))"
    by simp_all
  show ?case
  proof (cases r1)
    case (Some err)
    with s1 k1 show ?thesis by simp
  next
    case None
    obtain r2 st2 where s2: "serializeChildren e children st1 = (r2, st2)"
      by (cases "serializeChildren e children st1")
    from "1.prems"(1) k1 have on1: "0 < singleLineMode st1" by simp
    from "1.IH" [OF refl refl _ _ on1 kids] s1 None s2
    have k2: "singleLineMode st2 = singleLineMode st1"
      "take (length (chunks st1)) (chunks st2) = chunks st1"
      "list_all newlinesInFront (drop (length (chunks st1)) (chunks st2))"
      by simp_all
    note k12 = chunks_extended_twice [OF k1(2,3) k2(2,3)]
    show ?thesis
    proof (cases r2)
      case (Some err)
      with s1 None s2 k1 k2 k12 show ?thesis by simp
    next
      case n2: None
      from on1 k2 have on2: "0 < singleLineMode st2" by simp
      from serializeToken_single_line [OF on2 _ c2, of e]
      have k3: "singleLineMode (snd (serializeToken e st2 ?close)) = singleLineMode st2"
        "take (length (chunks st2)) (chunks (snd (serializeToken e st2 ?close))) = chunks st2"
        "list_all newlinesInFront
           (drop (length (chunks st2)) (chunks (snd (serializeToken e st2 ?close))))"
        by simp_all
      from chunks_extended_twice [OF k12 [THEN conjunct1] k12 [THEN conjunct2] k3(2,3)]
        s1 None s2 n2 k1 k2 k3 show ?thesis by simp
    qed
  qed
next
  case (2 e s st)
  from serializeToken_single_line [OF "2.prems"(1), of "StringTk s" e]
  show ?case by (simp add: tagData_def tagName_def isListTagName_def isListItemName_def)
next
  case (3 e s st)
  let ?st = "st\<lparr> emitNewlineOnNextToken := False \<rparr>"
  from "3.prems"(1) have on: "0 < singleLineMode ?st" by simp
  obtain r1 st1 where s1: "serializeToken e ?st (CommentTk s noData) = (r1, st1)"
    by (cases "serializeToken e ?st (CommentTk s noData)")
  from serializeToken_single_line [OF on, of "CommentTk s noData" e] s1
  have "singleLineMode st1 = singleLineMode st"
    "take (length (chunks st)) (chunks st1) = chunks st"
    "list_all newlinesInFront (drop (length (chunks st)) (chunks st1))"
    by (simp_all add: tagData_def tagName_def isListTagName_def isListItemName_def)
  with s1 show ?case
    by (cases r1) simp_all
next
  case (4 e st)
  then show ?case by simp
next
  case (5 e st)
  then show ?case by simp
next
  case (6 e c cs st)
  obtain r1 st1 where s1: "serializeNode e c st = (r1, st1)"
    by (cases "serializeNode e c st")
  from "6.prems"(2) have hc: "holdsNoList c" and hcs: "holdsNoLists cs"
    by simp_all
  from "6.IH"(1) [OF "6.prems"(1) hc] s1
  have k1: "singleLineMode st1 = singleLineMode st"
    "take (length (chunks st)) (chunks st1) = chunks st"
    "list_all newlinesInFront (drop (length (chunks st)) (chunks st1))"
    by simp_all
  show ?case
  proof (cases r1)
    case (Some err)
    with s1 k1 show ?thesis by simp
  next
    case None
    from "6.prems"(1) k1 have on1: "0 < singleLineMode st1" by simp
    from "6.IH"(2) [OF _ _ on1 hcs] s1 None
    have k2: "singleLineMode (snd (serializeChildren e cs st1)) = singleLineMode st1"
      "take (length (chunks st1)) (chunks (snd (serializeChildren e cs st1))) = chunks st1"
      "list_all newlinesInFront
         (drop (length (chunks st1)) (chunks (snd (serializeChildren e cs st1))))"
      by simp_all
    from chunks_extended_twice [OF k1(2,3) k2(2,3)] s1 None k1 k2 show ?thesis by simp
  qed
qed

subsection \<open>A token that buffers nothing\<close>

lemma stripGuards_guardNewlines: "stripGuards (guardNewlines s) = s"
proof (induction s)
  case Nil
  then show ?case by (simp add: guardNewlines_def)
next
  case (Cons c cs)
  have g: "guardNewlines (c # cs) =
             (if c = CHR ''\<newline>'' then [c, CHR ''_''] else [c]) @ guardNewlines cs"
    by (simp add: guardNewlines_def)
  show ?case
  proof (cases "c = CHR ''\<newline>''")
    case True
    with g Cons.IH show ?thesis by simp
  next
    case False
    with g Cons.IH show ?thesis
      by (cases "guardNewlines cs") simp_all
  qed
qed

lemma escapeWikiText_plain_tokenizer:
  assumes "tokenizer e = (\<lambda>s. [StringTk s, EOFTk])"
  shows "escapeWikiText e st s = (Inr s, [])"
proof -
  have g: "guardNewlines (CHR ''_'' # s) = CHR ''_'' # guardNewlines s"
    by (simp add: guardNewlines_def)
  have e1: "guardNewlines s = [] \<longleftrightarrow> s = []"
    by (cases s) (simp_all add: guardNewlines_def)
  have e0: "guardNewlines [] = []" "guardNewlines ''_'' = ''_''"
    by (simp_all add: guardNewlines_def)
  show ?thesis
    using assms
    by (cases "s = []"; cases "inNewLineContext st"; cases "inIndentPre st")
       (simp_all add: escapeWikiText_def wrapNonTextTokens_def Let_def g e0 e1
          stripGuards_guardNewlines)
qed

lemma noLineBreakAtEnds_preTextHandler:
  assumes "noLineBreakAtEnds s"
  shows "noLineBreakAtEnds (preTextHandler s)"
proof (cases "s = []")
  case True
  then show ?thesis by (simp add: preTextHandler_def noLineBreakAtEnds_def)
next
  case False
  with assms have ends: "\<not> isCRLF (hd s)" "\<not> isCRLF (last s)"
    by (simp_all add: noLineBreakAtEnds_def)
  from False obtain c cs where s: "s = c # cs" by (cases s) auto
  from False obtain ds d where s': "s = ds @ [d]" by (cases s rule: rev_cases) auto
  from s ends(1) have h: "hd (preTextHandler s) = c" "preTextHandler s \<noteq> []"
    by (simp_all add: preTextHandler_def isCRLF_def)
  from s' ends(2) have l: "last (preTextHandler s) = d"
    by (simp add: preTextHandler_def isCRLF_def)
  from s have "hd s = c" by simp
  moreover from s' have "last s = d" by simp
  ultimately show ?thesis
    using h l ends by (simp add: noLineBreakAtEnds_def)
qed

lemma stringText_quiet:
  assumes "tokenizer e = (\<lambda>s. [StringTk s, EOFTk])" "noLineBreakAtEnds s"
  shows "\<exists>r. stringText e st s = (Inr r, emptyHandler, st) \<and> noLineBreakAtEnds r"
  using assms noLineBreakAtEnds_preTextHandler [of s]
  by (simp add: stringText_def escapeWikiText_plain_tokenizer)

lemma stripNewlines_ends:
  assumes "noLineBreakAtEnds res"
  shows "stripNewlines res st = Some (res, 0, st)"
proof (cases "res = []")
  case True
  then show ?thesis by (simp add: stripNewlines_def)
next
  case False
  with assms have ends: "\<not> isCRLF (hd res)" "\<not> isCRLF (last res)"
    by (simp_all add: noLineBreakAtEnds_def)
  from False ends(1) have lead: "leadingNewlines res = ([], res)"
    by (rule leadingNewlines_plain)
  from False ends(2) have "dropWhile isCRLF (rev res) = rev res"
    by (cases res rule: rev_cases) simp_all
  with lead have "matchNewlines res = Some ([], res, [])"
    by (simp add: matchNewlines_def)
  with False show ?thesis
    by (simp add: stripNewlines_def countNewlines_def)
qed

lemma emitRes_quiet:
  assumes "0 < singleLineMode st" "availableNewlineCount st = 0"
    and "singleLine h = 0" "pairSepNLCount h = 0" "noLineBreakAtEnds res"
  shows "fst (emitRes h tok res st) = None
       \<and> singleLineMode (snd (emitRes h tok res st)) = singleLineMode st
       \<and> availableNewlineCount (snd (emitRes h tok res st)) = 0
       \<and> take (length (chunks st)) (chunks (snd (emitRes h tok res st))) = chunks st
       \<and> list_all (\<lambda>c. CHR ''\<newline>'' \<notin> set c)
           (drop (length (chunks st)) (chunks (snd (emitRes h tok res st))))"
proof -
  from assms(4) have ps: "pairSeparator h tok st = st"
    by (simp add: pairSeparator_def)
  show ?thesis
  proof (cases "res = []")
    case True
    with assms ps show ?thesis
      by (simp add: emitRes_def stripNewlines_def Let_def)
  next
    case False
    from assms(1,2) have ch: "chunks (emitText h res 0 st) =
        chunks st @ [newlinesToSpaces (stripDropTail (dropTail st) res)]"
      by (simp add: emitText_chunks)
    from assms(1,2) have nl: "availableNewlineCount (emitText h res 0 st) = 0"
      by (simp add: emitText_def Let_def)
    from False assms ps ch nl show ?thesis
      by (simp add: emitRes_def stripNewlines_ends Let_def newlinesToSpaces_no_newline)
  qed
qed

lemma getTokenHandler_writtenAsTag:
  assumes "writtenAsTag (tagName tok) (tagData tok)" "singleLineMode st \<noteq> 0"
  shows "getTokenHandler st tok =
           (emptyHandler, Some (if isStartTag tok then htmlTagHandle else htmlEndTagHandle))
       \<or> (\<exists>q. getTokenHandler st tok = (emptyHandler, Some (idHandle q))
               \<and> noLineBreakAtEnds q)"
proof -
  from assms(1)
  consider "stx (tagData tok) = Some ''html''" | "tagHandlers (tagName tok) = None"
    | "tagName tok = ''p''" | "tagName tok = ''b''" | "tagName tok = ''i''"
    by (auto simp: writtenAsTag_def split: option.splits)
  then show ?thesis
    using assms(2)
    by cases
       (auto simp: getTokenHandler_def tagHandlers_def defaultHTMLTagHandler_def Let_def
          noLineBreakAtEnds_def isCRLF_def)
qed

lemma htmlTagHandle_text:
  "\<exists>r st1. htmlTagHandle e h st tok = (Inr r, h, st1) \<and> noLineBreakAtEnds r
      \<and> singleLineMode st1 = singleLineMode st
      \<and> availableNewlineCount st1 = availableNewlineCount st \<and> chunks st1 = chunks st"
  by (simp add: htmlTagHandle_def serializeHTMLTag_def Let_def noLineBreakAtEnds_def
        isCRLF_def)

lemma htmlEndTagHandle_text:
  "\<exists>r st1. htmlEndTagHandle e h st tok = (Inr r, h, st1) \<and> noLineBreakAtEnds r
      \<and> singleLineMode st1 = singleLineMode st
      \<and> availableNewlineCount st1 = availableNewlineCount st \<and> chunks st1 = chunks st"
  by (simp add: htmlEndTagHandle_def serializeHTMLEndTag_def Let_def noLineBreakAtEnds_def
        isCRLF_def)

lemma runHandle_writtenAsTag:
  assumes "writtenAsTag (tagName tok) (tagData tok)" "singleLineMode st \<noteq> 0"
  shows "\<exists>r st2. runHandle e (getTokenHandler st tok) st1 tok = (Inr r, emptyHandler, st2)
      \<and> noLineBreakAtEnds r
      \<and> singleLineMode st2 = singleLineMode st1
      \<and> availableNewlineCount st2 = availableNewlineCount st1 \<and> chunks st2 = chunks st1"
proof -
  from getTokenHandler_writtenAsTag [OF assms]
  consider "getTokenHandler st tok = (emptyHandler, Some htmlTagHandle)"
    | "getTokenHandler st tok = (emptyHandler, Some htmlEndTagHandle)"
    | q where "getTokenHandler st tok = (emptyHandler, Some (idHandle q))" "noLineBreakAtEnds q"
    by (auto split: if_splits)
  then show ?thesis
  proof cases
    case 1
    with htmlTagHandle_text [of e emptyHandler st1 tok] show ?thesis
      by (simp add: runHandle_def)
  next
    case 2
    with htmlEndTagHandle_text [of e emptyHandler st1 tok] show ?thesis
      by (simp add: runHandle_def)
  next
    case 3
    then show ?thesis
      by (simp add: runHandle_def idHandle_def)
  qed
qed

lemma tagText_quiet:
  assumes "writtenAsTag n d" "singleLineMode st \<noteq> 0"
    and "tok = TagTk n a d \<or> tok = EndTagTk n a d"
  shows "\<exists>r st1. tokenText e st tok = (Inr r, emptyHandler, st1) \<and> noLineBreakAtEnds r
      \<and> singleLineMode st1 = singleLineMode st
      \<and> availableNewlineCount st1 = availableNewlineCount st \<and> chunks st1 = chunks st"
proof -
  from assms(1,3) have w: "writtenAsTag (tagName tok) (tagData tok)"
    by (auto simp: tagName_def tagData_def)
  let ?st1 = "st\<lparr> prevTagToken := currTagToken st, currTagToken := Some tok \<rparr>"
  from runHandle_writtenAsTag [OF w assms(2), of e ?st1]
  obtain r st2 where run: "runHandle e (getTokenHandler st tok) ?st1 tok = (Inr r, emptyHandler, st2)"
    "noLineBreakAtEnds r" "singleLineMode st2 = singleLineMode st"
    "availableNewlineCount st2 = availableNewlineCount st" "chunks st2 = chunks st"
    by auto
  from run(1) have h: "fst (getTokenHandler st tok) = emptyHandler"
    using getTokenHandler_writtenAsTag [OF w assms(2)] by auto
  from assms(3) show ?thesis
  proof
    assume "tok = TagTk n a d"
    with run h show ?thesis
      by (simp add: startTagText_def Let_def emptyHandler_def)
  next
    assume "tok = EndTagTk n a d"
    with run h show ?thesis
      by (simp add: endTagText_def Let_def emptyHandler_def)
  qed
qed

lemma serializeToken_buffers_nothing:
  assumes "0 < singleLineMode st" "availableNewlineCount st = 0"
    and "tokenText e (st\<lparr> prevToken := curToken st, curToken := Some tok \<rparr>) tok =
           (Inr r, h, st1)"
    and "noLineBreakAtEnds r" "singleLine h = 0" "pairSepNLCount h = 0"
    and "singleLineMode st1 = singleLineMode st"
      "availableNewlineCount st1 = availableNewlineCount st" "chunks st1 = chunks st"
  shows "fst (serializeToken e st tok) = None
       \<and> singleLineMode (snd (serializeToken e st tok)) = singleLineMode st
       \<and> availableNewlineCount (snd (serializeToken e st tok)) = 0
       \<and> take (length (chunks st)) (chunks (snd (serializeToken e st tok))) = chunks st
       \<and> list_all (\<lambda>c. CHR ''\<newline>'' \<notin> set c)
           (drop (length (chunks st)) (chunks (snd (serializeToken e st tok))))"
proof -
  from assms have on: "0 < singleLineMode st1" "availableNewlineCount st1 = 0"
    by simp_all
  from emitRes_quiet [OF on assms(5,6,4), of tok] assms(3,7,8,9) assms(2)
  show ?thesis
    by (simp add: serializeToken_def Let_def)
qed

subsection \<open>Contents that buffer nothing\<close>

lemma serializeNode_buffers_nothing:
  "tokenizer e = (\<lambda>s. [StringTk s, EOFTk]) \<Longrightarrow>
   0 < singleLineMode st \<Longrightarrow> availableNewlineCount st = 0 \<Longrightarrow> buffersNothing n \<Longrightarrow>
     fst (serializeNode e n st) = None
     \<and> singleLineMode (snd (serializeNode e n st)) = singleLineMode st
     \<and> availableNewlineCount (snd (serializeNode e n st)) = 0
     \<and> take (length (chunks st)) (chunks (snd (serializeNode e n st))) = chunks st
     \<and> list_all (\<lambda>c. CHR ''\<newline>'' \<notin> set c)
         (drop (length (chunks st)) (chunks (snd (serializeNode e n st))))"
  and serializeChildren_buffers_nothing:
  "tokenizer e = (\<lambda>s. [StringTk s, EOFTk]) \<Longrightarrow>
   0 < singleLineMode st \<Longrightarrow> availableNewlineCount st = 0 \<Longrightarrow> buffersNothingAll cs \<Longrightarrow>
     fst (serializeChildren e cs st) = None
     \<and> singleLineMode (snd (serializeChildren e cs st)) = singleLineMode st
     \<and> availableNewlineCount (snd (serializeChildren e cs st)) = 0
     \<and> take (length (chunks st)) (chunks (snd (serializeChildren e cs st))) = chunks st
     \<and> list_all (\<lambda>c. CHR ''\<newline>'' \<notin> set c)
         (drop (length (chunks st)) (chunks (snd (serializeChildren e cs st))))"
proof (induction e n st and e cs st rule: serializeNode_serializeChildren.induct)
  case (1 e nodeName as rt children st)
  let ?name = "toLowerCase nodeName"
  let ?open = "TagTk ?name (getDOMAttribs as) rt"
  let ?close = "EndTagTk ?name (getDOMAttribs as) rt"
  note tz = "1.prems"(1)
  from "1.prems"(4) have w: "writtenAsTag ?name rt" and kids: "buffersNothingAll children"
    by simp_all
  from "1.prems"(2) have on: "singleLineMode st \<noteq> 0" by simp
  let ?st = "st\<lparr> prevToken := curToken st, curToken := Some ?open \<rparr>"
  from on have on': "singleLineMode ?st \<noteq> 0" by simp
  from tagText_quiet [OF w on', of ?open "getDOMAttribs as" e]
  obtain r0 st0 where t1: "tokenText e ?st ?open = (Inr r0, emptyHandler, st0)"
    "noLineBreakAtEnds r0" "singleLineMode st0 = singleLineMode st"
    "availableNewlineCount st0 = availableNewlineCount st" "chunks st0 = chunks st"
    by auto
  obtain r1 st1 where s1: "serializeToken e st ?open = (r1, st1)"
    by (cases "serializeToken e st ?open")
  from serializeToken_buffers_nothing [OF "1.prems"(2,3) t1(1,2) _ _ t1(3,4,5)] s1
  have k1: "r1 = None" "singleLineMode st1 = singleLineMode st" "availableNewlineCount st1 = 0"
    "take (length (chunks st)) (chunks st1) = chunks st"
    "list_all (\<lambda>c. CHR ''\<newline>'' \<notin> set c) (drop (length (chunks st)) (chunks st1))"
    by (simp_all add: emptyHandler_def)
  obtain r2 st2 where s2: "serializeChildren e children st1 = (r2, st2)"
    by (cases "serializeChildren e children st1")
  from "1.prems"(2) k1 have on1: "0 < singleLineMode st1" by simp
  from "1.IH" [OF refl refl _ _ tz on1 k1(3) kids] s1 k1(1) s2
  have k2: "r2 = None" "singleLineMode st2 = singleLineMode st1" "availableNewlineCount st2 = 0"
    "take (length (chunks st1)) (chunks st2) = chunks st1"
    "list_all (\<lambda>c. CHR ''\<newline>'' \<notin> set c) (drop (length (chunks st1)) (chunks st2))"
    by simp_all
  note k12 = chunks_extended_twice [OF k1(4,5) k2(4,5)]
  from on1 k2 have on2: "0 < singleLineMode st2" by simp
  let ?st2 = "st2\<lparr> prevToken := curToken st2, curToken := Some ?close \<rparr>"
  from on2 have on2': "singleLineMode ?st2 \<noteq> 0" by simp
  from tagText_quiet [OF w on2', of ?close "getDOMAttribs as" e]
  obtain r3 st3 where t3: "tokenText e ?st2 ?close = (Inr r3, emptyHandler, st3)"
    "noLineBreakAtEnds r3" "singleLineMode st3 = singleLineMode st2"
    "availableNewlineCount st3 = availableNewlineCount st2" "chunks st3 = chunks st2"
    by auto
  from serializeToken_buffers_nothing [OF on2 k2(3) t3(1,2) _ _ t3(3,4,5)]
  have k3: "fst (serializeToken e st2 ?close) = None"
    "singleLineMode (snd (serializeToken e st2 ?close)) = singleLineMode st2"
    "availableNewlineCount (snd (serializeToken e st2 ?close)) = 0"
    "take (length (chunks st2)) (chunks (snd (serializeToken e st2 ?close))) = chunks st2"
    "list_all (\<lambda>c. CHR ''\<newline>'' \<notin> set c)
       (drop (length (chunks st2)) (chunks (snd (serializeToken e st2 ?close))))"
    by (simp_all add: emptyHandler_def)
  from chunks_extended_twice [OF k12 [THEN conjunct1] k12 [THEN conjunct2] k3(4,5)]
    s1 s2 k1 k2 k3 show ?case by simp
next
  case (2 e s st)
  let ?st = "st\<lparr> prevToken := curToken st, curToken := Some (StringTk s) \<rparr>"
  from "2.prems"(4) have ends: "noLineBreakAtEnds s" by simp
  from stringText_quiet [OF "2.prems"(1) ends, of ?st]
  obtain r where t: "tokenText e ?st (StringTk s) = (Inr r, emptyHandler, ?st)"
    "noLineBreakAtEnds r"
    by auto
  from serializeToken_buffers_nothing [OF "2.prems"(2,3) t(1,2)]
  show ?case by (simp add: emptyHandler_def)
next
  case (3 e s st)
  let ?quiet = "st\<lparr> emitNewlineOnNextToken := False \<rparr>"
  let ?cur = "?quiet\<lparr> prevToken := curToken ?quiet, curToken := Some (CommentTk s noData) \<rparr>"
  from "3.prems"(2,3) have on: "0 < singleLineMode ?quiet" "availableNewlineCount ?quiet = 0"
    by simp_all
  have t: "tokenText e ?cur (CommentTk s noData) =
             (Inr (''<!--'' @ s @ ''-->''), emptyHandler\<lparr> newlineTransparent := True \<rparr>, ?cur)"
    by simp
  have ends: "noLineBreakAtEnds (''<!--'' @ s @ ''-->'')"
    by (simp add: noLineBreakAtEnds_def isCRLF_def)
  obtain r1 st1 where s1: "serializeToken e ?quiet (CommentTk s noData) = (r1, st1)"
    by (cases "serializeToken e ?quiet (CommentTk s noData)")
  from serializeToken_buffers_nothing [OF on t ends] s1
  have "r1 = None" "singleLineMode st1 = singleLineMode st" "availableNewlineCount st1 = 0"
    "take (length (chunks st)) (chunks st1) = chunks st"
    "list_all (\<lambda>c. CHR ''\<newline>'' \<notin> set c) (drop (length (chunks st)) (chunks st1))"
    by (simp_all add: emptyHandler_def)
  with s1 show ?case by simp
next
  case (4 e st)
  then show ?case by simp
next
  case (5 e st)
  then show ?case by simp
next
  case (6 e c cs st)
  obtain r1 st1 where s1: "serializeNode e c st = (r1, st1)"
    by (cases "serializeNode e c st")
  from "6.prems"(4) have hc: "buffersNothing c" and hcs: "buffersNothingAll cs"
    by simp_all
  from "6.IH"(1) [OF "6.prems"(1,2,3) hc] s1
  have k1: "r1 = None" "singleLineMode st1 = singleLineMode st" "availableNewlineCount st1 = 0"
    "take (length (chunks st)) (chunks st1) = chunks st"
    "list_all (\<lambda>c. CHR ''\<newline>'' \<notin> set c) (drop (length (chunks st)) (chunks st1))"
    by simp_all
  from "6.prems"(2) k1 have on1: "0 < singleLineMode st1" by simp
  from "6.IH"(2) [OF _ _ "6.prems"(1) on1 k1(3) hcs] s1 k1(1)
  have k2: "fst (serializeChildren e cs st1) = None"
    "singleLineMode (snd (serializeChildren e cs st1)) = singleLineMode st1"
    "availableNewlineCount (snd (serializeChildren e cs st1)) = 0"
    "take (length (chunks st1)) (chunks (snd (serializeChildren e cs st1))) = chunks st1"
    "list_all (\<lambda>c. CHR ''\<newline>'' \<notin> set c)
       (drop (length (chunks st1)) (chunks (snd (serializeChildren e cs st1))))"
    by simp_all
  from chunks_extended_twice [OF k1(4,5) k2(4,5)] s1 k1 k2 show ?case by simp
qed

subsection \<open>The tags of lists and list items\<close>

lemma emitRes_mode:
  "singleLineMode (snd (emitRes h tok res st)) =
     (if fst (emitRes h tok res st) = None \<and> 0 < singleLine h
      then singleLineMode st + nat (singleLine h) else singleLineMode st)"
proof (cases "stripNewlines res st")
  case None
  then show ?thesis by (simp add: emitRes_def)
next
  case (Some x)
  obtain r n st1 where x: "x = (r, n, st1)" by (cases x)
  from Some x stripNewlines_keeps [of res st r n st1]
  have "singleLineMode st1 = singleLineMode st" by simp
  with Some x show ?thesis
    by (simp add: emitRes_def Let_def)
qed

lemma emitRes_silent_chunks: "chunks (snd (emitRes h tok [] st)) = chunks st"
  by (simp add: emitRes_def stripNewlines_def Let_def)

lemma list_start_lowers_mode:
  assumes "isListTagName n" "wikitextSyntax d"
  shows "singleLineMode (snd (serializeToken e st (TagTk n a d))) = singleLineMode st - 1"
proof -
  let ?tok = "TagTk n a d"
  let ?cur = "st\<lparr> prevToken := curToken st, curToken := Some ?tok \<rparr>"
  let ?tag = "?cur\<lparr> prevTagToken := currTagToken ?cur, currTagToken := Some ?tok \<rparr>"
  from assms obtain b h where gh: "getTokenHandler ?cur ?tok = (h, Some (listHandler b))"
    "singleLine h = 0" "\<not> ignore h"
    unfolding isListTagName_def
    by (elim disjE)
       (simp_all add: getTokenHandler_def tagHandlers_def listTagHandler_def Let_def
          wikitextSyntax_def tagName_def tagData_def emptyHandler_def)
  obtain r h1 st1 where lh: "listHandler b e h ?tag ?tok = (r, h1, st1)"
    by (cases "listHandler b e h ?tag ?tok")
  from lh listHandler_singleLineMode [of b e h ?tag ?tok] listHandler_keeps(2) [of b e h ?tag ?tok]
  have k: "singleLineMode st1 = singleLineMode st - 1" "singleLine h1 = singleLine h"
    by simp_all
  from gh lh have tt: "tokenText e ?cur ?tok = (r, h1, st1)"
    by (simp add: startTagText_def runHandle_def Let_def)
  from k gh(2) have "\<not> 0 < singleLine h1" by simp
  with tt k(1) show ?thesis
    by (cases r) (simp_all add: serializeToken_def Let_def emitRes_mode)
qed

lemma item_start_raises_mode:
  assumes "isListItemName n" "wikitextSyntax d" "\<not> dropContent st"
    and "fst (serializeToken e st (TagTk n a d)) = None"
  shows "singleLineMode (snd (serializeToken e st (TagTk n a d))) = singleLineMode st + 1"
proof -
  let ?tok = "TagTk n a d"
  let ?cur = "st\<lparr> prevToken := curToken st, curToken := Some ?tok \<rparr>"
  let ?tag = "?cur\<lparr> prevTagToken := currTagToken ?cur, currTagToken := Some ?tok \<rparr>"
  from assms(1,2) obtain b h where gh: "getTokenHandler ?cur ?tok = (h, Some (listItemHandler b))"
    "singleLine h = 1" "\<not> ignore h"
    unfolding isListItemName_def
    by (elim disjE)
       (simp_all add: getTokenHandler_def tagHandlers_def Let_def
          wikitextSyntax_def tagName_def tagData_def emptyHandler_def)
  obtain r h1 st1 where lh: "listItemHandler b e h ?tag ?tok = (r, h1, st1)"
    by (cases "listItemHandler b e h ?tag ?tok")
  from lh listItemHandler_keeps [of b e h ?tag ?tok]
  have k: "singleLineMode st1 = singleLineMode st" "singleLine h1 = 1"
    "dropContent st1 = dropContent st"
    by (simp_all add: gh(2))
  from gh lh have tt: "tokenText e ?cur ?tok = (r, h1, st1)"
    by (simp add: startTagText_def runHandle_def Let_def)
  show ?thesis
  proof (cases r)
    case (Inl err)
    with tt assms(4) show ?thesis by (simp add: serializeToken_def Let_def)
  next
    case (Inr res)
    with tt assms(3,4) k show ?thesis
      by (simp add: serializeToken_def Let_def emitRes_mode)
  qed
qed

lemma item_end_is_silent:
  assumes "isListItemName n" "wikitextSyntax d"
  shows "fst (serializeToken e st (EndTagTk n a d)) = None
       \<and> chunks (snd (serializeToken e st (EndTagTk n a d))) = chunks st
       \<and> singleLineMode (snd (serializeToken e st (EndTagTk n a d))) = singleLineMode st - 1"
proof -
  let ?tok = "EndTagTk n a d"
  let ?cur = "st\<lparr> prevToken := curToken st, curToken := Some ?tok \<rparr>"
  from assms obtain h where gh: "getTokenHandler ?cur ?tok = (h, None)"
    "singleLine h = - 1" "\<not> ignore h"
    unfolding isListItemName_def
    by (elim disjE)
       (simp_all add: getTokenHandler_def tagHandlers_def Let_def
          wikitextSyntax_def tagName_def tagData_def emptyHandler_def)
  let ?tag = "?cur\<lparr> prevTagToken := currTagToken ?cur, currTagToken := Some ?tok \<rparr>"
  let ?low = "if singleLineMode ?tag \<noteq> 0
              then ?tag\<lparr> singleLineMode := singleLineMode ?tag - 1 \<rparr> else ?tag"
  from gh have tt: "tokenText e ?cur ?tok = (Inr [], h, ?low)"
    by (simp add: endTagText_def runHandle_def Let_def)
  have low: "singleLineMode ?low = singleLineMode st - 1" "chunks ?low = chunks st"
    by simp_all
  have "fst (emitRes h ?tok [] ?low) = None"
    by (simp add: emitRes_def stripNewlines_def Let_def)
  with tt gh(2) low emitRes_silent_chunks [of h ?tok ?low] emitRes_mode [of h ?tok "[]" ?low]
  show ?thesis
    by (simp add: serializeToken_def Let_def)
qed

subsection \<open>A token that finds nothing buffered\<close>

lemma handles_keep_count [simp]:
  "availableNewlineCount (snd (snd (bodyHandle e h st tok))) = availableNewlineCount st"
  "availableNewlineCount (snd (snd (idHandle v e h st tok))) = availableNewlineCount st"
  "availableNewlineCount (snd (snd (listEndHandler e h st tok))) = availableNewlineCount st"
  "availableNewlineCount (snd (snd (tableTagHandle s oe e h st tok))) = availableNewlineCount st"
  "availableNewlineCount (snd (snd (tableEndHandle e h st tok))) = availableNewlineCount st"
  "availableNewlineCount (snd (snd (thHandle e h st tok))) = availableNewlineCount st"
  "availableNewlineCount (snd (snd (tdHandle e h st tok))) = availableNewlineCount st"
  "availableNewlineCount (snd (snd (preStartHandle e h st tok))) = availableNewlineCount st"
  "availableNewlineCount (snd (snd (preEndHandle e h st tok))) = availableNewlineCount st"
  "availableNewlineCount (snd (snd (htmlTagHandle e h st tok))) = availableNewlineCount st"
  "availableNewlineCount (snd (snd (htmlEndTagHandle e h st tok))) = availableNewlineCount st"
  "availableNewlineCount (snd (snd (metaHandle e h st tok))) = availableNewlineCount st"
  "availableNewlineCount (snd (snd (spanHandle e h st tok))) = availableNewlineCount st"
  "availableNewlineCount (snd (snd (spanEndHandle e h st tok))) = availableNewlineCount st"
  "availableNewlineCount (snd (snd (linkEndHandler e h st tok))) = availableNewlineCount st"
  by (simp_all add: bodyHandle_def idHandle_def listEndHandler_def tableTagHandle_def
        tableEndHandle_def thHandle_def tdHandle_def preStartHandle_def preEndHandle_def
        htmlTagHandle_def htmlEndTagHandle_def serializeHTMLTag_def serializeHTMLEndTag_def
        metaHandle_def spanHandle_def spanEndHandle_def linkEndHandler_def Let_def)

lemma trHandle_keeps_count [simp]:
  "availableNewlineCount (snd (snd (trHandle e h st tok))) = availableNewlineCount st"
  by (simp add: trHandle_def split: option.splits token.splits)

lemma linkHandler_keeps_count [simp]:
  "availableNewlineCount (snd (snd (linkHandler e h st tok))) = availableNewlineCount st"
  by (simp add: linkHandler_def Let_def case_prod_beta split: option.splits)

lemma handles_keep_pairSep [simp]:
  "pairSepNLCount (fst (snd (bodyHandle e h st tok))) = pairSepNLCount h"
  "pairSepNLCount (fst (snd (idHandle v e h st tok))) = pairSepNLCount h"
  "pairSepNLCount (fst (snd (listEndHandler e h st tok))) = pairSepNLCount h"
  "pairSepNLCount (fst (snd (tableTagHandle s oe e h st tok))) = pairSepNLCount h"
  "pairSepNLCount (fst (snd (tableEndHandle e h st tok))) = pairSepNLCount h"
  "pairSepNLCount (fst (snd (thHandle e h st tok))) = pairSepNLCount h"
  "pairSepNLCount (fst (snd (tdHandle e h st tok))) = pairSepNLCount h"
  "pairSepNLCount (fst (snd (preStartHandle e h st tok))) = pairSepNLCount h"
  "pairSepNLCount (fst (snd (preEndHandle e h st tok))) = pairSepNLCount h"
  "pairSepNLCount (fst (snd (htmlTagHandle e h st tok))) = pairSepNLCount h"
  "pairSepNLCount (fst (snd (htmlEndTagHandle e h st tok))) = pairSepNLCount h"
  "pairSepNLCount (fst (snd (metaHandle e h st tok))) = pairSepNLCount h"
  "pairSepNLCount (fst (snd (spanHandle e h st tok))) = pairSepNLCount h"
  "pairSepNLCount (fst (snd (spanEndHandle e h st tok))) = pairSepNLCount h"
  "pairSepNLCount (fst (snd (linkEndHandler e h st tok))) = pairSepNLCount h"
  by (simp_all add: bodyHandle_def idHandle_def listEndHandler_def tableTagHandle_def
        tableEndHandle_def thHandle_def tdHandle_def preStartHandle_def preEndHandle_def
        htmlTagHandle_def htmlEndTagHandle_def serializeHTMLTag_def serializeHTMLEndTag_def
        metaHandle_def spanHandle_def spanEndHandle_def linkEndHandler_def Let_def)

lemma trHandle_keeps_pairSep [simp]:
  "pairSepNLCount (fst (snd (trHandle e h st tok))) = pairSepNLCount h"
  by (simp add: trHandle_def split: option.splits token.splits)

lemma linkHandler_keeps_pairSep [simp]:
  "pairSepNLCount (fst (snd (linkHandler e h st tok))) = pairSepNLCount h"
  by (simp add: linkHandler_def Let_def case_prod_beta split: option.splits)

lemma tagHandlers_start_count:
  assumes "tagHandlers n = Some (Some (h0, Some f), en)"
    and "\<not> isListTagName n" "\<not> isListItemName n"
  shows "availableNewlineCount (snd (snd (f e h st tok))) = availableNewlineCount st
       \<and> pairSepNLCount (fst (snd (f e h st tok))) = pairSepNLCount h"
  using assms
  by (auto simp: tagHandlers_def listTagHandler_def headingTagHandler_def isListTagName_def
        isListItemName_def
      split: if_splits)

lemma tagHandlers_end_count:
  assumes "tagHandlers n = Some (s, Some (h0, Some f))"
  shows "availableNewlineCount (snd (snd (f e h st tok))) = availableNewlineCount st
       \<and> pairSepNLCount (fst (snd (f e h st tok))) = pairSepNLCount h"
  using assms
  by (auto simp: tagHandlers_def listTagHandler_def headingTagHandler_def
      split: if_splits)

lemma tagHandlers_pairSep:
  assumes "tagHandlers n = Some (s, en)"
    and "\<not> isListTagName n" "\<not> isListItemName n" "n \<noteq> ''p''"
  shows "(case s of None \<Rightarrow> True | Some (h0, f) \<Rightarrow> pairSepNLCount h0 = 0)
       \<and> (case en of None \<Rightarrow> True | Some (h0, f) \<Rightarrow> pairSepNLCount h0 = 0)"
  using assms
  by (auto simp: tagHandlers_def listTagHandler_def headingTagHandler_def isListTagName_def
        isListItemName_def emptyHandler_def
      split: if_splits)

lemma getTokenHandler_p:
  assumes "tagName tok = ''p''" "singleLineMode st \<noteq> 0"
  shows "getTokenHandler st tok =
           (emptyHandler, Some (if isStartTag tok then htmlTagHandle else htmlEndTagHandle))"
  using assms
  by (simp add: getTokenHandler_def tagHandlers_def defaultHTMLTagHandler_def Let_def)

lemma runHandle_count:
  assumes "\<not> (wikitextSyntax (tagData tok)
            \<and> (isListTagName (tagName tok) \<or> isListItemName (tagName tok)))"
    and "singleLineMode st \<noteq> 0"
  shows "availableNewlineCount (snd (snd (runHandle e (getTokenHandler st tok) st1 tok))) =
           availableNewlineCount st1
       \<and> pairSepNLCount (fst (snd (runHandle e (getTokenHandler st tok) st1 tok))) = 0
       \<and> pairSepNLCount (fst (getTokenHandler st tok)) = 0"
proof (cases "tagName tok = ''p''")
  case True
  from getTokenHandler_p [OF True assms(2)] show ?thesis
    by (simp add: runHandle_def emptyHandler_def)
next
  case notp: False
  obtain h f where hf: "getTokenHandler st tok = (h, f)"
    by (cases "getTokenHandler st tok")
  from getTokenHandler_cases [of st tok]
  consider "getTokenHandler st tok = (emptyHandler, Some htmlTagHandle)"
    | "getTokenHandler st tok = (emptyHandler, Some htmlEndTagHandle)"
    | "getTokenHandler st tok = (emptyHandler, None)"
    | s en where "wikitextSyntax (tagData tok)" "tagHandlers (tagName tok) = Some (s, en)"
        "(if isStartTag tok then s else en) = Some (getTokenHandler st tok)"
    by blast
  then show ?thesis
  proof cases
    case 1
    then show ?thesis by (simp add: runHandle_def emptyHandler_def)
  next
    case 2
    then show ?thesis by (simp add: runHandle_def emptyHandler_def)
  next
    case 3
    then show ?thesis by (simp add: runHandle_def emptyHandler_def)
  next
    case 4
    from 4(1) assms(1) have nl: "\<not> isListTagName (tagName tok)"
      and ni: "\<not> isListItemName (tagName tok)"
      by simp_all
    note ps = tagHandlers_pairSep [OF 4(2) nl ni notp]
    show ?thesis
    proof (cases "isStartTag tok")
      case True
      with 4 hf have s: "s = Some (h, f)" by simp
      with 4(2) have th: "tagHandlers (tagName tok) = Some (Some (h, f), en)" by simp
      from ps s have p0: "pairSepNLCount h = 0" by simp
      show ?thesis
      proof (cases f)
        case None
        with hf p0 show ?thesis by (simp add: runHandle_def)
      next
        case (Some g)
        with th have "tagHandlers (tagName tok) = Some (Some (h, Some g), en)" by simp
        from tagHandlers_start_count [OF this nl ni, of e h st1 tok] hf Some p0
        show ?thesis by (simp add: runHandle_def)
      qed
    next
      case False
      with 4 hf have en: "en = Some (h, f)" by simp
      with 4(2) have th: "tagHandlers (tagName tok) = Some (s, Some (h, f))" by simp
      from ps en have p0: "pairSepNLCount h = 0" by simp
      show ?thesis
      proof (cases f)
        case None
        with hf p0 show ?thesis by (simp add: runHandle_def)
      next
        case (Some g)
        with th have "tagHandlers (tagName tok) = Some (s, Some (h, Some g))" by simp
        from tagHandlers_end_count [OF this, of e h st1 tok] hf Some p0
        show ?thesis by (simp add: runHandle_def)
      qed
    qed
  qed
qed

lemma tokenText_count:
  assumes "tok \<noteq> EOFTk"
    and "\<not> (wikitextSyntax (tagData tok)
            \<and> (isListTagName (tagName tok) \<or> isListItemName (tagName tok)))"
    and "singleLineMode st \<noteq> 0"
  shows "availableNewlineCount (snd (snd (tokenText e st tok))) = availableNewlineCount st
       \<and> pairSepNLCount (fst (snd (tokenText e st tok))) = 0"
proof -
  let ?tag = "st\<lparr> prevTagToken := currTagToken st, currTagToken := Some tok \<rparr>"
  note start = runHandle_count [OF assms(2,3), of e ?tag]
  from assms(2) have "\<not> (wikitextSyntax (tagData tok) \<and> isListItemName (tagName tok))"
    by simp
  then have low: "singleLine (fst (getTokenHandler st tok)) = 0"
    by (rule getTokenHandler_other)
  show ?thesis
  proof (cases tok)
    case (TagTk n a d)
    with start show ?thesis by (simp add: startTagText_def Let_def)
  next
    case (SelfclosingTagTk n a d)
    with start show ?thesis by (simp add: startTagText_def Let_def)
  next
    case (EndTagTk n a d)
    with start low show ?thesis by (simp add: endTagText_def Let_def)
  next
    case (StringTk s)
    then show ?thesis
      by (simp add: stringText_def emptyHandler_def split: prod.splits sum.splits)
  next
    case (CommentTk v d)
    then show ?thesis by (simp add: emptyHandler_def)
  next
    case (NlTk d)
    then show ?thesis by (simp add: emptyHandler_def)
  next
    case EOFTk
    with assms(1) show ?thesis by simp
  qed
qed

lemma emitRes_nothing_buffered:
  assumes "0 < singleLineMode st" "availableNewlineCount st = 0"
    and "pairSepNLCount h = 0" "fst (leadingNewlines res) = []"
  shows "take (length (chunks st)) (chunks (snd (emitRes h tok res st))) = chunks st
       \<and> list_all (\<lambda>c. CHR ''\<newline>'' \<notin> set c)
           (drop (length (chunks st)) (chunks (snd (emitRes h tok res st))))"
proof (cases "res = []")
  case True
  then show ?thesis by (simp add: emitRes_silent_chunks)
next
  case False
  from assms(3) have ps: "\<And>s. pairSeparator h tok s = s"
    by (simp add: pairSeparator_def)
  show ?thesis
  proof (cases "matchNewlines res")
    case None
    with False show ?thesis by (simp add: emitRes_def stripNewlines_def)
  next
    case (Some x)
    obtain l m t where x: "x = (l, m, t)" by (cases x)
    from Some x assms(4) have l: "l = []"
      by (auto simp: matchNewlines_def Let_def split: prod.splits if_splits)
    from Some x l False have sn: "stripNewlines res st = Some (m, countNewlines t, st)"
      by (simp add: stripNewlines_def)
    show ?thesis
    proof (cases "m = []")
      case True
      with sn ps show ?thesis by (simp add: emitRes_def Let_def)
    next
      case m: False
      from assms(1,2) have ch: "chunks (emitText h m (countNewlines t) st) =
          chunks st @ [newlinesToSpaces (stripDropTail (dropTail st) m)]"
        by (simp add: emitText_chunks)
      from m sn ps ch show ?thesis
        by (simp add: emitRes_def Let_def newlinesToSpaces_no_newline)
    qed
  qed
qed

lemma serializeToken_nothing_buffered:
  assumes "0 < singleLineMode st" "availableNewlineCount st = 0" "tok \<noteq> EOFTk"
    and "\<not> (wikitextSyntax (tagData tok)
            \<and> (isListTagName (tagName tok) \<or> isListItemName (tagName tok)))"
    and "tokenText e (st\<lparr> prevToken := curToken st, curToken := Some tok \<rparr>) tok =
           (Inr res, h, st1)"
    and "fst (leadingNewlines res) = []"
  shows "take (length (chunks st)) (chunks (snd (serializeToken e st tok))) = chunks st
       \<and> list_all (\<lambda>c. CHR ''\<newline>'' \<notin> set c)
           (drop (length (chunks st)) (chunks (snd (serializeToken e st tok))))"
proof -
  let ?cur = "st\<lparr> prevToken := curToken st, curToken := Some tok \<rparr>"
  from assms(1) have on: "singleLineMode ?cur \<noteq> 0" by simp
  from tokenText_single_line [OF assms(3,4), of e ?cur] assms(5)
  have k: "singleLineMode st1 = singleLineMode st" "chunks st1 = chunks st"
    by simp_all
  from tokenText_count [OF assms(3,4) on, of e] assms(5)
  have c: "availableNewlineCount st1 = availableNewlineCount st" "pairSepNLCount h = 0"
    by simp_all
  from assms(1,2) k c have on1: "0 < singleLineMode st1" "availableNewlineCount st1 = 0"
    by simp_all
  from emitRes_nothing_buffered [OF on1 c(2) assms(6), of tok] assms(5) k
  show ?thesis
    by (simp add: serializeToken_def Let_def)
qed

lemma serializeToken_single_line_chunk:
  assumes "0 < singleLineMode st" "availableNewlineCount st = 0" "tok \<noteq> EOFTk"
    and "\<not> (wikitextSyntax (tagData tok)
            \<and> (isListTagName (tagName tok) \<or> isListItemName (tagName tok)))"
    and "tokenText e (st\<lparr> prevToken := curToken st, curToken := Some tok \<rparr>) tok =
           (Inr res, h, st1)"
    and "\<not> (dropContent st \<and> dropContent st1)"
    and "matchNewlines res = Some ([], m, t)"
  shows "chunks (snd (serializeToken e st tok)) =
           chunks st @ (if m = [] then []
                        else [newlinesToSpaces (stripDropTail (dropTail st1) m)])"
proof -
  let ?cur = "st\<lparr> prevToken := curToken st, curToken := Some tok \<rparr>"
  from assms(1) have on: "singleLineMode ?cur \<noteq> 0" by simp
  from tokenText_single_line [OF assms(3,4), of e ?cur] assms(5)
  have k: "singleLineMode st1 = singleLineMode st" "chunks st1 = chunks st"
    by simp_all
  from tokenText_count [OF assms(3,4) on, of e] assms(5)
  have c: "availableNewlineCount st1 = availableNewlineCount st" "pairSepNLCount h = 0"
    by simp_all
  from c(2) have ps: "\<And>s. pairSeparator h tok s = s"
    by (simp add: pairSeparator_def)
  from assms(6) have ser: "serializeToken e st tok = emitRes h tok res st1"
    using assms(5) by (auto simp: serializeToken_def Let_def)
  show ?thesis
  proof (cases "res = []")
    case True
    with assms(7) have "m = []"
      by (simp add: matchNewlines_def)
    with True ser k show ?thesis
      by (simp add: emitRes_silent_chunks)
  next
    case False
    with assms(7) have sn: "stripNewlines res st1 = Some (m, countNewlines t, st1)"
      by (simp add: stripNewlines_def)
    show ?thesis
    proof (cases "m = []")
      case True
      with sn ps ser k show ?thesis by (simp add: emitRes_def Let_def)
    next
      case m: False
      from assms(1,2) k c have "chunks (emitText h m (countNewlines t) st1) =
          chunks st @ [newlinesToSpaces (stripDropTail (dropTail st1) m)]"
        by (simp add: emitText_chunks)
      with m sn ps ser show ?thesis
        by (simp add: emitRes_def Let_def)
    qed
  qed
qed

subsection \<open>The contents of a list item\<close>



text \<open>
  The run of the witness as a whole: a list item with a newline inside its text,
  inside the text of an element and inside a comment comes out on one line.
\<close>

lemma single_line_item_output:
  "fst (serializeDOM plainEnv []
          (Element ''UL'' [] noData [Element ''LI'' [] noData itemContents])) =
     Some (''*a b'' @ [CHR 0x27, CHR 0x27] @ ''c d'' @ [CHR 0x27, CHR 0x27] @ ''<!--x y-->'')"
  by code_simp


text \<open>
  A list in HTML syntax inside the item is written as HTML tags and keeps
  single-line mode; a list in wikitext syntax that is the first child of its item
  puts its bullet behind the bullet of the item, on the same line.
\<close>

lemma nested_list_variants:
  "fst (serializeDOM plainEnv []
          (Element ''UL'' [] noData
             [Element ''LI'' [] noData
                [TextNode ''a'',
                 Element ''UL'' [] (noData\<lparr> stx := Some ''html'' \<rparr>)
                   [Element ''LI'' [] (noData\<lparr> stx := Some ''html'' \<rparr>) [TextNode ''b'']]]])) =
     Some ''*a<ul><li>b</li></ul>''
   \<and> fst (serializeDOM plainEnv []
          (Element ''UL'' [] noData
             [Element ''LI'' [] noData
                [Element ''UL'' [] noData [Element ''LI'' [] noData [TextNode ''b'']]]])) =
     Some ''**b''"
  by code_simp

end
